theory Spec2Isabelle
  imports Complex_Main
begin

section \<open>Errors and partial primitives\<close>

text \<open>
  The Python exceptions that the modelled code can raise. A computation that may raise
  returns \<open>py_error + 'a\<close>, with \<open>Inl\<close> for the exception. Floats are modelled as reals.
\<close>

datatype py_error = IndexError | KeyError | ValueError | ZeroDivisionError | TypeError

type_synonym vec = "real list"

text \<open>\<open>A[i]\<close> on a list: raises IndexError out of range.\<close>

definition py_index :: "'a list \<Rightarrow> nat \<Rightarrow> py_error + 'a" where
  "py_index xs i = (if i < length xs then Inr (xs ! i) else Inl IndexError)"

text \<open>\<open>x / y\<close>: raises ZeroDivisionError on a zero divisor.\<close>

definition py_div :: "real \<Rightarrow> real \<Rightarrow> py_error + real" where
  "py_div x y = (if y = 0 then Inl ZeroDivisionError else Inr (x / y))"

text \<open>\<open>math.sqrt(x)\<close>: raises ValueError on a negative argument.\<close>

definition py_sqrt :: "real \<Rightarrow> py_error + real" where
  "py_sqrt x = (if x < 0 then Inl ValueError else Inr (sqrt x))"

section \<open>The closest-point solver (spatial_analyzer.py, closest_points_on_segments_in_3D)\<close>

subsection \<open>Vector helpers\<close>

definition sub :: "vec \<Rightarrow> vec \<Rightarrow> vec" where
  "sub a b = map2 (\<lambda>ai bi. ai - bi) a b"

definition dot :: "vec \<Rightarrow> vec \<Rightarrow> real" where
  "dot a b = sum_list (map2 (\<lambda>ai bi. ai * bi) a b)"

definition add :: "vec \<Rightarrow> vec \<Rightarrow> vec" where
  "add a b = map2 (\<lambda>ai bi. ai + bi) a b"

definition scale :: "vec \<Rightarrow> real \<Rightarrow> vec" where
  "scale a s = map (\<lambda>ai. ai * s) a"

definition norm_vec :: "vec \<Rightarrow> py_error + real" where
  "norm_vec a = py_sqrt (dot a a)"

definition clamp :: "real \<Rightarrow> real" where
  "clamp x = max 0 (min x 1)"

definition time_calculations :: "real \<Rightarrow> real \<Rightarrow> real \<Rightarrow> real \<Rightarrow> real \<Rightarrow> real \<Rightarrow> real \<times> real" where
  "time_calculations ta1 ta2 s tb1 tb2 t = ((ta2 - ta1) * s + ta1, (tb2 - tb1) * t + tb1)"

subsection \<open>Parameters on the infinite lines (lines 45 to 64)\<close>

definition line_parameters :: "real \<Rightarrow> vec \<Rightarrow> vec \<Rightarrow> vec \<Rightarrow> vec \<Rightarrow> py_error + (real \<times> real)" where
  "line_parameters eps P1 P2 Q1 Q2 =
     (let u = sub P2 P1; v = sub Q2 Q1; w = sub Q1 P1;
          a = dot u u; b = dot u v; c = dot v v; d = dot u w; e = dot v w;
          D = - a * c + b * b
      in if \<bar>D\<bar> > eps then
           (case py_div (b * e - c * d) D of
              Inl err \<Rightarrow> Inl err
            | Inr s \<Rightarrow>
                (case py_div (a * e - b * d) D of
                   Inl err \<Rightarrow> Inl err
                 | Inr t \<Rightarrow> Inr (s, t)))
         else
           (case (if c > eps then py_div e c else Inr 0) of
              Inl err \<Rightarrow> Inl err
            | Inr t \<Rightarrow> Inr (0, t)))"

subsection \<open>Endpoint fallback (lines 78 to 109)\<close>

definition point_to_seg_closest :: "real \<Rightarrow> vec \<Rightarrow> vec \<Rightarrow> vec \<Rightarrow> py_error + (vec \<times> real)" where
  "point_to_seg_closest eps A B X =
     (let AB = sub B A in
      case (if dot AB AB > eps then py_div (dot (sub X A) AB) (dot AB AB) else Inr 0) of
        Inl err \<Rightarrow> Inl err
      | Inr t \<Rightarrow> (let t' = clamp t in Inr (add A (scale AB t'), t')))"

text \<open>
  The running best of the two loops: \<open>None\<close> stands for the initial state
  \<open>best_dist = inf\<close>, \<open>best_pair = (None, None, None, None)\<close>; \<open>Some (d, pair)\<close> for a
  recorded candidate. Every real distance is below \<open>inf\<close>.
\<close>

type_synonym best = "(real \<times> (vec \<times> real \<times> vec \<times> real)) option"

definition lt_best :: "real \<Rightarrow> best \<Rightarrow> bool" where
  "lt_best dPQ best = (case best of None \<Rightarrow> True | Some (best_dist, _) \<Rightarrow> dPQ < best_dist)"

text \<open>The loop \<open>for P in (P1, P2)\<close>: the endpoints of segment P against segment Q.\<close>

fun loop_P :: "real \<Rightarrow> vec \<Rightarrow> vec \<Rightarrow> vec list \<Rightarrow> nat \<Rightarrow> best \<Rightarrow> py_error + best" where
  "loop_P eps Q1 Q2 [] temp_var best = Inr best"
| "loop_P eps Q1 Q2 (P # Ps) temp_var best =
     (case point_to_seg_closest eps Q1 Q2 P of
        Inl err \<Rightarrow> Inl err
      | Inr (Qp, t_qp) \<Rightarrow>
          (case norm_vec (sub P Qp) of
             Inl err \<Rightarrow> Inl err
           | Inr dPQ \<Rightarrow>
               loop_P eps Q1 Q2 Ps (temp_var + 1)
                 (if lt_best dPQ best then Some (dPQ, (P, real temp_var, Qp, t_qp)) else best)))"

text \<open>The loop \<open>for Q in (Q1, Q2)\<close>: the endpoints of segment Q against segment P.\<close>

fun loop_Q :: "real \<Rightarrow> vec \<Rightarrow> vec \<Rightarrow> vec list \<Rightarrow> nat \<Rightarrow> best \<Rightarrow> py_error + best" where
  "loop_Q eps P1 P2 [] temp_var best = Inr best"
| "loop_Q eps P1 P2 (Q # Qs) temp_var best =
     (case point_to_seg_closest eps P1 P2 Q of
        Inl err \<Rightarrow> Inl err
      | Inr (Pp, t_pp) \<Rightarrow>
          (case norm_vec (sub Pp Q) of
             Inl err \<Rightarrow> Inl err
           | Inr dPQ \<Rightarrow>
               loop_Q eps P1 P2 Qs (temp_var + 1)
                 (if lt_best dPQ best then Some (dPQ, (Pp, t_pp, Q, real temp_var)) else best)))"

definition endpoint_fallback ::
  "real \<Rightarrow> vec \<Rightarrow> vec \<Rightarrow> vec \<Rightarrow> vec \<Rightarrow> real \<Rightarrow> real \<Rightarrow> real \<Rightarrow> real
     \<Rightarrow> py_error + (vec \<times> vec \<times> real \<times> (real \<times> real))" where
  "endpoint_fallback eps P1 P2 Q1 Q2 tp1 tp2 tq1 tq2 =
     (case loop_P eps Q1 Q2 [P1, P2] 0 None of
        Inl err \<Rightarrow> Inl err
      | Inr best1 \<Rightarrow>
          (case loop_Q eps P1 P2 [Q1, Q2] 0 best1 of
             Inl err \<Rightarrow> Inl err
           | Inr None \<Rightarrow> Inl TypeError
           | Inr (Some (best_dist, (bp0, bp1, bp2, bp3))) \<Rightarrow>
               Inr (bp0, bp2, best_dist, time_calculations tp1 tp2 bp1 tq1 tq2 bp3)))"

subsection \<open>The solver\<close>

definition closest_points_on_segments_in_3D ::
  "real \<Rightarrow> vec \<Rightarrow> vec \<Rightarrow> vec \<Rightarrow> vec \<Rightarrow> py_error + (vec \<times> vec \<times> real \<times> (real \<times> real))" where
  "closest_points_on_segments_in_3D eps A1 A2 B1 B2 =
     (let P1 = take 3 A1; P2 = take 3 A2; Q1 = take 3 B1; Q2 = take 3 B2 in
      case py_index A1 3 of Inl err \<Rightarrow> Inl err | Inr tp1 \<Rightarrow>
      case py_index A2 3 of Inl err \<Rightarrow> Inl err | Inr tp2 \<Rightarrow>
      case py_index B1 3 of Inl err \<Rightarrow> Inl err | Inr tq1 \<Rightarrow>
      case py_index B2 3 of Inl err \<Rightarrow> Inl err | Inr tq2 \<Rightarrow>
      case line_parameters eps P1 P2 Q1 Q2 of Inl err \<Rightarrow> Inl err | Inr (s, t) \<Rightarrow>
        (let s_clamped = clamp s; t_clamped = clamp t;
             Pc = add P1 (scale (sub P2 P1) s_clamped);
             Qc = add Q1 (scale (sub Q2 Q1) t_clamped)
         in if 0 \<le> s \<and> s \<le> 1 \<and> 0 \<le> t \<and> t \<le> 1 then
              (case norm_vec (sub Pc Qc) of
                 Inl err \<Rightarrow> Inl err
               | Inr dPQ \<Rightarrow> Inr (Pc, Qc, dPQ, time_calculations tp1 tp2 s_clamped tq1 tq2 t_clamped))
            else endpoint_fallback eps P1 P2 Q1 Q2 tp1 tp2 tq1 tq2))"

text \<open>The default of the keyword argument \<open>eps\<close>.\<close>

definition default_eps :: real where
  "default_eps = 1 / 10 ^ 12"

section \<open>The conflict classifier (check_for_conflicts)\<close>

record spatial_analyzer =
  drone_radius :: real
  safety_time :: real
  interpolation_step :: int
  safety_threshold :: real

text \<open>\<open>SpatialAnalyzer.__init__\<close>.\<close>

definition SpatialAnalyzer :: "real \<Rightarrow> real \<Rightarrow> int \<Rightarrow> spatial_analyzer" where
  "SpatialAnalyzer radius stime step =
     \<lparr>drone_radius = radius, safety_time = stime, interpolation_step = step,
      safety_threshold = radius * 3\<rparr>"

definition check_for_conflicts ::
  "spatial_analyzer \<Rightarrow> vec \<times> vec \<times> real \<times> (real \<times> real)
     \<Rightarrow> nat \<times> vec option \<times> vec option \<times> real option \<times> real option" where
  "check_for_conflicts self results =
     (case results of (closest_P, closest_Q, min_dist_val, (t1, t2)) \<Rightarrow>
        (let count = (0::nat);
             count = (if min_dist_val < safety_threshold self
                      then (if \<bar>t2 - t1\<bar> < safety_time self then count + 1 + 1 else count + 1)
                      else count)
         in if count > 0 then (count, Some closest_P, Some closest_Q, Some t1, Some t2)
            else (count, None, None, None, None)))"

section \<open>The aggregator (check_spatial_conflicts, detect_all_conflicts)\<close>

text \<open>
  A waypoint is a dictionary from field names to numbers. The value under
  \<open>timestamp\<close> is the instant that the ISO string denotes, in seconds on an absolute
  axis, so \<open>datetime.fromisoformat\<close> is the identity of the model and a datetime
  difference's \<open>total_seconds()\<close> is a subtraction.
\<close>

type_synonym waypoint = "string \<rightharpoonup> real"

text \<open>\<open>d[k]\<close> on a dictionary: raises KeyError on a missing key.\<close>

definition py_getitem :: "(string \<rightharpoonup> 'v) \<Rightarrow> string \<Rightarrow> py_error + 'v" where
  "py_getitem d k = (case d k of None \<Rightarrow> Inl KeyError | Some v \<Rightarrow> Inr v)"

text \<open>\<open>min(xs)\<close> on a list: raises ValueError on the empty list.\<close>

definition py_min :: "real list \<Rightarrow> py_error + real" where
  "py_min xs = (case xs of [] \<Rightarrow> Inl ValueError | x # ys \<Rightarrow> Inr (fold min ys x))"

record flight =
  drone_id :: string
  waypoints :: "waypoint list"

record conflict_data =
  with_drone :: string
  min_distance :: real
  location_primary :: "vec option"
  location_other :: "vec option"
  timestamp_primary :: real
  timestamp_other :: real
  time_difference :: real
  spatial_conflict :: bool
  temporal_conflict :: bool
  conflict_type :: string
  primary_segment :: nat
  other_segment :: nat

definition convert_timestamp_to_seconds :: "real \<Rightarrow> real \<Rightarrow> real" where
  "convert_timestamp_to_seconds timestamp reference_time = timestamp - reference_time"

text \<open>The loop that fills \<open>all_timestamps\<close> (lines 195 to 197).\<close>

fun all_timestamps :: "waypoint list \<Rightarrow> real list \<Rightarrow> py_error + real list" where
  "all_timestamps [] acc = Inr acc"
| "all_timestamps (wp # wps) acc =
     (case py_getitem wp ''timestamp'' of
        Inl err \<Rightarrow> Inl err
      | Inr ts \<Rightarrow> all_timestamps wps (acc @ [ts]))"

text \<open>One endpoint \<open>[wp['x'], wp['y'], wp['z'], seconds]\<close> of a segment.\<close>

definition segment_point :: "real \<Rightarrow> waypoint \<Rightarrow> py_error + vec" where
  "segment_point reference_time wp =
     (case py_getitem wp ''x'' of Inl err \<Rightarrow> Inl err | Inr x \<Rightarrow>
      case py_getitem wp ''y'' of Inl err \<Rightarrow> Inl err | Inr y \<Rightarrow>
      case py_getitem wp ''z'' of Inl err \<Rightarrow> Inl err | Inr z \<Rightarrow>
      case py_getitem wp ''timestamp'' of Inl err \<Rightarrow> Inl err | Inr ts \<Rightarrow>
        Inr [x, y, z, convert_timestamp_to_seconds ts reference_time])"

text \<open>The loop \<open>for i in range(len(waypoints) - 1)\<close> over consecutive waypoints.\<close>

fun convert_waypoints_to_segments ::
  "real \<Rightarrow> waypoint list \<Rightarrow> (vec \<times> vec) list \<Rightarrow> py_error + (vec \<times> vec) list" where
  "convert_waypoints_to_segments reference_time (wp1 # wp2 # wps) segments =
     (case segment_point reference_time wp1 of Inl err \<Rightarrow> Inl err | Inr seg1 \<Rightarrow>
      case segment_point reference_time wp2 of Inl err \<Rightarrow> Inl err | Inr seg2 \<Rightarrow>
        convert_waypoints_to_segments reference_time (wp2 # wps) (segments @ [(seg1, seg2)]))"
| "convert_waypoints_to_segments reference_time wps segments = Inr segments"

text \<open>
  The body of the inner loop once the level is positive (lines 224 to 254). The time
  stamps of the record are instants on the same axis as the waypoints'; adding a
  \<open>timedelta\<close> to the reference time is an addition, and needs both times.
\<close>

definition conflict_record ::
  "string \<Rightarrow> real \<Rightarrow> vec \<times> vec \<times> real \<times> (real \<times> real)
     \<Rightarrow> nat \<times> vec option \<times> vec option \<times> real option \<times> real option
     \<Rightarrow> nat \<Rightarrow> nat \<Rightarrow> py_error + conflict_data" where
  "conflict_record other_drone_id reference_time results checked i j =
     (case checked of (conflict_level, closest_P, closest_Q, t1o, t2o) \<Rightarrow>
      case t1o of None \<Rightarrow> Inl TypeError | Some t1 \<Rightarrow>
      case t2o of None \<Rightarrow> Inl TypeError | Some t2 \<Rightarrow>
        Inr \<lparr>with_drone = other_drone_id,
             min_distance = fst (snd (snd results)),
             location_primary = closest_P,
             location_other = closest_Q,
             timestamp_primary = reference_time + t1,
             timestamp_other = reference_time + t2,
             time_difference = \<bar>t2 - t1\<bar>,
             spatial_conflict = True,
             temporal_conflict = (conflict_level \<noteq> 1),
             conflict_type = (if conflict_level = 1 then ''SPATIAL'' else ''SPATIOTEMPORAL''),
             primary_segment = i,
             other_segment = j\<rparr>)"

text \<open>The inner loop \<open>for j, (o1, o2) in enumerate(other_segments)\<close>.\<close>

fun inner_loop ::
  "spatial_analyzer \<Rightarrow> string \<Rightarrow> real \<Rightarrow> nat \<Rightarrow> vec \<times> vec \<Rightarrow> nat \<Rightarrow> (vec \<times> vec) list
     \<Rightarrow> conflict_data list \<Rightarrow> py_error + conflict_data list" where
  "inner_loop self other_drone_id reference_time i p j [] conflicts = Inr conflicts"
| "inner_loop self other_drone_id reference_time i p j (o12 # other_segments) conflicts =
     (case closest_points_on_segments_in_3D default_eps (fst p) (snd p) (fst o12) (snd o12) of
        Inl err \<Rightarrow> Inl err
      | Inr results \<Rightarrow>
          (if fst (check_for_conflicts self results) > 0 then
             (case conflict_record other_drone_id reference_time results
                     (check_for_conflicts self results) i j of
                Inl err \<Rightarrow> Inl err
              | Inr conflict \<Rightarrow>
                  inner_loop self other_drone_id reference_time i p (j + 1) other_segments
                    (conflicts @ [conflict]))
           else inner_loop self other_drone_id reference_time i p (j + 1) other_segments conflicts))"

text \<open>The outer loop \<open>for i, (p1, p2) in enumerate(primary_segments)\<close>.\<close>

fun outer_loop ::
  "spatial_analyzer \<Rightarrow> string \<Rightarrow> real \<Rightarrow> nat \<Rightarrow> (vec \<times> vec) list \<Rightarrow> (vec \<times> vec) list
     \<Rightarrow> conflict_data list \<Rightarrow> py_error + conflict_data list" where
  "outer_loop self other_drone_id reference_time i [] other_segments conflicts = Inr conflicts"
| "outer_loop self other_drone_id reference_time i (p # primary_segments) other_segments conflicts =
     (case inner_loop self other_drone_id reference_time i p 0 other_segments conflicts of
        Inl err \<Rightarrow> Inl err
      | Inr conflicts' \<Rightarrow>
          outer_loop self other_drone_id reference_time (i + 1) primary_segments other_segments
            conflicts')"

text \<open>The reference time of a comparison (lines 195 to 198): the earliest timestamp.\<close>

definition get_reference_time :: "waypoint list \<Rightarrow> waypoint list \<Rightarrow> py_error + real" where
  "get_reference_time primary_waypoints other_waypoints =
     (case all_timestamps (primary_waypoints @ other_waypoints) [] of
        Inl err \<Rightarrow> Inl err
      | Inr ts \<Rightarrow> py_min ts)"

definition check_spatial_conflicts ::
  "spatial_analyzer \<Rightarrow> waypoint list \<Rightarrow> waypoint list \<Rightarrow> string
     \<Rightarrow> py_error + conflict_data list" where
  "check_spatial_conflicts self primary_waypoints other_waypoints other_drone_id =
     (case get_reference_time primary_waypoints other_waypoints of
        Inl err \<Rightarrow> Inl err | Inr reference_time \<Rightarrow>
      case convert_waypoints_to_segments reference_time primary_waypoints [] of
        Inl err \<Rightarrow> Inl err | Inr primary_segments \<Rightarrow>
      case convert_waypoints_to_segments reference_time other_waypoints [] of
        Inl err \<Rightarrow> Inl err | Inr other_segments \<Rightarrow>
        outer_loop self other_drone_id reference_time 0 primary_segments other_segments [])"

text \<open>conflict_detector.py: the detector holds a spatial analyzer built from its arguments.\<close>

record conflict_detector =
  spatial_analyzer_of :: spatial_analyzer

definition ConflictDetector :: "real \<Rightarrow> real \<Rightarrow> conflict_detector" where
  "ConflictDetector radius time_threshold =
     \<lparr>spatial_analyzer_of = SpatialAnalyzer radius time_threshold 1\<rparr>"

text \<open>The loop \<open>for drone in flight_data['flights']\<close> of detect_all_conflicts.\<close>

fun detect_loop ::
  "conflict_detector \<Rightarrow> waypoint list \<Rightarrow> flight list \<Rightarrow> conflict_data list
     \<Rightarrow> py_error + conflict_data list" where
  "detect_loop self primary_waypoints [] conflicts = Inr conflicts"
| "detect_loop self primary_waypoints (drone # flights) conflicts =
     (case check_spatial_conflicts (spatial_analyzer_of self) primary_waypoints
             (waypoints drone) (drone_id drone) of
        Inl err \<Rightarrow> Inl err
      | Inr spatial_conflicts \<Rightarrow>
          detect_loop self primary_waypoints flights (conflicts @ spatial_conflicts))"

definition detect_all_conflicts ::
  "conflict_detector \<Rightarrow> flight \<Rightarrow> flight list \<Rightarrow> py_error + conflict_data list" where
  "detect_all_conflicts self primary_path flight_data =
     detect_loop self (waypoints primary_path) flight_data []"

section \<open>Validation and the controller (data_loader.py, main_controller.py)\<close>

definition required_fields :: "string list" where
  "required_fields = [''x'', ''y'', ''z'', ''timestamp'']"

fun validate_waypoint_data :: "waypoint list \<Rightarrow> bool" where
  "validate_waypoint_data [] = True"
| "validate_waypoint_data (wp # wps) =
     (if \<not> list_all (\<lambda>field. wp field \<noteq> None) required_fields then False
      else validate_waypoint_data wps)"

record flight_analyzer =
  analyzer_radius :: real
  time_threshold :: real
  detector :: conflict_detector

definition DroneFlightAnalyzer :: "real \<Rightarrow> real \<Rightarrow> flight_analyzer" where
  "DroneFlightAnalyzer radius threshold =
     \<lparr>analyzer_radius = radius, time_threshold = threshold,
      detector = ConflictDetector radius threshold\<rparr>"

subsection \<open>The visualizer (visualization_engine.py)\<close>

text \<open>
  The controller calls three methods of the visualizer after detection. Drawing itself is
  done by the plotting libraries and is taken to succeed; the model keeps what the methods
  themselves read from the paths and the records, which is where they can raise. The frame
  callback of the animation is run by the library and reads nothing that the method has
  not read before.
\<close>

text \<open>The comprehension \<open>[wp[k] for wp in waypoints]\<close>.\<close>

fun column :: "string \<Rightarrow> waypoint list \<Rightarrow> py_error + real list" where
  "column k [] = Inr []"
| "column k (wp # wps) =
     (case py_getitem wp k of Inl err \<Rightarrow> Inl err | Inr v \<Rightarrow>
      case column k wps of Inl err \<Rightarrow> Inl err | Inr vs \<Rightarrow> Inr (v # vs))"

text \<open>\<open>np.array([w['x'], w['y'], w['z']])\<close>.\<close>

definition position :: "waypoint \<Rightarrow> py_error + vec" where
  "position w =
     (case py_getitem w ''x'' of Inl err \<Rightarrow> Inl err | Inr x \<Rightarrow>
      case py_getitem w ''y'' of Inl err \<Rightarrow> Inl err | Inr y \<Rightarrow>
      case py_getitem w ''z'' of Inl err \<Rightarrow> Inl err | Inr z \<Rightarrow> Inr [x, y, z])"

text \<open>get_segments_with_time of the spatial analyzer (lines 161 to 171).\<close>

fun get_segments_with_time :: "waypoint list \<Rightarrow> py_error + (vec \<times> vec \<times> real \<times> real) list" where
  "get_segments_with_time (w1 # w2 # wps) =
     (case position w1 of Inl err \<Rightarrow> Inl err | Inr a \<Rightarrow>
      case position w2 of Inl err \<Rightarrow> Inl err | Inr b \<Rightarrow>
      case py_getitem w1 ''timestamp'' of Inl err \<Rightarrow> Inl err | Inr t1 \<Rightarrow>
      case py_getitem w2 ''timestamp'' of Inl err \<Rightarrow> Inl err | Inr t2 \<Rightarrow>
      case get_segments_with_time (w2 # wps) of Inl err \<Rightarrow> Inl err | Inr segments \<Rightarrow>
        Inr ((a, b, t1, t2) # segments))"
| "get_segments_with_time wps = Inr []"

text \<open>
  visualize_conflict_3d: the coordinates and the segments of one path (lines 66 to 75 and
  78 to 87), the loop over the other drones, and the loop over the records, which unpacks
  \<open>x, y, z = c['location_primary']\<close> (TypeError on None, ValueError on another length).
\<close>

definition plot_flight_3d :: "waypoint list \<Rightarrow> py_error + unit" where
  "plot_flight_3d wps =
     (case column ''x'' wps of Inl err \<Rightarrow> Inl err | Inr x \<Rightarrow>
      case column ''y'' wps of Inl err \<Rightarrow> Inl err | Inr y \<Rightarrow>
      case column ''z'' wps of Inl err \<Rightarrow> Inl err | Inr z \<Rightarrow>
      case get_segments_with_time wps of Inl err \<Rightarrow> Inl err | Inr segments \<Rightarrow> Inr ())"

fun plot_flights_3d :: "flight list \<Rightarrow> py_error + unit" where
  "plot_flights_3d [] = Inr ()"
| "plot_flights_3d (flight # flights) =
     (case plot_flight_3d (waypoints flight) of Inl err \<Rightarrow> Inl err | Inr _ \<Rightarrow> plot_flights_3d flights)"

definition unpack3 :: "vec option \<Rightarrow> py_error + (real \<times> real \<times> real)" where
  "unpack3 loc =
     (case loc of
        None \<Rightarrow> Inl TypeError
      | Some v \<Rightarrow> (if length v = 3 then Inr (v ! 0, v ! 1, v ! 2) else Inl ValueError))"

fun plot_conflicts :: "conflict_data list \<Rightarrow> py_error + unit" where
  "plot_conflicts [] = Inr ()"
| "plot_conflicts (c # conflicts) =
     (case unpack3 (location_primary c) of Inl err \<Rightarrow> Inl err | Inr _ \<Rightarrow> plot_conflicts conflicts)"

definition visualize_conflict_3d :: "flight \<Rightarrow> flight list \<Rightarrow> conflict_data list \<Rightarrow> py_error + unit" where
  "visualize_conflict_3d primary_path flight_data conflicts =
     (case plot_flights_3d flight_data of Inl err \<Rightarrow> Inl err | Inr _ \<Rightarrow>
      case plot_flight_3d (waypoints primary_path) of Inl err \<Rightarrow> Inl err | Inr _ \<Rightarrow>
        plot_conflicts conflicts)"

text \<open>
  visualize_position_over_time: \<open>plot_path\<close> starts with \<open>waypoints[0]['timestamp']\<close>
  (IndexError on a path without waypoints), the other drones come first, then the
  primary path, then create_plotly_visualization with its \<open>add_trace\<close>.
\<close>

definition plot_path :: "waypoint list \<Rightarrow> py_error + unit" where
  "plot_path wps =
     (case py_index wps 0 of Inl err \<Rightarrow> Inl err | Inr wp0 \<Rightarrow>
      case py_getitem wp0 ''timestamp'' of Inl err \<Rightarrow> Inl err | Inr t0 \<Rightarrow>
      case column ''timestamp'' wps of Inl err \<Rightarrow> Inl err | Inr ts \<Rightarrow>
      case column ''x'' wps of Inl err \<Rightarrow> Inl err | Inr xs \<Rightarrow>
      case column ''y'' wps of Inl err \<Rightarrow> Inl err | Inr ys \<Rightarrow> Inr ())"

fun plot_paths :: "flight list \<Rightarrow> py_error + unit" where
  "plot_paths [] = Inr ()"
| "plot_paths (drone # flights) =
     (case plot_path (waypoints drone) of Inl err \<Rightarrow> Inl err | Inr _ \<Rightarrow> plot_paths flights)"

definition add_trace :: "waypoint list \<Rightarrow> py_error + unit" where
  "add_trace wps =
     (case column ''timestamp'' wps of Inl err \<Rightarrow> Inl err | Inr ts \<Rightarrow>
      case column ''x'' wps of Inl err \<Rightarrow> Inl err | Inr xs \<Rightarrow>
      case column ''y'' wps of Inl err \<Rightarrow> Inl err | Inr ys \<Rightarrow> Inr ())"

fun add_traces :: "flight list \<Rightarrow> py_error + unit" where
  "add_traces [] = Inr ()"
| "add_traces (drone # flights) =
     (case add_trace (waypoints drone) of Inl err \<Rightarrow> Inl err | Inr _ \<Rightarrow> add_traces flights)"

definition create_plotly_visualization :: "flight \<Rightarrow> flight list \<Rightarrow> py_error + unit" where
  "create_plotly_visualization primary_path flight_data =
     (case py_index (waypoints primary_path) 0 of Inl err \<Rightarrow> Inl err | Inr wp0 \<Rightarrow>
      case py_getitem wp0 ''timestamp'' of Inl err \<Rightarrow> Inl err | Inr t0 \<Rightarrow>
      case add_traces flight_data of Inl err \<Rightarrow> Inl err | Inr _ \<Rightarrow>
        add_trace (waypoints primary_path))"

definition visualize_position_over_time :: "flight \<Rightarrow> flight list \<Rightarrow> py_error + unit" where
  "visualize_position_over_time primary_path flight_data =
     (case plot_paths flight_data of Inl err \<Rightarrow> Inl err | Inr _ \<Rightarrow>
      case plot_path (waypoints primary_path) of Inl err \<Rightarrow> Inl err | Inr _ \<Rightarrow>
        create_plotly_visualization primary_path flight_data)"

text \<open>
  animate_3d_trajectories: the primary path comes first in \<open>all_drones\<close>;
  generate_comprehensive_time_samples reads every timestamp, then the axis limits read
  every coordinate.
\<close>

fun generate_comprehensive_time_samples :: "flight list \<Rightarrow> py_error + real list" where
  "generate_comprehensive_time_samples [] = Inr []"
| "generate_comprehensive_time_samples (drone # all_drones) =
     (case column ''timestamp'' (waypoints drone) of Inl err \<Rightarrow> Inl err | Inr ts \<Rightarrow>
      case generate_comprehensive_time_samples all_drones of
        Inl err \<Rightarrow> Inl err | Inr all_times \<Rightarrow> Inr (ts @ all_times))"

fun axis_limits :: "flight list \<Rightarrow> py_error + unit" where
  "axis_limits [] = Inr ()"
| "axis_limits (drone # all_drones) =
     (case column ''x'' (waypoints drone) of Inl err \<Rightarrow> Inl err | Inr xs \<Rightarrow>
      case column ''y'' (waypoints drone) of Inl err \<Rightarrow> Inl err | Inr ys \<Rightarrow>
      case column ''z'' (waypoints drone) of Inl err \<Rightarrow> Inl err | Inr zs \<Rightarrow>
        axis_limits all_drones)"

definition animate_3d_trajectories :: "flight \<Rightarrow> flight list \<Rightarrow> conflict_data list \<Rightarrow> py_error + unit" where
  "animate_3d_trajectories primary_path flight_data conflicts =
     (let all_drones = primary_path # flight_data in
      case generate_comprehensive_time_samples all_drones of Inl err \<Rightarrow> Inl err | Inr time_samples \<Rightarrow>
        axis_limits all_drones)"

subsection \<open>The controller\<close>

text \<open>
  analyze_flight_data on the loaded data. \<open>Inr None\<close> is the early \<open>return\<close> after
  "Invalid primary drone waypoint data"; \<open>Inr (Some conflicts)\<close> is the returned list,
  after the three calls of the visualizer. print_conflict_summary formats fields that
  every record has and is left out.
\<close>

definition analyze_flight_data ::
  "flight_analyzer \<Rightarrow> flight list \<Rightarrow> flight \<Rightarrow> py_error + conflict_data list option" where
  "analyze_flight_data self flight_data primary_path =
     (if \<not> validate_waypoint_data (waypoints primary_path) then Inr None
      else (case detect_all_conflicts (detector self) primary_path flight_data of
              Inl err \<Rightarrow> Inl err
            | Inr conflicts \<Rightarrow>
                (case visualize_conflict_3d primary_path flight_data conflicts of
                   Inl err \<Rightarrow> Inl err | Inr _ \<Rightarrow>
                 case visualize_position_over_time primary_path flight_data of
                   Inl err \<Rightarrow> Inl err | Inr _ \<Rightarrow>
                 case animate_3d_trajectories primary_path flight_data conflicts of
                   Inl err \<Rightarrow> Inl err | Inr _ \<Rightarrow> Inr (Some conflicts))))"

section \<open>Auxiliary notions for the statements\<close>

text \<open>
  The Euclidean distance of two points, the clamped projection parameter and point that
  \<open>point_to_seg_closest\<close> computes (read without the error plumbing), the four endpoint
  candidates in the order of the two loops, and the selection that the loops perform.
\<close>

definition seg_param :: "real \<Rightarrow> vec \<Rightarrow> vec \<Rightarrow> vec \<Rightarrow> real" where
  "seg_param eps A B X =
     clamp (if dot (sub B A) (sub B A) > eps
            then dot (sub X A) (sub B A) / dot (sub B A) (sub B A) else 0)"

definition seg_point :: "real \<Rightarrow> vec \<Rightarrow> vec \<Rightarrow> vec \<Rightarrow> vec" where
  "seg_point eps A B X = add A (scale (sub B A) (seg_param eps A B X))"

definition vdist :: "vec \<Rightarrow> vec \<Rightarrow> real" where
  "vdist p q = sqrt (dot (sub p q) (sub p q))"

definition pick :: "best \<Rightarrow> (real \<times> (vec \<times> real \<times> vec \<times> real)) list \<Rightarrow> best" where
  "pick b cs = fold (\<lambda>c b. if lt_best (fst c) b then Some c else b) cs b"

definition cand_P :: "real \<Rightarrow> vec \<Rightarrow> vec \<Rightarrow> nat \<times> vec \<Rightarrow> real \<times> (vec \<times> real \<times> vec \<times> real)" where
  "cand_P eps Q1 Q2 iP =
     (vdist (snd iP) (seg_point eps Q1 Q2 (snd iP)),
      (snd iP, real (fst iP), seg_point eps Q1 Q2 (snd iP), seg_param eps Q1 Q2 (snd iP)))"

definition cand_Q :: "real \<Rightarrow> vec \<Rightarrow> vec \<Rightarrow> nat \<times> vec \<Rightarrow> real \<times> (vec \<times> real \<times> vec \<times> real)" where
  "cand_Q eps P1 P2 iQ =
     (vdist (seg_point eps P1 P2 (snd iQ)) (snd iQ),
      (seg_point eps P1 P2 (snd iQ), seg_param eps P1 P2 (snd iQ), snd iQ, real (fst iQ)))"

definition endpoint_candidates ::
  "real \<Rightarrow> vec \<Rightarrow> vec \<Rightarrow> vec \<Rightarrow> vec \<Rightarrow> (real \<times> (vec \<times> real \<times> vec \<times> real)) list" where
  "endpoint_candidates eps P1 P2 Q1 Q2 =
     [(vdist P1 (seg_point eps Q1 Q2 P1), (P1, 0, seg_point eps Q1 Q2 P1, seg_param eps Q1 Q2 P1)),
      (vdist P2 (seg_point eps Q1 Q2 P2), (P2, 1, seg_point eps Q1 Q2 P2, seg_param eps Q1 Q2 P2)),
      (vdist (seg_point eps P1 P2 Q1) Q1, (seg_point eps P1 P2 Q1, seg_param eps P1 P2 Q1, Q1, 0)),
      (vdist (seg_point eps P1 P2 Q2) Q2, (seg_point eps P1 P2 Q2, seg_param eps P1 P2 Q2, Q2, 1))]"

definition result_of ::
  "real \<Rightarrow> real \<Rightarrow> real \<Rightarrow> real \<Rightarrow> real \<times> (vec \<times> real \<times> vec \<times> real)
     \<Rightarrow> vec \<times> vec \<times> real \<times> (real \<times> real)" where
  "result_of tp1 tp2 tq1 tq2 c =
     (case c of (d, (P, ps, Q, pt)) \<Rightarrow> (P, Q, d, time_calculations tp1 tp2 ps tq1 tq2 pt))"

text \<open>
  For the aggregator: a waypoint with its four fields, the segments of a path against a
  reference time as \<open>zip(waypoints[:-1], waypoints[1:])\<close>, the reference epoch of two
  paths, the record of a pair, and the records of two paths as the comprehension over the
  cross product of their segments. \<open>mk_waypoint\<close> builds the waypoints of the examples.
\<close>

definition complete :: "waypoint \<Rightarrow> bool" where
  "complete wp = (wp ''x'' \<noteq> None \<and> wp ''y'' \<noteq> None \<and> wp ''z'' \<noteq> None \<and> wp ''timestamp'' \<noteq> None)"

definition timestamp_of :: "waypoint \<Rightarrow> real" where
  "timestamp_of wp = the (wp ''timestamp'')"

definition point_of :: "real \<Rightarrow> waypoint \<Rightarrow> vec" where
  "point_of ref wp = [the (wp ''x''), the (wp ''y''), the (wp ''z''), timestamp_of wp - ref]"

definition segments_of :: "real \<Rightarrow> waypoint list \<Rightarrow> (vec \<times> vec) list" where
  "segments_of ref wps =
     map (\<lambda>(w1, w2). (point_of ref w1, point_of ref w2)) (zip (butlast wps) (tl wps))"

definition reference_epoch :: "waypoint list \<Rightarrow> waypoint list \<Rightarrow> real" where
  "reference_epoch pw ow = Min (set (map timestamp_of (pw @ ow)))"

definition expected_record ::
  "string \<Rightarrow> real \<Rightarrow> vec \<times> vec \<times> real \<times> (real \<times> real) \<Rightarrow> nat \<Rightarrow> nat \<Rightarrow> nat \<Rightarrow> conflict_data" where
  "expected_record other_id ref res level i j =
     (case res of (cP, cQ, d, (t1, t2)) \<Rightarrow>
        \<lparr>with_drone = other_id, min_distance = d,
         location_primary = Some cP, location_other = Some cQ,
         timestamp_primary = ref + t1, timestamp_other = ref + t2,
         time_difference = \<bar>t2 - t1\<bar>,
         spatial_conflict = True, temporal_conflict = (level = 2),
         conflict_type = (if level = 2 then ''SPATIOTEMPORAL'' else ''SPATIAL''),
         primary_segment = i, other_segment = j\<rparr>)"

definition pair_conflicts ::
  "spatial_analyzer \<Rightarrow> string \<Rightarrow> real \<Rightarrow> nat \<Rightarrow> vec \<times> vec \<Rightarrow> nat \<Rightarrow> vec \<times> vec \<Rightarrow> conflict_data list" where
  "pair_conflicts self other_id ref i p j q =
     (case closest_points_on_segments_in_3D default_eps (fst p) (snd p) (fst q) (snd q) of
        Inl err \<Rightarrow> []
      | Inr res \<Rightarrow>
          (if fst (check_for_conflicts self res) \<noteq> 0
           then [expected_record other_id ref res (fst (check_for_conflicts self res)) i j]
           else []))"

definition expected_conflicts ::
  "spatial_analyzer \<Rightarrow> waypoint list \<Rightarrow> waypoint list \<Rightarrow> string \<Rightarrow> conflict_data list" where
  "expected_conflicts self pw ow other_id =
     (let ref = reference_epoch pw ow; ps = segments_of ref pw; qs = segments_of ref ow
      in concat (map (\<lambda>i. concat (map (\<lambda>j. pair_conflicts self other_id ref i (ps ! i) j (qs ! j))
                                      [0..<length qs]))
                     [0..<length ps]))"

definition mk_waypoint :: "real \<Rightarrow> real \<Rightarrow> real \<Rightarrow> real \<Rightarrow> waypoint" where
  "mk_waypoint x y z ts = [''x'' \<mapsto> x, ''y'' \<mapsto> y, ''z'' \<mapsto> z, ''timestamp'' \<mapsto> ts]"

definition consistent :: "conflict_data \<Rightarrow> bool" where
  "consistent r = (case (location_primary r, location_other r) of
      (Some p, Some q) \<Rightarrow> min_distance r = vdist p q | _ \<Rightarrow> False)"

text \<open>
  For the symmetry of the solver: a candidate and a result with the roles of the two
  segments exchanged; the squared distance of the points at parameters \<open>s\<close> and \<open>t\<close> as
  a quadratic form in the scalar products of the solver, its homogeneous part, and the
  boundary of the unit square of parameters.
\<close>

definition swap_candidate :: "real \<times> (vec \<times> real \<times> vec \<times> real) \<Rightarrow> real \<times> (vec \<times> real \<times> vec \<times> real)" where
  "swap_candidate c = (case c of (d, (P, ps, Q, pt)) \<Rightarrow> (d, (Q, pt, P, ps)))"

definition swap_result :: "vec \<times> vec \<times> real \<times> (real \<times> real) \<Rightarrow> vec \<times> vec \<times> real \<times> (real \<times> real)" where
  "swap_result r = (case r of (Pc, Qc, d, (t1, t2)) \<Rightarrow> (Qc, Pc, d, (t2, t1)))"

definition quad :: "real \<Rightarrow> real \<Rightarrow> real \<Rightarrow> real \<Rightarrow> real \<Rightarrow> real \<Rightarrow> real \<Rightarrow> real \<Rightarrow> real" where
  "quad a b c d e g s t = a * s * s - 2 * b * s * t + c * t * t - 2 * d * s + 2 * e * t + g"

definition on_boundary :: "real \<Rightarrow> real \<Rightarrow> bool" where
  "on_boundary s t = (0 \<le> s \<and> s \<le> 1 \<and> 0 \<le> t \<and> t \<le> 1 \<and> (s = 0 \<or> s = 1 \<or> t = 0 \<or> t = 1))"

definition qf :: "real \<Rightarrow> real \<Rightarrow> real \<Rightarrow> real \<Rightarrow> real \<Rightarrow> real" where
  "qf a b c x y = a * x * x - 2 * b * x * y + c * y * y"

section \<open>The classifier\<close>

text \<open>
  C2: the level is 0 exactly when the distance is at least the safety threshold, 1 exactly
  when the distance is below it and the time difference is at least the safety time, and 2
  exactly when both are strictly below; the safety threshold is three times the configured
  drone radius.
\<close>

theorem check_for_conflicts_levels:
  "safety_threshold (SpatialAnalyzer r st step) = 3 * r \<and>
   (fst (check_for_conflicts (SpatialAnalyzer r st step) (cp, cq, d, (t1, t2))) = 0
      \<longleftrightarrow> d \<ge> 3 * r) \<and>
   (fst (check_for_conflicts (SpatialAnalyzer r st step) (cp, cq, d, (t1, t2))) = 1
      \<longleftrightarrow> d < 3 * r \<and> \<bar>t2 - t1\<bar> \<ge> st) \<and>
   (fst (check_for_conflicts (SpatialAnalyzer r st step) (cp, cq, d, (t1, t2))) = 2
      \<longleftrightarrow> d < 3 * r \<and> \<bar>t2 - t1\<bar> < st)"
  by (auto simp: check_for_conflicts_def SpatialAnalyzer_def)

section \<open>The solver\<close>

lemma dot_self: "dot a a = (\<Sum>x\<leftarrow>a. x * x)"
  unfolding dot_def by (induction a) auto

lemma dot_self_nonneg: "0 \<le> dot a a"
  unfolding dot_self by (rule sum_list_nonneg) auto

lemma norm_vec_eq: "norm_vec a = Inr (sqrt (dot a a))"
  using dot_self_nonneg [of a] by (simp add: norm_vec_def py_sqrt_def)

lemma norm_vec_sub: "norm_vec (sub p q) = Inr (vdist p q)"
  by (simp add: norm_vec_eq vdist_def)

lemma point_to_seg_closest_eq:
  "0 \<le> eps \<Longrightarrow> point_to_seg_closest eps A B X = Inr (seg_point eps A B X, seg_param eps A B X)"
  by (auto simp: point_to_seg_closest_def seg_point_def seg_param_def py_div_def Let_def)

lemma clamp_range: "0 \<le> clamp x" "clamp x \<le> 1"
  by (auto simp: clamp_def)

lemma clamp_id: "0 \<le> x \<Longrightarrow> x \<le> 1 \<Longrightarrow> clamp x = x"
  by (auto simp: clamp_def)

lemma seg_param_range: "0 \<le> seg_param eps A B X" "seg_param eps A B X \<le> 1"
  by (simp_all add: seg_param_def clamp_range)

lemma line_parameters_total:
  "0 \<le> eps \<Longrightarrow> \<exists>s t. line_parameters eps P1 P2 Q1 Q2 = Inr (s, t)"
  by (auto simp: line_parameters_def py_div_def Let_def)

lemma lt_best_simps: "lt_best d None" "lt_best d (Some c) = (d < fst c)"
  by (simp_all add: lt_best_def split: prod.splits)

lemma pick_Nil: "pick b [] = b"
  by (simp add: pick_def)

lemma pick_Cons: "pick b (c # cs) = pick (if lt_best (fst c) b then Some c else b) cs"
  by (simp add: pick_def)

lemma pick_append: "pick b (cs @ ds) = pick (pick b cs) ds"
  by (simp add: pick_def)

lemma loop_P_pick:
  "0 \<le> eps \<Longrightarrow> loop_P eps Q1 Q2 Ps n b = Inr (pick b (map (cand_P eps Q1 Q2) (enumerate n Ps)))"
proof (induction Ps arbitrary: n b)
  case Nil
  then show ?case by (simp add: pick_Nil)
next
  case (Cons P Ps)
  show ?case
    using Cons.prems
    by (simp add: point_to_seg_closest_eq norm_vec_sub Cons.IH [OF Cons.prems] pick_Cons cand_P_def)
qed

lemma loop_Q_pick:
  "0 \<le> eps \<Longrightarrow> loop_Q eps P1 P2 Qs n b = Inr (pick b (map (cand_Q eps P1 P2) (enumerate n Qs)))"
proof (induction Qs arbitrary: n b)
  case Nil
  then show ?case by (simp add: pick_Nil)
next
  case (Cons Q Qs)
  show ?case
    using Cons.prems
    by (simp add: point_to_seg_closest_eq norm_vec_sub Cons.IH [OF Cons.prems] pick_Cons cand_Q_def)
qed

lemma pick_first_min:
  "cs \<noteq> [] \<Longrightarrow> \<exists>i<length cs. pick None cs = Some (cs ! i) \<and>
      (\<forall>j<length cs. fst (cs ! i) \<le> fst (cs ! j)) \<and> (\<forall>j<i. fst (cs ! i) < fst (cs ! j))"
proof (induction cs rule: rev_induct)
  case Nil
  then show ?case by simp
next
  case (snoc c cs)
  show ?case
  proof (cases "cs = []")
    case True
    then show ?thesis by (simp add: pick_Cons pick_Nil lt_best_simps)
  next
    case False
    from snoc.IH [OF False] obtain i where i: "i < length cs" "pick None cs = Some (cs ! i)"
      "\<forall>j<length cs. fst (cs ! i) \<le> fst (cs ! j)" "\<forall>j<i. fst (cs ! i) < fst (cs ! j)"
      by blast
    show ?thesis
    proof (cases "fst c < fst (cs ! i)")
      case True
      have p: "pick None (cs @ [c]) = Some c"
        using True i(2) by (simp add: pick_append pick_Cons pick_Nil lt_best_simps)
      have "\<forall>j<length (cs @ [c]). fst c \<le> fst ((cs @ [c]) ! j)"
        using True i(3) by (auto simp: nth_append less_Suc_eq)
      moreover have "\<forall>j<length cs. fst c < fst ((cs @ [c]) ! j)"
        using True i(3) by (auto simp: nth_append)
      ultimately show ?thesis
        using p by (intro exI [of _ "length cs"]) (simp add: nth_append)
    next
      case False
      have p: "pick None (cs @ [c]) = Some (cs ! i)"
        using False i(2) by (simp add: pick_append pick_Cons pick_Nil lt_best_simps)
      have "\<forall>j<length (cs @ [c]). fst (cs ! i) \<le> fst ((cs @ [c]) ! j)"
        using False i(3) by (auto simp: nth_append less_Suc_eq)
      moreover have "\<forall>j<i. fst (cs ! i) < fst ((cs @ [c]) ! j)"
        using i(1,4) by (auto simp: nth_append)
      ultimately show ?thesis
        using p i(1) by (intro exI [of _ i]) (simp add: nth_append)
    qed
  qed
qed

lemma endpoint_fallback_eq:
  assumes "0 \<le> eps"
  shows "endpoint_fallback eps P1 P2 Q1 Q2 tp1 tp2 tq1 tq2 =
     (case pick None (endpoint_candidates eps P1 P2 Q1 Q2) of
        None \<Rightarrow> Inl TypeError
      | Some c \<Rightarrow> Inr (result_of tp1 tp2 tq1 tq2 c))"
proof -
  have e1: "enumerate 0 [P1, P2] = [(0, P1), (1, P2)]" for P1 P2 :: vec
    by simp
  have cs: "endpoint_candidates eps P1 P2 Q1 Q2 =
      map (cand_P eps Q1 Q2) (enumerate 0 [P1, P2]) @ map (cand_Q eps P1 P2) (enumerate 0 [Q1, Q2])"
    unfolding e1 by (simp add: endpoint_candidates_def cand_P_def cand_Q_def)
  show ?thesis
    unfolding endpoint_fallback_def loop_P_pick [OF assms] loop_Q_pick [OF assms] cs pick_append
    by (simp add: result_of_def split: option.splits prod.splits)
qed

lemma closest_points_eq:
  assumes "0 \<le> eps" "4 \<le> length A1" "4 \<le> length A2" "4 \<le> length B1" "4 \<le> length B2"
    and lp: "line_parameters eps (take 3 A1) (take 3 A2) (take 3 B1) (take 3 B2) = Inr (s, t)"
  shows "closest_points_on_segments_in_3D eps A1 A2 B1 B2 =
     (if 0 \<le> s \<and> s \<le> 1 \<and> 0 \<le> t \<and> t \<le> 1 then
        Inr (add (take 3 A1) (scale (sub (take 3 A2) (take 3 A1)) s),
             add (take 3 B1) (scale (sub (take 3 B2) (take 3 B1)) t),
             vdist (add (take 3 A1) (scale (sub (take 3 A2) (take 3 A1)) s))
                   (add (take 3 B1) (scale (sub (take 3 B2) (take 3 B1)) t)),
             time_calculations (A1 ! 3) (A2 ! 3) s (B1 ! 3) (B2 ! 3) t)
      else
        (case pick None (endpoint_candidates eps (take 3 A1) (take 3 A2) (take 3 B1) (take 3 B2)) of
           None \<Rightarrow> Inl TypeError
         | Some c \<Rightarrow> Inr (result_of (A1 ! 3) (A2 ! 3) (B1 ! 3) (B2 ! 3) c)))"
  using assms(2-5)
  by (simp add: closest_points_on_segments_in_3D_def py_index_def lp Let_def norm_vec_sub
      endpoint_fallback_eq [OF assms(1)] clamp_id)

lemma between:
  fixes a b s :: real
  assumes "0 \<le> s" "s \<le> 1"
  shows "min a b \<le> (b - a) * s + a \<and> (b - a) * s + a \<le> max a b"
proof -
  have eq: "(b - a) * s + a = (1 - s) * a + s * b"
    by (simp add: algebra_simps)
  have "(1 - s) * min a b \<le> (1 - s) * a" "s * min a b \<le> s * b"
    using assms by (auto intro!: mult_left_mono)
  then have "(1 - s) * min a b + s * min a b \<le> (1 - s) * a + s * b"
    by linarith
  then have lo: "min a b \<le> (1 - s) * a + s * b"
    by (simp add: algebra_simps)
  have "(1 - s) * a \<le> (1 - s) * max a b" "s * b \<le> s * max a b"
    using assms by (auto intro!: mult_left_mono)
  then have "(1 - s) * a + s * b \<le> (1 - s) * max a b + s * max a b"
    by linarith
  then have hi: "(1 - s) * a + s * b \<le> max a b"
    by (simp add: algebra_simps)
  show ?thesis
    unfolding eq using lo hi by simp
qed

lemma add_scale_sub_0: "length a = length b \<Longrightarrow> add a (scale (sub b a) 0) = a"
  by (induction a b rule: list_induct2) (simp_all add: add_def scale_def sub_def)

lemma add_scale_sub_1: "length a = length b \<Longrightarrow> add a (scale (sub b a) 1) = b"
  by (induction a b rule: list_induct2) (simp_all add: add_def scale_def sub_def)

lemma pick_endpoint_candidates:
  "\<exists>i<4. pick None (endpoint_candidates eps P1 P2 Q1 Q2) = Some (endpoint_candidates eps P1 P2 Q1 Q2 ! i) \<and>
      (\<forall>j<4. fst (endpoint_candidates eps P1 P2 Q1 Q2 ! i) \<le> fst (endpoint_candidates eps P1 P2 Q1 Q2 ! j)) \<and>
      (\<forall>j<i. fst (endpoint_candidates eps P1 P2 Q1 Q2 ! i) < fst (endpoint_candidates eps P1 P2 Q1 Q2 ! j))"
proof -
  have "endpoint_candidates eps P1 P2 Q1 Q2 \<noteq> []" "length (endpoint_candidates eps P1 P2 Q1 Q2) = 4"
    by (simp_all add: endpoint_candidates_def)
  then show ?thesis
    using pick_first_min [of "endpoint_candidates eps P1 P2 Q1 Q2"] by simp
qed

lemma candidate_on_segments:
  assumes "length P1 = length P2" "length Q1 = length Q2" "i < 4"
    and "endpoint_candidates eps P1 P2 Q1 Q2 ! i = (d, (P, ps, Q, pt))"
  shows "0 \<le> ps \<and> ps \<le> 1 \<and> 0 \<le> pt \<and> pt \<le> 1 \<and>
         P = add P1 (scale (sub P2 P1) ps) \<and> Q = add Q1 (scale (sub Q2 Q1) pt) \<and> d = vdist P Q"
proof -
  from assms(3) consider "i = 0" | "i = 1" | "i = 2" | "i = 3"
    by linarith
  then show ?thesis
    using assms(1,2,4)
    by cases (auto simp: endpoint_candidates_def seg_param_range add_scale_sub_0 add_scale_sub_1
        seg_point_def)
qed

lemma default_eps_nonneg: "0 \<le> default_eps"
  by (simp add: default_eps_def)



lemma closest_points_params:
  assumes "0 \<le> eps" "4 \<le> length A1" "4 \<le> length A2" "4 \<le> length B1" "4 \<le> length B2"
  shows "\<exists>s t. 0 \<le> s \<and> s \<le> 1 \<and> 0 \<le> t \<and> t \<le> 1 \<and>
      closest_points_on_segments_in_3D eps A1 A2 B1 B2 =
        Inr (add (take 3 A1) (scale (sub (take 3 A2) (take 3 A1)) s),
             add (take 3 B1) (scale (sub (take 3 B2) (take 3 B1)) t),
             vdist (add (take 3 A1) (scale (sub (take 3 A2) (take 3 A1)) s))
                   (add (take 3 B1) (scale (sub (take 3 B2) (take 3 B1)) t)),
             ((A2 ! 3 - A1 ! 3) * s + A1 ! 3, (B2 ! 3 - B1 ! 3) * t + B1 ! 3))"
proof -
  let ?P1 = "take 3 A1" and ?P2 = "take 3 A2" and ?Q1 = "take 3 B1" and ?Q2 = "take 3 B2"
  obtain s t where lp: "line_parameters eps ?P1 ?P2 ?Q1 ?Q2 = Inr (s, t)"
    using line_parameters_total [OF assms(1)] by blast
  note eq = closest_points_eq [OF assms lp]
  show ?thesis
  proof (cases "0 \<le> s \<and> s \<le> 1 \<and> 0 \<le> t \<and> t \<le> 1")
    case True
    then show ?thesis
      unfolding eq if_P [OF True]
      by (rule_tac x = s in exI, rule_tac x = t in exI) (simp add: time_calculations_def)
  next
    case False
    obtain i where i: "i < 4"
      "pick None (endpoint_candidates eps ?P1 ?P2 ?Q1 ?Q2) = Some (endpoint_candidates eps ?P1 ?P2 ?Q1 ?Q2 ! i)"
      using pick_endpoint_candidates by blast
    obtain d P ps Q pt where c: "endpoint_candidates eps ?P1 ?P2 ?Q1 ?Q2 ! i = (d, (P, ps, Q, pt))"
      by (metis prod_cases5)
    have len: "length ?P1 = length ?P2" "length ?Q1 = length ?Q2"
      using assms(2-5) by simp_all
    from candidate_on_segments [OF len i(1) c]
    have on: "0 \<le> ps" "ps \<le> 1" "0 \<le> pt" "pt \<le> 1" "P = add ?P1 (scale (sub ?P2 ?P1) ps)"
      "Q = add ?Q1 (scale (sub ?Q2 ?Q1) pt)" "d = vdist P Q"
      by simp_all
    show ?thesis
      unfolding eq if_not_P [OF False] using i(2) c on
      by (rule_tac x = ps in exI, rule_tac x = pt in exI) (simp add: result_of_def time_calculations_def)
  qed
qed

text \<open>
  C4: the two returned points are an endpoint plus a parameter in [0,1] times the segment
  direction, in the direct branch and after the endpoint fallback alike, and each mapped
  time is the same interpolation of the segment's two times, hence between them.
\<close>

theorem closest_points_containment:
  assumes "0 \<le> eps" "4 \<le> length A1" "4 \<le> length A2" "4 \<le> length B1" "4 \<le> length B2"
  shows "\<exists>Pc Qc d t1 t2 s t.
      closest_points_on_segments_in_3D eps A1 A2 B1 B2 = Inr (Pc, Qc, d, (t1, t2)) \<and>
      0 \<le> s \<and> s \<le> 1 \<and> 0 \<le> t \<and> t \<le> 1 \<and>
      Pc = add (take 3 A1) (scale (sub (take 3 A2) (take 3 A1)) s) \<and>
      Qc = add (take 3 B1) (scale (sub (take 3 B2) (take 3 B1)) t) \<and>
      t1 = (A2 ! 3 - A1 ! 3) * s + A1 ! 3 \<and>
      t2 = (B2 ! 3 - B1 ! 3) * t + B1 ! 3 \<and>
      min (A1 ! 3) (A2 ! 3) \<le> t1 \<and> t1 \<le> max (A1 ! 3) (A2 ! 3) \<and>
      min (B1 ! 3) (B2 ! 3) \<le> t2 \<and> t2 \<le> max (B1 ! 3) (B2 ! 3)"
proof -
  from closest_points_params [OF assms] obtain s t where
    st: "0 \<le> s" "s \<le> 1" "0 \<le> t" "t \<le> 1" and
    r: "closest_points_on_segments_in_3D eps A1 A2 B1 B2 =
        Inr (add (take 3 A1) (scale (sub (take 3 A2) (take 3 A1)) s),
             add (take 3 B1) (scale (sub (take 3 B2) (take 3 B1)) t),
             vdist (add (take 3 A1) (scale (sub (take 3 A2) (take 3 A1)) s))
                   (add (take 3 B1) (scale (sub (take 3 B2) (take 3 B1)) t)),
             ((A2 ! 3 - A1 ! 3) * s + A1 ! 3, (B2 ! 3 - B1 ! 3) * t + B1 ! 3))"
    by blast
  show ?thesis
    using r st between [OF st(1,2), of "A1 ! 3" "A2 ! 3"] between [OF st(3,4), of "B1 ! 3" "B2 ! 3"]
    by blast
qed

theorem closest_points_containment_witness:
  "\<exists>Pc Qc d t1 t2 s t.
      closest_points_on_segments_in_3D default_eps [0, 0, 0, 0] [1, 0, 0, 5] [1, 1, 0, 2] [3, 1, 0, 6]
        = Inr (Pc, Qc, d, (t1, t2)) \<and>
      0 \<le> s \<and> s \<le> 1 \<and> 0 \<le> t \<and> t \<le> 1 \<and>
      Pc = add [0, 0, 0] (scale (sub [1, 0, 0] [0, 0, 0]) s) \<and>
      Qc = add [1, 1, 0] (scale (sub [3, 1, 0] [1, 1, 0]) t) \<and>
      t1 = (5 - 0) * s + 0 \<and> t2 = (6 - 2) * t + 2 \<and>
      0 \<le> t1 \<and> t1 \<le> 5 \<and> 2 \<le> t2 \<and> t2 \<le> 6"
  using closest_points_containment [of default_eps "[0, 0, 0, 0]" "[1, 0, 0, 5]" "[1, 1, 0, 2]" "[3, 1, 0, 6]"]
  by (simp add: default_eps_def)

lemma closest_points_distance:
  assumes "0 \<le> eps"
    and "closest_points_on_segments_in_3D eps A1 A2 B1 B2 = Inr (Pc, Qc, d, ts)"
  shows "d = vdist Pc Qc"
proof -
  have len: "4 \<le> length A1" "4 \<le> length A2" "4 \<le> length B1" "4 \<le> length B2"
    using assms(2)
    by (auto simp: closest_points_on_segments_in_3D_def py_index_def Let_def split: if_splits)
  let ?P1 = "take 3 A1" and ?P2 = "take 3 A2" and ?Q1 = "take 3 B1" and ?Q2 = "take 3 B2"
  obtain s t where lp: "line_parameters eps ?P1 ?P2 ?Q1 ?Q2 = Inr (s, t)"
    using line_parameters_total [OF assms(1)] by blast
  note eq = closest_points_eq [OF assms(1) len lp]
  show ?thesis
  proof (cases "0 \<le> s \<and> s \<le> 1 \<and> 0 \<le> t \<and> t \<le> 1")
    case True
    then show ?thesis
      using assms(2) unfolding eq by auto
  next
    case False
    obtain i where i: "i < 4"
      "pick None (endpoint_candidates eps ?P1 ?P2 ?Q1 ?Q2) = Some (endpoint_candidates eps ?P1 ?P2 ?Q1 ?Q2 ! i)"
      using pick_endpoint_candidates by blast
    obtain d' P ps Q pt where c: "endpoint_candidates eps ?P1 ?P2 ?Q1 ?Q2 ! i = (d', (P, ps, Q, pt))"
      by (metis prod_cases5)
    have lens: "length ?P1 = length ?P2" "length ?Q1 = length ?Q2"
      using len by simp_all
    from candidate_on_segments [OF lens i(1) c] have "d' = vdist P Q"
      by simp
    then show ?thesis
      using assms(2) False i(2) c unfolding eq by (auto simp: result_of_def)
  qed
qed

lemma all_timestamps_eq:
  "\<forall>wp\<in>set wps. wp ''timestamp'' \<noteq> None \<Longrightarrow>
   all_timestamps wps acc = Inr (acc @ map timestamp_of wps)"
  by (induction wps arbitrary: acc) (auto simp: py_getitem_def timestamp_of_def)

lemma py_min_eq: "xs \<noteq> [] \<Longrightarrow> py_min xs = Inr (Min (set xs))"
proof (cases xs)
  case Nil
  assume "xs \<noteq> []"
  with Nil show ?thesis by simp
next
  case (Cons x ys)
  have "Min (set (x # ys)) = fold min ys x"
    by (rule Min.set_eq_fold)
  then show ?thesis
    unfolding Cons by (simp add: py_min_def)
qed

lemma segment_point_eq: "complete wp \<Longrightarrow> segment_point ref wp = Inr (point_of ref wp)"
  by (auto simp: segment_point_def complete_def py_getitem_def point_of_def timestamp_of_def
      convert_timestamp_to_seconds_def)

lemma segments_of_simps:
  "segments_of ref [] = []" "segments_of ref [w] = []"
  "segments_of ref (w1 # w2 # ws) = (point_of ref w1, point_of ref w2) # segments_of ref (w2 # ws)"
  by (simp_all add: segments_of_def)

lemma convert_waypoints_to_segments_eq:
  "\<forall>wp\<in>set wps. complete wp \<Longrightarrow>
   convert_waypoints_to_segments ref wps acc = Inr (acc @ segments_of ref wps)"
  by (induction ref wps acc rule: convert_waypoints_to_segments.induct)
     (simp_all add: segment_point_eq segments_of_simps)

lemma convert_short:
  "length wps < 2 \<Longrightarrow> convert_waypoints_to_segments ref wps acc = Inr acc"
  by (induction ref wps acc rule: convert_waypoints_to_segments.induct) simp_all

lemma segments_of_length4:
  "q \<in> set (segments_of ref wps) \<Longrightarrow> length (fst q) = 4 \<and> length (snd q) = 4"
  by (auto simp: segments_of_def point_of_def)

lemma closest_points_Inr:
  assumes "0 \<le> eps" "4 \<le> length A1" "4 \<le> length A2" "4 \<le> length B1" "4 \<le> length B2"
  shows "\<exists>res. closest_points_on_segments_in_3D eps A1 A2 B1 B2 = Inr res"
  using closest_points_params [OF assms] by blast

lemma check_for_conflicts_pos:
  "0 < fst (check_for_conflicts self (cP, cQ, d, (t1, t2))) \<Longrightarrow>
   check_for_conflicts self (cP, cQ, d, (t1, t2)) =
     (fst (check_for_conflicts self (cP, cQ, d, (t1, t2))), Some cP, Some cQ, Some t1, Some t2) \<and>
   (fst (check_for_conflicts self (cP, cQ, d, (t1, t2))) = 1 \<or>
    fst (check_for_conflicts self (cP, cQ, d, (t1, t2))) = 2)"
  by (auto simp: check_for_conflicts_def Let_def split: if_splits)

lemma conflict_record_eq:
  assumes "0 < fst (check_for_conflicts self res)"
  shows "conflict_record other_id ref res (check_for_conflicts self res) i j =
     Inr (expected_record other_id ref res (fst (check_for_conflicts self res)) i j)"
proof -
  obtain cP cQ d t1 t2 where res: "res = (cP, cQ, d, (t1, t2))"
    by (metis prod_cases5)
  from check_for_conflicts_pos [OF assms [unfolded res]] show ?thesis
    unfolding res
    by (cases "check_for_conflicts self (cP, cQ, d, t1, t2)")
       (auto simp: conflict_record_def expected_record_def)
qed

lemma inner_loop_eq:
  assumes "length (fst p) = 4" "length (snd p) = 4"
    and "\<forall>q\<in>set qs. length (fst q) = 4 \<and> length (snd q) = 4"
  shows "inner_loop self other_id ref i p j qs acc =
     Inr (acc @ concat (map (\<lambda>jq. pair_conflicts self other_id ref i p (fst jq) (snd jq)) (enumerate j qs)))"
  using assms(3)
proof (induction qs arbitrary: j acc)
  case Nil
  then show ?case by simp
next
  case (Cons q qs)
  then have q: "4 \<le> length (fst q)" "4 \<le> length (snd q)"
    by simp_all
  have p: "4 \<le> length (fst p)" "4 \<le> length (snd p)"
    using assms(1,2) by simp_all
  obtain res where res: "closest_points_on_segments_in_3D default_eps (fst p) (snd p) (fst q) (snd q) = Inr res"
    using closest_points_Inr [OF default_eps_nonneg p q] by blast
  have IH: "inner_loop self other_id ref i p (Suc j) qs acc' =
     Inr (acc' @ concat (map (\<lambda>jq. pair_conflicts self other_id ref i p (fst jq) (snd jq)) (enumerate (Suc j) qs)))"
    for acc'
    using Cons.IH Cons.prems by simp
  show ?case
    by (simp add: res IH conflict_record_eq pair_conflicts_def)
qed

lemma outer_loop_eq:
  assumes "\<forall>p\<in>set ps. length (fst p) = 4 \<and> length (snd p) = 4"
    and "\<forall>q\<in>set qs. length (fst q) = 4 \<and> length (snd q) = 4"
  shows "outer_loop self other_id ref i ps qs acc =
     Inr (acc @ concat (map (\<lambda>ip. concat (map (\<lambda>jq. pair_conflicts self other_id ref (fst ip) (snd ip) (fst jq) (snd jq))
                                              (enumerate 0 qs)))
                            (enumerate i ps)))"
  using assms(1)
proof (induction ps arbitrary: i acc)
  case Nil
  then show ?case by simp
next
  case (Cons p ps)
  then have p: "length (fst p) = 4" "length (snd p) = 4"
    by simp_all
  show ?case
    using Cons.IH Cons.prems by (simp add: inner_loop_eq [OF p assms(2)])
qed

lemma map_enumerate_nth:
  "map f (enumerate 0 xs) = map (\<lambda>i. f (i, xs ! i)) [0..<length xs]"
  by (rule nth_equalityI) (simp_all add: nth_enumerate_eq)

lemma get_reference_time_eq:
  assumes "\<forall>wp\<in>set pw. complete wp" "\<forall>wp\<in>set ow. complete wp" "pw @ ow \<noteq> []"
  shows "get_reference_time pw ow = Inr (reference_epoch pw ow)"
proof -
  have ts: "all_timestamps (pw @ ow) [] = Inr (map timestamp_of (pw @ ow))"
    using assms(1,2) by (subst all_timestamps_eq) (auto simp: complete_def)
  have mn: "py_min (map timestamp_of (pw @ ow)) = Inr (reference_epoch pw ow)"
    using assms(3) by (subst py_min_eq) (simp_all add: reference_epoch_def)
  show ?thesis
    unfolding get_reference_time_def ts by (simp add: mn [unfolded map_append])
qed

lemma check_spatial_conflicts_eq:
  assumes "\<forall>wp\<in>set pw. complete wp" "\<forall>wp\<in>set ow. complete wp" "pw @ ow \<noteq> []"
  shows "check_spatial_conflicts self pw ow other_id = Inr (expected_conflicts self pw ow other_id)"
proof -
  have len: "\<forall>p\<in>set (segments_of ref wps). length (fst p) = 4 \<and> length (snd p) = 4" for ref wps
    using segments_of_length4 by blast
  show ?thesis
    unfolding check_spatial_conflicts_def get_reference_time_eq [OF assms]
    by (simp add: convert_waypoints_to_segments_eq assms(1,2) outer_loop_eq [OF len len]
        expected_conflicts_def Let_def map_enumerate_nth)
qed

lemma detect_loop_eq:
  assumes "\<forall>wp\<in>set pw. complete wp" "\<forall>d\<in>set flights. \<forall>wp\<in>set (waypoints d). complete wp"
    and "pw \<noteq> []"
  shows "detect_loop self pw flights acc =
     Inr (acc @ concat (map (\<lambda>d. expected_conflicts (spatial_analyzer_of self) pw (waypoints d) (drone_id d)) flights))"
  using assms(2)
proof (induction flights arbitrary: acc)
  case Nil
  then show ?case by simp
next
  case (Cons d flights)
  show ?case
    using Cons.IH Cons.prems assms(1,3) by (simp add: check_spatial_conflicts_eq)
qed

lemma mk_waypoint_simps:
  "mk_waypoint x y z ts ''x'' = Some x" "mk_waypoint x y z ts ''y'' = Some y"
  "mk_waypoint x y z ts ''z'' = Some z" "mk_waypoint x y z ts ''timestamp'' = Some ts"
  by (simp_all add: mk_waypoint_def)

lemma complete_mk_waypoint: "complete (mk_waypoint x y z ts)"
  by (simp add: complete_def mk_waypoint_simps)

lemma point_of_mk_waypoint: "point_of ref (mk_waypoint x y z ts) = [x, y, z, ts - ref]"
  by (simp add: point_of_def timestamp_of_def mk_waypoint_simps)

lemma solve_crossing:
  "closest_points_on_segments_in_3D default_eps [0, 0, 0, 0] [10, 0, 0, 10] [5, - 5, 0, 0] [5, 5, 0, 10]
     = Inr ([5, 0, 0], [5, 0, 0], 0, (5, 5))"
  by (simp add: closest_points_on_segments_in_3D_def py_index_def line_parameters_def default_eps_def
      sub_def dot_def add_def scale_def py_div_def clamp_def norm_vec_def py_sqrt_def
      time_calculations_def Let_def)

lemma scenario_crossing:
  "check_spatial_conflicts (SpatialAnalyzer 5 2 1)
     [mk_waypoint 0 0 0 0, mk_waypoint 10 0 0 10] [mk_waypoint 5 (- 5) 0 0, mk_waypoint 5 5 0 10] ''d1''
   = Inr [\<lparr>with_drone = ''d1'', min_distance = 0,
           location_primary = Some [5, 0, 0], location_other = Some [5, 0, 0],
           timestamp_primary = 5, timestamp_other = 5, time_difference = 0,
           spatial_conflict = True, temporal_conflict = True,
           conflict_type = ''SPATIOTEMPORAL'', primary_segment = 0, other_segment = 0\<rparr>]"
proof -
  have ref: "reference_epoch [mk_waypoint 0 0 0 0, mk_waypoint 10 0 0 10]
      [mk_waypoint 5 (- 5) 0 0, mk_waypoint 5 5 0 10] = 0"
    by (simp add: reference_epoch_def timestamp_of_def mk_waypoint_simps)
  show ?thesis
    by (subst check_spatial_conflicts_eq)
       (simp_all add: complete_mk_waypoint expected_conflicts_def ref segments_of_simps
         point_of_mk_waypoint pair_conflicts_def solve_crossing check_for_conflicts_def
         SpatialAnalyzer_def expected_record_def Let_def)
qed

section \<open>The aggregator\<close>

lemma sqrt_less_iff_sq: "0 \<le> x \<Longrightarrow> (sqrt y < x) = (y < x * x)"
  by (metis abs_of_nonneg real_sqrt_abs2 real_sqrt_less_iff)

lemma less_sqrt_iff_sq: "0 \<le> x \<Longrightarrow> (x < sqrt y) = (x * x < y)"
  by (metis abs_of_nonneg real_sqrt_abs2 real_sqrt_less_iff)

lemmas solver_defs = closest_points_on_segments_in_3D_def py_index_def line_parameters_def default_eps_def
      endpoint_fallback_def point_to_seg_closest_def lt_best_def
      sub_def dot_def add_def scale_def py_div_def clamp_def norm_vec_def py_sqrt_def
      time_calculations_def Let_def sqrt_less_iff_sq less_sqrt_iff_sq

lemma solve_p0_q0:
  "closest_points_on_segments_in_3D default_eps [0, 0, 0, 10] [10, 0, 0, 20] [3, - 5, 0, 0] [3, 5, 0, 10]
     = Inr ([3, 0, 0], [3, 0, 0], 0, (13, 5))"
  by (simp add: solver_defs)

lemma solve_p0_q1:
  "closest_points_on_segments_in_3D default_eps [0, 0, 0, 10] [10, 0, 0, 20] [3, 5, 0, 10] [7, 5, 0, 14]
     = Inr ([0, 0, 0], [6, 5, 0], sqrt 61, (10, 13))"
  by (simp add: solver_defs)

lemma solve_p0_q2:
  "closest_points_on_segments_in_3D default_eps [0, 0, 0, 10] [10, 0, 0, 20] [7, 5, 0, 14] [7, - 5, 0, 24]
     = Inr ([7, 0, 0], [7, 0, 0], 0, (17, 19))"
  by (simp add: solver_defs)

lemma solve_p1_q0:
  "closest_points_on_segments_in_3D default_eps [10, 0, 0, 20] [10, 10, 0, 30] [3, - 5, 0, 0] [3, 5, 0, 10]
     = Inr ([10, 0, 0], [3, 0, 0], sqrt 49, (20, 5))"
  by (simp add: solver_defs)

lemma solve_p1_q1:
  "closest_points_on_segments_in_3D default_eps [10, 0, 0, 20] [10, 10, 0, 30] [3, 5, 0, 10] [7, 5, 0, 14]
     = Inr ([10, 5, 0], [7, 5, 0], sqrt 9, (25, 14))"
  by (simp add: solver_defs)

lemma solve_p1_q2:
  "closest_points_on_segments_in_3D default_eps [10, 0, 0, 20] [10, 10, 0, 30] [7, 5, 0, 14] [7, - 5, 0, 24]
     = Inr ([10, 0, 0], [7, 0, 0], sqrt 9, (20, 19))"
  by (simp add: solver_defs)

lemma solve_p0_r0:
  "closest_points_on_segments_in_3D default_eps [0, 0, 0, 0] [10, 0, 0, 10] [12, 5, 2, 12] [6, 5, 2, 18]
     = Inr ([10, 0, 0], [10, 5, 2], sqrt 29, (10, 14))"
  by (simp add: solver_defs)

lemma solve_p0_r1:
  "closest_points_on_segments_in_3D default_eps [0, 0, 0, 0] [10, 0, 0, 10] [6, 5, 2, 18] [6, - 3, 2, 34]
     = Inr ([6, 0, 0], [6, 0, 2], 2, (6, 28))"
  by (simp add: solver_defs)

lemma solve_p1_r0:
  "closest_points_on_segments_in_3D default_eps [10, 0, 0, 10] [10, 10, 0, 20] [12, 5, 2, 12] [6, 5, 2, 18]
     = Inr ([10, 5, 0], [10, 5, 2], 2, (15, 14))"
  by (simp add: solver_defs)

lemma solve_p1_r1:
  "closest_points_on_segments_in_3D default_eps [10, 0, 0, 10] [10, 10, 0, 20] [6, 5, 2, 18] [6, - 3, 2, 34]
     = Inr ([10, 0, 0], [6, 0, 2], sqrt 20, (10, 28))"
  by (simp add: solver_defs)

lemma reference_epoch_least:
  assumes "pw @ ow \<noteq> []"
  shows "reference_epoch pw ow \<in> set (map timestamp_of (pw @ ow)) \<and>
    (\<forall>wp\<in>set (pw @ ow). reference_epoch pw ow \<le> timestamp_of wp)"
proof -
  have ne: "set (map timestamp_of (pw @ ow)) \<noteq> {}"
    using assms by simp
  have "Min (set (map timestamp_of (pw @ ow))) \<in> set (map timestamp_of (pw @ ow))"
    by (rule Min_in [OF _ ne]) simp
  moreover have "Min (set (map timestamp_of (pw @ ow))) \<le> timestamp_of wp" if "wp \<in> set (pw @ ow)" for wp
    by (rule Min_le) (use that in auto)
  ultimately show ?thesis
    unfolding reference_epoch_def by blast
qed

lemma expected_conflicts_first_drone:
  "expected_conflicts (SpatialAnalyzer 1 2 1)
     [mk_waypoint 0 0 0 10, mk_waypoint 10 0 0 20, mk_waypoint 10 10 0 30]
     [mk_waypoint 3 (- 5) 0 0, mk_waypoint 3 5 0 10, mk_waypoint 7 5 0 14, mk_waypoint 7 (- 5) 0 24] ''d1''
   = [\<lparr>with_drone = ''d1'', min_distance = 0,
        location_primary = Some [3, 0, 0], location_other = Some [3, 0, 0],
        timestamp_primary = 13, timestamp_other = 5, time_difference = 8,
        spatial_conflict = True, temporal_conflict = False,
        conflict_type = ''SPATIAL'', primary_segment = 0, other_segment = 0\<rparr>,
      \<lparr>with_drone = ''d1'', min_distance = 0,
        location_primary = Some [7, 0, 0], location_other = Some [7, 0, 0],
        timestamp_primary = 17, timestamp_other = 19, time_difference = 2,
        spatial_conflict = True, temporal_conflict = False,
        conflict_type = ''SPATIAL'', primary_segment = 0, other_segment = 2\<rparr>]"
proof -
  have ref: "reference_epoch [mk_waypoint 0 0 0 10, mk_waypoint 10 0 0 20, mk_waypoint 10 10 0 30]
     [mk_waypoint 3 (- 5) 0 0, mk_waypoint 3 5 0 10, mk_waypoint 7 5 0 14, mk_waypoint 7 (- 5) 0 24] = 0"
    by (simp add: reference_epoch_def timestamp_of_def mk_waypoint_simps)
  have upt: "[0..<2] = [0, 1]" "[0..<3] = [0, 1, 2]"
    by (simp_all add: upt_rec)
  show ?thesis
    unfolding expected_conflicts_def ref
    by (simp add: segments_of_simps point_of_mk_waypoint pair_conflicts_def upt
        solve_p0_q0 solve_p0_q1 solve_p0_q2 solve_p1_q0 solve_p1_q1 solve_p1_q2
        check_for_conflicts_def SpatialAnalyzer_def expected_record_def Let_def
        sqrt_less_iff_sq)
qed

lemma expected_conflicts_second_drone:
  "expected_conflicts (SpatialAnalyzer 1 2 1)
     [mk_waypoint 0 0 0 10, mk_waypoint 10 0 0 20, mk_waypoint 10 10 0 30]
     [mk_waypoint 12 5 2 22, mk_waypoint 6 5 2 28, mk_waypoint 6 (- 3) 2 44] ''d2''
   = [\<lparr>with_drone = ''d2'', min_distance = 2,
        location_primary = Some [6, 0, 0], location_other = Some [6, 0, 2],
        timestamp_primary = 16, timestamp_other = 38, time_difference = 22,
        spatial_conflict = True, temporal_conflict = False,
        conflict_type = ''SPATIAL'', primary_segment = 0, other_segment = 1\<rparr>,
      \<lparr>with_drone = ''d2'', min_distance = 2,
        location_primary = Some [10, 5, 0], location_other = Some [10, 5, 2],
        timestamp_primary = 25, timestamp_other = 24, time_difference = 1,
        spatial_conflict = True, temporal_conflict = True,
        conflict_type = ''SPATIOTEMPORAL'', primary_segment = 1, other_segment = 0\<rparr>]"
proof -
  have ref: "reference_epoch [mk_waypoint 0 0 0 10, mk_waypoint 10 0 0 20, mk_waypoint 10 10 0 30]
     [mk_waypoint 12 5 2 22, mk_waypoint 6 5 2 28, mk_waypoint 6 (- 3) 2 44] = 10"
    by (simp add: reference_epoch_def timestamp_of_def mk_waypoint_simps)
  have upt: "[0..<2] = [0, 1]"
    by (simp_all add: upt_rec)
  show ?thesis
    unfolding expected_conflicts_def ref
    by (simp add: segments_of_simps point_of_mk_waypoint pair_conflicts_def upt
        solve_p0_r0 solve_p0_r1 solve_p1_r0 solve_p1_r1
        check_for_conflicts_def SpatialAnalyzer_def expected_record_def Let_def
        sqrt_less_iff_sq)
qed

text \<open>
  C3: on well-formed paths (every waypoint carries x, y, z and timestamp, the primary path
  has a waypoint) detect_all_conflicts returns, drone by drone in input order, the records
  of all pairs (primary segment i, other segment j) of the full cross product whose level
  is not 0, with i ascending and then j ascending, each record carrying its i and j. For
  every drone the reference time that the code computes is the minimum timestamp of the
  two paths compared (one of their timestamps, below or equal to all of them), both
  segment sequences are built against it, and the solver returns a result on every pair.
\<close>

theorem detect_all_conflicts_cross_product:
  assumes "\<forall>wp\<in>set (waypoints primary_path). complete wp"
    and "\<forall>d\<in>set flight_data. \<forall>wp\<in>set (waypoints d). complete wp"
    and "waypoints primary_path \<noteq> []"
  shows "detect_all_conflicts self primary_path flight_data =
      Inr (concat (map (\<lambda>d. expected_conflicts (spatial_analyzer_of self)
                               (waypoints primary_path) (waypoints d) (drone_id d)) flight_data)) \<and>
    (\<forall>d\<in>set flight_data.
       get_reference_time (waypoints primary_path) (waypoints d) =
         Inr (reference_epoch (waypoints primary_path) (waypoints d)) \<and>
       reference_epoch (waypoints primary_path) (waypoints d)
         \<in> set (map timestamp_of (waypoints primary_path @ waypoints d)) \<and>
       (\<forall>wp\<in>set (waypoints primary_path @ waypoints d).
          reference_epoch (waypoints primary_path) (waypoints d) \<le> timestamp_of wp) \<and>
       convert_waypoints_to_segments (reference_epoch (waypoints primary_path) (waypoints d))
           (waypoints primary_path) [] =
         Inr (segments_of (reference_epoch (waypoints primary_path) (waypoints d)) (waypoints primary_path)) \<and>
       convert_waypoints_to_segments (reference_epoch (waypoints primary_path) (waypoints d))
           (waypoints d) [] =
         Inr (segments_of (reference_epoch (waypoints primary_path) (waypoints d)) (waypoints d)) \<and>
       check_spatial_conflicts (spatial_analyzer_of self) (waypoints primary_path) (waypoints d) (drone_id d) =
         Inr (expected_conflicts (spatial_analyzer_of self)
                (waypoints primary_path) (waypoints d) (drone_id d)) \<and>
       (\<forall>p\<in>set (segments_of (reference_epoch (waypoints primary_path) (waypoints d)) (waypoints primary_path)).
        \<forall>q\<in>set (segments_of (reference_epoch (waypoints primary_path) (waypoints d)) (waypoints d)).
          \<exists>res. closest_points_on_segments_in_3D default_eps (fst p) (snd p) (fst q) (snd q) = Inr res))"
proof -
  have tot: "\<exists>res. closest_points_on_segments_in_3D default_eps (fst p) (snd p) (fst q) (snd q) = Inr res"
    if "p \<in> set (segments_of r1 w1)" "q \<in> set (segments_of r2 w2)" for p q r1 r2 w1 w2
    using segments_of_length4 [OF that(1)] segments_of_length4 [OF that(2)]
    by (intro closest_points_Inr default_eps_nonneg) simp_all
  have per: "get_reference_time (waypoints primary_path) (waypoints d) =
         Inr (reference_epoch (waypoints primary_path) (waypoints d)) \<and>
       reference_epoch (waypoints primary_path) (waypoints d)
         \<in> set (map timestamp_of (waypoints primary_path @ waypoints d)) \<and>
       (\<forall>wp\<in>set (waypoints primary_path @ waypoints d).
          reference_epoch (waypoints primary_path) (waypoints d) \<le> timestamp_of wp) \<and>
       convert_waypoints_to_segments (reference_epoch (waypoints primary_path) (waypoints d))
           (waypoints primary_path) [] =
         Inr (segments_of (reference_epoch (waypoints primary_path) (waypoints d)) (waypoints primary_path)) \<and>
       convert_waypoints_to_segments (reference_epoch (waypoints primary_path) (waypoints d))
           (waypoints d) [] =
         Inr (segments_of (reference_epoch (waypoints primary_path) (waypoints d)) (waypoints d)) \<and>
       check_spatial_conflicts (spatial_analyzer_of self) (waypoints primary_path) (waypoints d) (drone_id d) =
         Inr (expected_conflicts (spatial_analyzer_of self)
                (waypoints primary_path) (waypoints d) (drone_id d))"
    if d: "d \<in> set flight_data" for d
  proof -
    have c: "\<forall>wp\<in>set (waypoints d). complete wp"
      using assms(2) d by blast
    have ne: "waypoints primary_path @ waypoints d \<noteq> []"
      using assms(3) by simp
    show ?thesis
      using get_reference_time_eq [OF assms(1) c ne] reference_epoch_least [OF ne]
        convert_waypoints_to_segments_eq [OF assms(1), of _ "[]"]
        convert_waypoints_to_segments_eq [OF c, of _ "[]"]
        check_spatial_conflicts_eq [OF assms(1) c ne]
      by simp
  qed
  have "detect_all_conflicts self primary_path flight_data =
      Inr (concat (map (\<lambda>d. expected_conflicts (spatial_analyzer_of self)
                               (waypoints primary_path) (waypoints d) (drone_id d)) flight_data))"
    unfolding detect_all_conflicts_def detect_loop_eq [OF assms] by simp
  then show ?thesis
    using per tot by blast
qed

theorem detect_all_conflicts_cross_product_witness:
  "detect_all_conflicts (ConflictDetector 1 2)
     \<lparr>drone_id = ''p'', waypoints = [mk_waypoint 0 0 0 10, mk_waypoint 10 0 0 20, mk_waypoint 10 10 0 30]\<rparr>
     [\<lparr>drone_id = ''d1'', waypoints = [mk_waypoint 3 (- 5) 0 0, mk_waypoint 3 5 0 10,
                                        mk_waypoint 7 5 0 14, mk_waypoint 7 (- 5) 0 24]\<rparr>,
      \<lparr>drone_id = ''d2'', waypoints = [mk_waypoint 12 5 2 22, mk_waypoint 6 5 2 28,
                                        mk_waypoint 6 (- 3) 2 44]\<rparr>]
   = Inr [\<lparr>with_drone = ''d1'', min_distance = 0,
            location_primary = Some [3, 0, 0], location_other = Some [3, 0, 0],
            timestamp_primary = 13, timestamp_other = 5, time_difference = 8,
            spatial_conflict = True, temporal_conflict = False,
            conflict_type = ''SPATIAL'', primary_segment = 0, other_segment = 0\<rparr>,
          \<lparr>with_drone = ''d1'', min_distance = 0,
            location_primary = Some [7, 0, 0], location_other = Some [7, 0, 0],
            timestamp_primary = 17, timestamp_other = 19, time_difference = 2,
            spatial_conflict = True, temporal_conflict = False,
            conflict_type = ''SPATIAL'', primary_segment = 0, other_segment = 2\<rparr>,
          \<lparr>with_drone = ''d2'', min_distance = 2,
            location_primary = Some [6, 0, 0], location_other = Some [6, 0, 2],
            timestamp_primary = 16, timestamp_other = 38, time_difference = 22,
            spatial_conflict = True, temporal_conflict = False,
            conflict_type = ''SPATIAL'', primary_segment = 0, other_segment = 1\<rparr>,
          \<lparr>with_drone = ''d2'', min_distance = 2,
            location_primary = Some [10, 5, 0], location_other = Some [10, 5, 2],
            timestamp_primary = 25, timestamp_other = 24, time_difference = 1,
            spatial_conflict = True, temporal_conflict = True,
            conflict_type = ''SPATIOTEMPORAL'', primary_segment = 1, other_segment = 0\<rparr>] \<and>
   get_reference_time [mk_waypoint 0 0 0 10, mk_waypoint 10 0 0 20, mk_waypoint 10 10 0 30]
     [mk_waypoint 3 (- 5) 0 0, mk_waypoint 3 5 0 10, mk_waypoint 7 5 0 14, mk_waypoint 7 (- 5) 0 24] = Inr 0 \<and>
   get_reference_time [mk_waypoint 0 0 0 10, mk_waypoint 10 0 0 20, mk_waypoint 10 10 0 30]
     [mk_waypoint 12 5 2 22, mk_waypoint 6 5 2 28, mk_waypoint 6 (- 3) 2 44] = Inr 10 \<and>
   convert_waypoints_to_segments 0 [mk_waypoint 0 0 0 10, mk_waypoint 10 0 0 20, mk_waypoint 10 10 0 30] []
     = Inr [([0, 0, 0, 10], [10, 0, 0, 20]), ([10, 0, 0, 20], [10, 10, 0, 30])] \<and>
   convert_waypoints_to_segments 0
       [mk_waypoint 3 (- 5) 0 0, mk_waypoint 3 5 0 10, mk_waypoint 7 5 0 14, mk_waypoint 7 (- 5) 0 24] []
     = Inr [([3, - 5, 0, 0], [3, 5, 0, 10]), ([3, 5, 0, 10], [7, 5, 0, 14]), ([7, 5, 0, 14], [7, - 5, 0, 24])] \<and>
   convert_waypoints_to_segments 10 [mk_waypoint 0 0 0 10, mk_waypoint 10 0 0 20, mk_waypoint 10 10 0 30] []
     = Inr [([0, 0, 0, 0], [10, 0, 0, 10]), ([10, 0, 0, 10], [10, 10, 0, 20])] \<and>
   convert_waypoints_to_segments 10
       [mk_waypoint 12 5 2 22, mk_waypoint 6 5 2 28, mk_waypoint 6 (- 3) 2 44] []
     = Inr [([12, 5, 2, 12], [6, 5, 2, 18]), ([6, 5, 2, 18], [6, - 3, 2, 34])]"
proof -
  have ref: "reference_epoch [mk_waypoint 0 0 0 10, mk_waypoint 10 0 0 20, mk_waypoint 10 10 0 30]
     [mk_waypoint 3 (- 5) 0 0, mk_waypoint 3 5 0 10, mk_waypoint 7 5 0 14, mk_waypoint 7 (- 5) 0 24] = 0"
    "reference_epoch [mk_waypoint 0 0 0 10, mk_waypoint 10 0 0 20, mk_waypoint 10 10 0 30]
     [mk_waypoint 12 5 2 22, mk_waypoint 6 5 2 28, mk_waypoint 6 (- 3) 2 44] = 10"
    by (simp_all add: reference_epoch_def timestamp_of_def mk_waypoint_simps)
  have c: "\<forall>wp\<in>set (waypoints \<lparr>drone_id = ''p'', waypoints =
        [mk_waypoint 0 0 0 10, mk_waypoint 10 0 0 20, mk_waypoint 10 10 0 30]\<rparr>). complete wp"
    "\<forall>d\<in>set [\<lparr>drone_id = ''d1'', waypoints = [mk_waypoint 3 (- 5) 0 0, mk_waypoint 3 5 0 10,
                                        mk_waypoint 7 5 0 14, mk_waypoint 7 (- 5) 0 24]\<rparr>,
        \<lparr>drone_id = ''d2'', waypoints = [mk_waypoint 12 5 2 22, mk_waypoint 6 5 2 28,
                                        mk_waypoint 6 (- 3) 2 44]\<rparr>]. \<forall>wp\<in>set (waypoints d). complete wp"
    "waypoints \<lparr>drone_id = ''p'', waypoints =
        [mk_waypoint 0 0 0 10, mk_waypoint 10 0 0 20, mk_waypoint 10 10 0 30]\<rparr> \<noteq> []"
    by (simp_all add: complete_mk_waypoint)
  note inst = detect_all_conflicts_cross_product [OF c, of "ConflictDetector 1 2"]
  note det = inst [THEN conjunct1]
  note per = inst [THEN conjunct2, THEN bspec]
  have 1: "detect_all_conflicts (ConflictDetector 1 2)
     \<lparr>drone_id = ''p'', waypoints = [mk_waypoint 0 0 0 10, mk_waypoint 10 0 0 20, mk_waypoint 10 10 0 30]\<rparr>
     [\<lparr>drone_id = ''d1'', waypoints = [mk_waypoint 3 (- 5) 0 0, mk_waypoint 3 5 0 10,
                                        mk_waypoint 7 5 0 14, mk_waypoint 7 (- 5) 0 24]\<rparr>,
      \<lparr>drone_id = ''d2'', waypoints = [mk_waypoint 12 5 2 22, mk_waypoint 6 5 2 28,
                                        mk_waypoint 6 (- 3) 2 44]\<rparr>]
    = Inr (expected_conflicts (SpatialAnalyzer 1 2 1)
        [mk_waypoint 0 0 0 10, mk_waypoint 10 0 0 20, mk_waypoint 10 10 0 30]
        [mk_waypoint 3 (- 5) 0 0, mk_waypoint 3 5 0 10, mk_waypoint 7 5 0 14, mk_waypoint 7 (- 5) 0 24] ''d1'' @
      expected_conflicts (SpatialAnalyzer 1 2 1)
        [mk_waypoint 0 0 0 10, mk_waypoint 10 0 0 20, mk_waypoint 10 10 0 30]
        [mk_waypoint 12 5 2 22, mk_waypoint 6 5 2 28, mk_waypoint 6 (- 3) 2 44] ''d2'')"
    unfolding det by (simp add: ConflictDetector_def)
  have 2: "get_reference_time [mk_waypoint 0 0 0 10, mk_waypoint 10 0 0 20, mk_waypoint 10 10 0 30]
       [mk_waypoint 3 (- 5) 0 0, mk_waypoint 3 5 0 10, mk_waypoint 7 5 0 14, mk_waypoint 7 (- 5) 0 24] = Inr 0 \<and>
     convert_waypoints_to_segments 0 [mk_waypoint 0 0 0 10, mk_waypoint 10 0 0 20, mk_waypoint 10 10 0 30] []
       = Inr [([0, 0, 0, 10], [10, 0, 0, 20]), ([10, 0, 0, 20], [10, 10, 0, 30])] \<and>
     convert_waypoints_to_segments 0
         [mk_waypoint 3 (- 5) 0 0, mk_waypoint 3 5 0 10, mk_waypoint 7 5 0 14, mk_waypoint 7 (- 5) 0 24] []
       = Inr [([3, - 5, 0, 0], [3, 5, 0, 10]), ([3, 5, 0, 10], [7, 5, 0, 14]), ([7, 5, 0, 14], [7, - 5, 0, 24])]"
    using per [of "\<lparr>drone_id = ''d1'', waypoints = [mk_waypoint 3 (- 5) 0 0, mk_waypoint 3 5 0 10,
                                        mk_waypoint 7 5 0 14, mk_waypoint 7 (- 5) 0 24]\<rparr>"]
    by (simp add: ref segments_of_simps point_of_mk_waypoint)
  have 3: "get_reference_time [mk_waypoint 0 0 0 10, mk_waypoint 10 0 0 20, mk_waypoint 10 10 0 30]
       [mk_waypoint 12 5 2 22, mk_waypoint 6 5 2 28, mk_waypoint 6 (- 3) 2 44] = Inr 10 \<and>
     convert_waypoints_to_segments 10 [mk_waypoint 0 0 0 10, mk_waypoint 10 0 0 20, mk_waypoint 10 10 0 30] []
       = Inr [([0, 0, 0, 0], [10, 0, 0, 10]), ([10, 0, 0, 10], [10, 10, 0, 20])] \<and>
     convert_waypoints_to_segments 10
         [mk_waypoint 12 5 2 22, mk_waypoint 6 5 2 28, mk_waypoint 6 (- 3) 2 44] []
       = Inr [([12, 5, 2, 12], [6, 5, 2, 18]), ([6, 5, 2, 18], [6, - 3, 2, 34])]"
    using per [of "\<lparr>drone_id = ''d2'', waypoints = [mk_waypoint 12 5 2 22, mk_waypoint 6 5 2 28,
                                        mk_waypoint 6 (- 3) 2 44]\<rparr>"]
    by (simp add: ref segments_of_simps point_of_mk_waypoint)
  show ?thesis
    unfolding 1 expected_conflicts_first_drone expected_conflicts_second_drone
    using 2 3 by simp
qed

lemma expected_record_consistent:
  assumes "0 \<le> eps" "closest_points_on_segments_in_3D eps A1 A2 B1 B2 = Inr res"
  shows "consistent (expected_record other_id ref res level i j)"
proof -
  obtain cP cQ d ts where res: "res = (cP, cQ, d, ts)"
    by (metis prod_cases4)
  from closest_points_distance [OF assms(1) assms(2) [unfolded res]] show ?thesis
    unfolding res by (cases ts) (simp add: expected_record_def consistent_def)
qed

lemma inner_loop_consistent:
  "inner_loop self other_id ref i p j qs acc = Inr cs \<Longrightarrow> list_all consistent acc \<Longrightarrow> list_all consistent cs"
proof (induction qs arbitrary: j acc)
  case Nil
  then show ?case by simp
next
  case (Cons q qs)
  from Cons.prems(1) obtain res where
    res: "closest_points_on_segments_in_3D default_eps (fst p) (snd p) (fst q) (snd q) = Inr res"
    by (auto split: sum.splits)
  show ?case
  proof (cases "0 < fst (check_for_conflicts self res)")
    case True
    have "consistent (expected_record other_id ref res (fst (check_for_conflicts self res)) i j)"
      by (rule expected_record_consistent [OF default_eps_nonneg res])
    then show ?thesis
      using Cons.prems True Cons.IH [of "Suc j"]
      by (simp add: res conflict_record_eq)
  next
    case False
    then show ?thesis
      using Cons.prems Cons.IH [of "Suc j" acc] by (simp add: res)
  qed
qed

lemma outer_loop_consistent:
  "outer_loop self other_id ref i ps qs acc = Inr cs \<Longrightarrow> list_all consistent acc \<Longrightarrow> list_all consistent cs"
proof (induction ps arbitrary: i acc)
  case Nil
  then show ?case by simp
next
  case (Cons p ps)
  from Cons.prems(1) obtain acc' where
    a: "inner_loop self other_id ref i p 0 qs acc = Inr acc'"
    by (auto split: sum.splits)
  then have "list_all consistent acc'"
    using inner_loop_consistent Cons.prems(2) by blast
  then show ?case
    using Cons.prems(1) Cons.IH [of "Suc i" acc'] by (simp add: a)
qed

text \<open>
  C10: in every record that check_spatial_conflicts returns, min_distance is the Euclidean
  distance between location_primary and location_other, whichever branch of the solver
  produced the result.
\<close>

theorem conflict_records_consistent:
  assumes "check_spatial_conflicts self primary_waypoints other_waypoints other_drone_id = Inr cs"
    and "r \<in> set cs"
  shows "\<exists>p q. location_primary r = Some p \<and> location_other r = Some q \<and> min_distance r = vdist p q"
proof -
  from assms(1) obtain ref ps qs where "outer_loop self other_drone_id ref 0 ps qs [] = Inr cs"
    by (auto simp: check_spatial_conflicts_def split: sum.splits)
  then have "list_all consistent cs"
    using outer_loop_consistent by fastforce
  with assms(2) have "consistent r"
    by (simp add: list_all_iff)
  then show ?thesis
    by (auto simp: consistent_def split: option.splits)
qed

theorem conflict_records_consistent_witness:
  "\<exists>p q. location_primary \<lparr>with_drone = ''d1'', min_distance = 0,
           location_primary = Some [5, 0, 0], location_other = Some [5, 0, 0],
           timestamp_primary = 5, timestamp_other = 5, time_difference = 0,
           spatial_conflict = True, temporal_conflict = True,
           conflict_type = ''SPATIOTEMPORAL'', primary_segment = 0, other_segment = 0\<rparr> = Some p \<and>
     location_other \<lparr>with_drone = ''d1'', min_distance = 0,
           location_primary = Some [5, 0, 0], location_other = Some [5, 0, 0],
           timestamp_primary = 5, timestamp_other = 5, time_difference = 0,
           spatial_conflict = True, temporal_conflict = True,
           conflict_type = ''SPATIOTEMPORAL'', primary_segment = 0, other_segment = 0\<rparr> = Some q \<and>
     min_distance \<lparr>with_drone = ''d1'', min_distance = 0,
           location_primary = Some [5, 0, 0], location_other = Some [5, 0, 0],
           timestamp_primary = 5, timestamp_other = 5, time_difference = 0,
           spatial_conflict = True, temporal_conflict = True,
           conflict_type = ''SPATIOTEMPORAL'', primary_segment = 0, other_segment = 0\<rparr> = vdist p q"
  by (rule conflict_records_consistent [OF scenario_crossing]) simp

lemma segments_of_short: "length wps < 2 \<Longrightarrow> segments_of ref wps = []"
  by (cases wps; cases "tl wps") (simp_all add: segments_of_def)

text \<open>
  The data model gives every path at least one waypoint. Outside it, with both paths
  empty, the minimum over no timestamps raises ValueError.
\<close>

lemma check_spatial_conflicts_no_waypoints:
  "check_spatial_conflicts (SpatialAnalyzer 10 3 1) [] [] ''d1'' = Inl ValueError"
  by (simp add: check_spatial_conflicts_def get_reference_time_def py_min_def)

text \<open>
  C9: under the data model (every waypoint carries its four fields, a path has at least
  one waypoint, so the two paths compared are not both empty) a path with fewer than 2
  waypoints yields zero segments, a comparison that involves such a path returns the
  empty list without an error, and with no other drones detect_all_conflicts returns the
  empty list.
\<close>

theorem short_path_no_conflicts:
  assumes "\<forall>wp\<in>set primary_waypoints. complete wp" "\<forall>wp\<in>set other_waypoints. complete wp"
    and "primary_waypoints @ other_waypoints \<noteq> []"
    and "length primary_waypoints < 2 \<or> length other_waypoints < 2"
  shows "(\<forall>wps ref. length wps < 2 \<longrightarrow> convert_waypoints_to_segments ref wps [] = Inr []) \<and>
    check_spatial_conflicts self primary_waypoints other_waypoints other_drone_id = Inr [] \<and>
    detect_all_conflicts detector_self primary_path [] = Inr []"
proof -
  have "expected_conflicts self primary_waypoints other_waypoints other_drone_id = []"
    using assms(4) by (auto simp: expected_conflicts_def Let_def segments_of_short)
  then show ?thesis
    by (simp add: check_spatial_conflicts_eq [OF assms(1-3)] convert_short detect_all_conflicts_def)
qed

theorem short_path_no_conflicts_witness:
  "convert_waypoints_to_segments 0 [mk_waypoint 0 0 0 0] [] = Inr [] \<and>
   check_spatial_conflicts (SpatialAnalyzer 5 2 1) [mk_waypoint 0 0 0 0]
     [mk_waypoint 5 (- 5) 0 0, mk_waypoint 5 5 0 10] ''d1'' = Inr [] \<and>
   detect_all_conflicts (ConflictDetector 5 2) \<lparr>drone_id = ''p'', waypoints = [mk_waypoint 0 0 0 0]\<rparr> [] = Inr []"
  using short_path_no_conflicts [of "[mk_waypoint 0 0 0 0]" "[mk_waypoint 5 (- 5) 0 0, mk_waypoint 5 5 0 10]"
      "SpatialAnalyzer 5 2 1" "''d1''" "ConflictDetector 5 2"
      "\<lparr>drone_id = ''p'', waypoints = [mk_waypoint 0 0 0 0]\<rparr>"]
  by (simp add: complete_mk_waypoint)

lemma validate_waypoint_data_iff:
  "validate_waypoint_data wps = (\<forall>wp\<in>set wps. \<forall>field\<in>set required_fields. wp field \<noteq> None)"
  by (induction wps) (auto simp: list_all_iff)

lemma validate_complete: "validate_waypoint_data wps = (\<forall>wp\<in>set wps. complete wp)"
  by (simp add: validate_waypoint_data_iff required_fields_def complete_def)

lemma column_Inr:
  "\<forall>wp\<in>set wps. wp k \<noteq> None \<Longrightarrow> \<exists>vs. column k wps = Inr vs"
  by (induction wps) (auto simp: py_getitem_def)

lemma column_complete:
  assumes "\<forall>wp\<in>set wps. complete wp"
  shows "\<exists>vs. column ''x'' wps = Inr vs" "\<exists>vs. column ''y'' wps = Inr vs"
    "\<exists>vs. column ''z'' wps = Inr vs" "\<exists>vs. column ''timestamp'' wps = Inr vs"
  using assms by (auto intro!: column_Inr simp: complete_def)

lemma position_complete: "complete w \<Longrightarrow> \<exists>a. position w = Inr a"
  by (auto simp: position_def complete_def py_getitem_def)

lemma get_segments_with_time_complete:
  "\<forall>wp\<in>set wps. complete wp \<Longrightarrow> \<exists>segments. get_segments_with_time wps = Inr segments"
proof (induction wps rule: get_segments_with_time.induct)
  case (1 w1 w2 wps)
  obtain a b where ab: "position w1 = Inr a" "position w2 = Inr b"
    using position_complete 1(2) by (metis list.set_intros(1,2))
  obtain t1 t2 where t: "py_getitem w1 ''timestamp'' = Inr t1" "py_getitem w2 ''timestamp'' = Inr t2"
    using 1(2) by (auto simp: complete_def py_getitem_def)
  obtain segments where s: "get_segments_with_time (w2 # wps) = Inr segments"
    using 1(1) [OF ab t] 1(2) by auto
  show ?case
    by (simp add: s ab t)
qed simp_all

lemma plot_flight_3d_complete:
  assumes "\<forall>wp\<in>set wps. complete wp"
  shows "plot_flight_3d wps = Inr ()"
  using column_complete(1-3) [OF assms] get_segments_with_time_complete [OF assms]
  by (auto simp: plot_flight_3d_def)

lemma plot_flights_3d_complete:
  "\<forall>d\<in>set flights. \<forall>wp\<in>set (waypoints d). complete wp \<Longrightarrow> plot_flights_3d flights = Inr ()"
  by (induction flights) (simp_all add: plot_flight_3d_complete)

lemma plot_path_empty: "plot_path [] = Inl IndexError"
  by (simp add: plot_path_def py_index_def)

lemma add_trace_complete:
  assumes "\<forall>wp\<in>set wps. complete wp"
  shows "add_trace wps = Inr ()"
  using column_complete [OF assms] by (auto simp: add_trace_def)

lemma plot_path_complete:
  assumes "\<forall>wp\<in>set wps. complete wp" "wps \<noteq> []"
  shows "plot_path wps = Inr ()"
proof -
  have "hd wps \<in> set wps"
    using assms(2) by simp
  then have "hd wps ''timestamp'' \<noteq> None"
    using assms(1) unfolding complete_def by blast
  then show ?thesis
    using column_complete [OF assms(1)] assms(2)
    by (auto simp: plot_path_def py_index_def py_getitem_def hd_conv_nth)
qed

lemma plot_paths_complete:
  "\<forall>d\<in>set flights. waypoints d \<noteq> [] \<and> (\<forall>wp\<in>set (waypoints d). complete wp) \<Longrightarrow>
   plot_paths flights = Inr ()"
  by (induction flights) (simp_all add: plot_path_complete)

lemma add_traces_complete:
  "\<forall>d\<in>set flights. \<forall>wp\<in>set (waypoints d). complete wp \<Longrightarrow> add_traces flights = Inr ()"
  by (induction flights) (simp_all add: add_trace_complete)

lemma time_samples_complete:
  "\<forall>d\<in>set all_drones. \<forall>wp\<in>set (waypoints d). complete wp \<Longrightarrow>
   \<exists>ts. generate_comprehensive_time_samples all_drones = Inr ts"
proof (induction all_drones)
  case Nil
  then show ?case by simp
next
  case (Cons d all_drones)
  then obtain ts where "generate_comprehensive_time_samples all_drones = Inr ts"
    by auto
  moreover obtain vs where "column ''timestamp'' (waypoints d) = Inr vs"
    using column_complete(4) Cons.prems by (metis list.set_intros(1))
  ultimately show ?case
    by simp
qed

lemma axis_limits_complete:
  "\<forall>d\<in>set all_drones. \<forall>wp\<in>set (waypoints d). complete wp \<Longrightarrow> axis_limits all_drones = Inr ()"
proof (induction all_drones)
  case Nil
  then show ?case by simp
next
  case (Cons d all_drones)
  have c: "\<forall>wp\<in>set (waypoints d). complete wp"
    using Cons.prems by simp
  show ?case
    using column_complete(1-3) [OF c] Cons by auto
qed

lemma plot_conflicts_located:
  "\<forall>c\<in>set conflicts. \<exists>v. location_primary c = Some v \<and> length v = 3 \<Longrightarrow>
   plot_conflicts conflicts = Inr ()"
  by (induction conflicts) (auto simp: unpack3_def)

lemma visualizer_complete:
  assumes "\<forall>wp\<in>set (waypoints primary_path). complete wp"
    and "\<forall>d\<in>set flight_data. waypoints d \<noteq> [] \<and> (\<forall>wp\<in>set (waypoints d). complete wp)"
    and "\<forall>c\<in>set conflicts. \<exists>v. location_primary c = Some v \<and> length v = 3"
  shows "visualize_conflict_3d primary_path flight_data conflicts = Inr ()"
    and "waypoints primary_path \<noteq> [] \<Longrightarrow> visualize_position_over_time primary_path flight_data = Inr ()"
    and "waypoints primary_path = [] \<Longrightarrow> visualize_position_over_time primary_path flight_data = Inl IndexError"
    and "animate_3d_trajectories primary_path flight_data conflicts = Inr ()"
proof -
  have fd: "\<forall>d\<in>set flight_data. \<forall>wp\<in>set (waypoints d). complete wp"
    using assms(2) by blast
  have all: "\<forall>d\<in>set (primary_path # flight_data). \<forall>wp\<in>set (waypoints d). complete wp"
    using assms(1) fd by simp
  show "visualize_conflict_3d primary_path flight_data conflicts = Inr ()"
    by (simp add: visualize_conflict_3d_def plot_flights_3d_complete [OF fd]
        plot_flight_3d_complete [OF assms(1)] plot_conflicts_located [OF assms(3)])
  show "visualize_position_over_time primary_path flight_data = Inr ()" if ne: "waypoints primary_path \<noteq> []"
  proof -
    have "hd (waypoints primary_path) \<in> set (waypoints primary_path)"
      using ne by simp
    then have "hd (waypoints primary_path) ''timestamp'' \<noteq> None"
      using assms(1) unfolding complete_def by blast
    then show ?thesis
      using ne
      by (auto simp: visualize_position_over_time_def plot_paths_complete [OF assms(2)]
          plot_path_complete [OF assms(1) ne] create_plotly_visualization_def py_index_def
          py_getitem_def hd_conv_nth add_traces_complete [OF fd] add_trace_complete [OF assms(1)])
  qed
  show "visualize_position_over_time primary_path flight_data = Inl IndexError" if "waypoints primary_path = []"
    by (simp add: visualize_position_over_time_def plot_paths_complete [OF assms(2)] that plot_path_empty)
  show "animate_3d_trajectories primary_path flight_data conflicts = Inr ()"
    using time_samples_complete [OF all] axis_limits_complete [OF all]
    by (auto simp: animate_3d_trajectories_def Let_def)
qed

lemma pair_conflicts_located:
  assumes "length (fst p) = 4" "length (snd p) = 4" "length (fst q) = 4" "length (snd q) = 4"
    and "c \<in> set (pair_conflicts self other_id ref i p j q)"
  shows "\<exists>v. location_primary c = Some v \<and> length v = 3"
proof -
  obtain s t where
    "closest_points_on_segments_in_3D default_eps (fst p) (snd p) (fst q) (snd q) =
        Inr (add (take 3 (fst p)) (scale (sub (take 3 (snd p)) (take 3 (fst p))) s),
             add (take 3 (fst q)) (scale (sub (take 3 (snd q)) (take 3 (fst q))) t),
             vdist (add (take 3 (fst p)) (scale (sub (take 3 (snd p)) (take 3 (fst p))) s))
                   (add (take 3 (fst q)) (scale (sub (take 3 (snd q)) (take 3 (fst q))) t)),
             ((snd p ! 3 - fst p ! 3) * s + fst p ! 3, (snd q ! 3 - fst q ! 3) * t + fst q ! 3))"
    using closest_points_params [OF default_eps_nonneg, of "fst p" "snd p" "fst q" "snd q"] assms(1-4)
    by auto
  then show ?thesis
    using assms
    by (auto simp: pair_conflicts_def expected_record_def add_def scale_def sub_def split: if_splits)
qed

lemma expected_conflicts_located:
  assumes "c \<in> set (expected_conflicts self pw ow other_id)"
  shows "\<exists>v. location_primary c = Some v \<and> length v = 3"
proof -
  let ?ref = "reference_epoch pw ow"
  from assms obtain i j where ij: "i < length (segments_of ?ref pw)" "j < length (segments_of ?ref ow)"
    "c \<in> set (pair_conflicts self other_id ?ref i (segments_of ?ref pw ! i) j (segments_of ?ref ow ! j))"
    by (auto simp: expected_conflicts_def Let_def)
  have "segments_of ?ref pw ! i \<in> set (segments_of ?ref pw)" "segments_of ?ref ow ! j \<in> set (segments_of ?ref ow)"
    using ij(1,2) by simp_all
  then have "length (fst (segments_of ?ref pw ! i)) = 4" "length (snd (segments_of ?ref pw ! i)) = 4"
    "length (fst (segments_of ?ref ow ! j)) = 4" "length (snd (segments_of ?ref ow ! j)) = 4"
    using segments_of_length4 by blast+
  then show ?thesis
    using pair_conflicts_located ij(3) by blast
qed

lemma analyze_flight_data_rejected_iff:
  "(analyze_flight_data self flight_data primary_path = Inr None) =
     (\<exists>wp\<in>set (waypoints primary_path). \<exists>field\<in>set required_fields. wp field = None)"
  by (auto simp: analyze_flight_data_def validate_waypoint_data_iff split: sum.splits)

lemma analyze_flight_data_complete:
  assumes "\<forall>wp\<in>set (waypoints primary_path). complete wp" "waypoints primary_path \<noteq> []"
    and "\<forall>d\<in>set flight_data. waypoints d \<noteq> [] \<and> (\<forall>wp\<in>set (waypoints d). complete wp)"
  shows "analyze_flight_data self flight_data primary_path =
     Inr (Some (concat (map (\<lambda>d. expected_conflicts (spatial_analyzer_of (detector self))
                                    (waypoints primary_path) (waypoints d) (drone_id d)) flight_data)))"
proof -
  let ?cs = "concat (map (\<lambda>d. expected_conflicts (spatial_analyzer_of (detector self))
                                    (waypoints primary_path) (waypoints d) (drone_id d)) flight_data)"
  have fd: "\<forall>d\<in>set flight_data. \<forall>wp\<in>set (waypoints d). complete wp"
    using assms(3) by blast
  have det: "detect_all_conflicts (detector self) primary_path flight_data = Inr ?cs"
    unfolding detect_all_conflicts_def detect_loop_eq [OF assms(1) fd assms(2)] by simp
  have loc: "\<forall>c\<in>set ?cs. \<exists>v. location_primary c = Some v \<and> length v = 3"
    using expected_conflicts_located by auto
  show ?thesis
    using assms(1)
    by (simp add: analyze_flight_data_def validate_complete det
        visualizer_complete(1,4) [OF assms(1,3) loc] visualizer_complete(2) [OF assms(1,3) loc assms(2)])
qed

lemma analyze_flight_data_empty_primary:
  assumes "waypoints primary_path = []"
    and "\<forall>d\<in>set flight_data. waypoints d \<noteq> [] \<and> (\<forall>wp\<in>set (waypoints d). complete wp)"
  shows "detect_all_conflicts (detector self) primary_path flight_data = Inr []"
    and "analyze_flight_data self flight_data primary_path = Inl IndexError"
proof -
  have e: "\<forall>wp\<in>set (waypoints primary_path). complete wp"
    using assms(1) by simp
  have loop: "detect_loop d [] flights acc = Inr acc"
    if "\<forall>d\<in>set flights. waypoints d \<noteq> [] \<and> (\<forall>wp\<in>set (waypoints d). complete wp)" for d flights acc
    using that
  proof (induction flights arbitrary: acc)
    case Nil
    then show ?case by simp
  next
    case (Cons f flights)
    have "check_spatial_conflicts (spatial_analyzer_of d) [] (waypoints f) (drone_id f) = Inr []"
      using Cons.prems
      by (subst check_spatial_conflicts_eq) (simp_all add: expected_conflicts_def segments_of_simps Let_def)
    then show ?case
      using Cons by simp
  qed
  show det: "detect_all_conflicts (detector self) primary_path flight_data = Inr []"
    unfolding detect_all_conflicts_def assms(1) by (rule loop [OF assms(2)])
  show "analyze_flight_data self flight_data primary_path = Inl IndexError"
    using visualizer_complete(1) [OF e assms(2), of "[]"] visualizer_complete(3) [OF e assms(2) _ assms(1), of "[]"]
    by (simp add: analyze_flight_data_def det assms(1))
qed

lemma solve_crossing_reversed:
  "closest_points_on_segments_in_3D default_eps [0, 0, 0, 10] [10, 0, 0, 0] [5, - 5, 0, 0] [5, 5, 0, 10]
     = Inr ([5, 0, 0], [5, 0, 0], 0, (5, 5))"
  by (simp add: closest_points_on_segments_in_3D_def py_index_def line_parameters_def default_eps_def
      sub_def dot_def add_def scale_def py_div_def clamp_def norm_vec_def py_sqrt_def
      time_calculations_def Let_def)

lemma expected_conflicts_crossing:
  "expected_conflicts (SpatialAnalyzer 5 2 1)
     [mk_waypoint 0 0 0 0, mk_waypoint 10 0 0 10] [mk_waypoint 5 (- 5) 0 0, mk_waypoint 5 5 0 10] ''d1''
   = [\<lparr>with_drone = ''d1'', min_distance = 0,
           location_primary = Some [5, 0, 0], location_other = Some [5, 0, 0],
           timestamp_primary = 5, timestamp_other = 5, time_difference = 0,
           spatial_conflict = True, temporal_conflict = True,
           conflict_type = ''SPATIOTEMPORAL'', primary_segment = 0, other_segment = 0\<rparr>]"
proof -
  have ref: "reference_epoch [mk_waypoint 0 0 0 0, mk_waypoint 10 0 0 10]
      [mk_waypoint 5 (- 5) 0 0, mk_waypoint 5 5 0 10] = 0"
    by (simp add: reference_epoch_def timestamp_of_def mk_waypoint_simps)
  show ?thesis
    by (simp add: expected_conflicts_def ref segments_of_simps
         point_of_mk_waypoint pair_conflicts_def solve_crossing check_for_conflicts_def
         SpatialAnalyzer_def expected_record_def Let_def)
qed

lemma expected_conflicts_crossing_reversed:
  "expected_conflicts (SpatialAnalyzer 5 2 1)
     [mk_waypoint 0 0 0 10, mk_waypoint 10 0 0 0] [mk_waypoint 5 (- 5) 0 0, mk_waypoint 5 5 0 10] ''d1''
   = [\<lparr>with_drone = ''d1'', min_distance = 0,
           location_primary = Some [5, 0, 0], location_other = Some [5, 0, 0],
           timestamp_primary = 5, timestamp_other = 5, time_difference = 0,
           spatial_conflict = True, temporal_conflict = True,
           conflict_type = ''SPATIOTEMPORAL'', primary_segment = 0, other_segment = 0\<rparr>]"
proof -
  have ref: "reference_epoch [mk_waypoint 0 0 0 10, mk_waypoint 10 0 0 0]
      [mk_waypoint 5 (- 5) 0 0, mk_waypoint 5 5 0 10] = 0"
    by (simp add: reference_epoch_def timestamp_of_def mk_waypoint_simps)
  show ?thesis
    by (simp add: expected_conflicts_def ref segments_of_simps
         point_of_mk_waypoint pair_conflicts_def solve_crossing_reversed check_for_conflicts_def
         SpatialAnalyzer_def expected_record_def Let_def)
qed

text \<open>
  C5, amended: analyze_flight_data rejects the input (returns at once without a result,
  before any detection) exactly when a waypoint of the primary path lacks x, y, z or
  timestamp. Nothing else is rejected. When every waypoint of every path carries its four
  fields and every path has a waypoint, the paths are analysed as given, whatever the
  order of the timestamps, and the records of the detection are returned. A primary path
  without waypoints passes validation and detection, which finds nothing, and the
  visualizer then raises IndexError.
\<close>

theorem missing_primary_field_rejected:
  "((analyze_flight_data self flight_data primary_path = Inr None) =
      (\<exists>wp\<in>set (waypoints primary_path). \<exists>field\<in>set required_fields. wp field = None)) \<and>
   ((\<forall>wp\<in>set (waypoints primary_path). complete wp) \<and> waypoints primary_path \<noteq> [] \<and>
    (\<forall>d\<in>set flight_data. waypoints d \<noteq> [] \<and> (\<forall>wp\<in>set (waypoints d). complete wp)) \<longrightarrow>
      analyze_flight_data self flight_data primary_path =
        Inr (Some (concat (map (\<lambda>d. expected_conflicts (spatial_analyzer_of (detector self))
                                       (waypoints primary_path) (waypoints d) (drone_id d)) flight_data)))) \<and>
   (waypoints primary_path = [] \<and>
    (\<forall>d\<in>set flight_data. waypoints d \<noteq> [] \<and> (\<forall>wp\<in>set (waypoints d). complete wp)) \<longrightarrow>
      detect_all_conflicts (detector self) primary_path flight_data = Inr [] \<and>
      analyze_flight_data self flight_data primary_path = Inl IndexError)"
proof (intro conjI impI)
  show "(analyze_flight_data self flight_data primary_path = Inr None) =
      (\<exists>wp\<in>set (waypoints primary_path). \<exists>field\<in>set required_fields. wp field = None)"
    by (rule analyze_flight_data_rejected_iff)
next
  assume "(\<forall>wp\<in>set (waypoints primary_path). complete wp) \<and> waypoints primary_path \<noteq> [] \<and>
    (\<forall>d\<in>set flight_data. waypoints d \<noteq> [] \<and> (\<forall>wp\<in>set (waypoints d). complete wp))"
  then show "analyze_flight_data self flight_data primary_path =
        Inr (Some (concat (map (\<lambda>d. expected_conflicts (spatial_analyzer_of (detector self))
                                       (waypoints primary_path) (waypoints d) (drone_id d)) flight_data)))"
    by (intro analyze_flight_data_complete) simp_all
next
  assume a: "waypoints primary_path = [] \<and>
    (\<forall>d\<in>set flight_data. waypoints d \<noteq> [] \<and> (\<forall>wp\<in>set (waypoints d). complete wp))"
  show "detect_all_conflicts (detector self) primary_path flight_data = Inr []"
    by (rule analyze_flight_data_empty_primary(1)) (use a in simp_all)
  show "analyze_flight_data self flight_data primary_path = Inl IndexError"
    by (rule analyze_flight_data_empty_primary(2)) (use a in simp_all)
qed

theorem missing_primary_field_rejected_witness:
  "analyze_flight_data (DroneFlightAnalyzer 5 2)
     [\<lparr>drone_id = ''d1'', waypoints = [mk_waypoint 5 (- 5) 0 0, [''x'' \<mapsto> 5, ''y'' \<mapsto> 5]]\<rparr>]
     \<lparr>drone_id = ''p'', waypoints = [mk_waypoint 0 0 0 0, [''x'' \<mapsto> 10, ''y'' \<mapsto> 0, ''timestamp'' \<mapsto> 10]]\<rparr>
   = Inr None \<and>
   analyze_flight_data (DroneFlightAnalyzer 5 2)
     [\<lparr>drone_id = ''d1'', waypoints = [mk_waypoint 5 (- 5) 0 0, mk_waypoint 5 5 0 10]\<rparr>]
     \<lparr>drone_id = ''p'', waypoints = [mk_waypoint 0 0 0 0, mk_waypoint 10 0 0 10]\<rparr>
   = Inr (Some [\<lparr>with_drone = ''d1'', min_distance = 0,
           location_primary = Some [5, 0, 0], location_other = Some [5, 0, 0],
           timestamp_primary = 5, timestamp_other = 5, time_difference = 0,
           spatial_conflict = True, temporal_conflict = True,
           conflict_type = ''SPATIOTEMPORAL'', primary_segment = 0, other_segment = 0\<rparr>]) \<and>
   detect_all_conflicts (detector (DroneFlightAnalyzer 5 2)) \<lparr>drone_id = ''p'', waypoints = []\<rparr>
     [\<lparr>drone_id = ''d1'', waypoints = [mk_waypoint 5 (- 5) 0 0, mk_waypoint 5 5 0 10]\<rparr>] = Inr [] \<and>
   analyze_flight_data (DroneFlightAnalyzer 5 2)
     [\<lparr>drone_id = ''d1'', waypoints = [mk_waypoint 5 (- 5) 0 0, mk_waypoint 5 5 0 10]\<rparr>]
     \<lparr>drone_id = ''p'', waypoints = []\<rparr>
   = Inl IndexError"
proof -
  let ?d1 = "\<lparr>drone_id = ''d1'', waypoints = [mk_waypoint 5 (- 5) 0 0, mk_waypoint 5 5 0 10]\<rparr>"
  have z: "[''x'' \<mapsto> 10, ''y'' \<mapsto> 0, ''timestamp'' \<mapsto> (10 :: real)] ''z'' = None"
    "''z'' \<in> set required_fields"
    by (simp_all add: required_fields_def)
  have "\<exists>wp\<in>set (waypoints \<lparr>drone_id = ''p'', waypoints =
        [mk_waypoint 0 0 0 0, [''x'' \<mapsto> 10, ''y'' \<mapsto> 0, ''timestamp'' \<mapsto> 10]]\<rparr>).
      \<exists>field\<in>set required_fields. wp field = None"
    using z by (intro bexI [of _ "[''x'' \<mapsto> 10, ''y'' \<mapsto> 0, ''timestamp'' \<mapsto> 10]"] bexI [of _ "''z''"]) simp_all
  then have 1: "analyze_flight_data (DroneFlightAnalyzer 5 2)
     [\<lparr>drone_id = ''d1'', waypoints = [mk_waypoint 5 (- 5) 0 0, [''x'' \<mapsto> 5, ''y'' \<mapsto> 5]]\<rparr>]
     \<lparr>drone_id = ''p'', waypoints = [mk_waypoint 0 0 0 0, [''x'' \<mapsto> 10, ''y'' \<mapsto> 0, ''timestamp'' \<mapsto> 10]]\<rparr>
     = Inr None"
    by (rule missing_primary_field_rejected [THEN conjunct1, THEN iffD2])
  have p2: "(\<forall>wp\<in>set (waypoints \<lparr>drone_id = ''p'', waypoints = [mk_waypoint 0 0 0 0, mk_waypoint 10 0 0 10]\<rparr>).
        complete wp) \<and>
      waypoints \<lparr>drone_id = ''p'', waypoints = [mk_waypoint 0 0 0 0, mk_waypoint 10 0 0 10]\<rparr> \<noteq> [] \<and>
      (\<forall>d\<in>set [?d1]. waypoints d \<noteq> [] \<and> (\<forall>wp\<in>set (waypoints d). complete wp))"
    by (simp add: complete_mk_waypoint)
  have 2: "analyze_flight_data (DroneFlightAnalyzer 5 2) [?d1]
     \<lparr>drone_id = ''p'', waypoints = [mk_waypoint 0 0 0 0, mk_waypoint 10 0 0 10]\<rparr>
     = Inr (Some [\<lparr>with_drone = ''d1'', min_distance = 0,
           location_primary = Some [5, 0, 0], location_other = Some [5, 0, 0],
           timestamp_primary = 5, timestamp_other = 5, time_difference = 0,
           spatial_conflict = True, temporal_conflict = True,
           conflict_type = ''SPATIOTEMPORAL'', primary_segment = 0, other_segment = 0\<rparr>])"
    unfolding missing_primary_field_rejected [THEN conjunct2, THEN conjunct1, THEN mp, OF p2]
    by (simp add: DroneFlightAnalyzer_def ConflictDetector_def expected_conflicts_crossing)
  have p3: "waypoints \<lparr>drone_id = ''p'', waypoints = []\<rparr> = [] \<and>
      (\<forall>d\<in>set [?d1]. waypoints d \<noteq> [] \<and> (\<forall>wp\<in>set (waypoints d). complete wp))"
    by (simp add: complete_mk_waypoint)
  note 3 = missing_primary_field_rejected [THEN conjunct2, THEN conjunct2, THEN mp, OF p3,
      of "DroneFlightAnalyzer 5 2"]
  show ?thesis
    using 1 2 3 by blast
qed

text \<open>
  C5, as stated, fails: a primary path whose timestamps decrease is not rejected; it is
  analysed like any other and yields a record.
\<close>

theorem contract_violations_analysed_counterexample:
  "analyze_flight_data (DroneFlightAnalyzer 5 2)
     [\<lparr>drone_id = ''d1'', waypoints = [mk_waypoint 5 (- 5) 0 0, mk_waypoint 5 5 0 10]\<rparr>]
     \<lparr>drone_id = ''p'', waypoints = [mk_waypoint 0 0 0 10, mk_waypoint 10 0 0 0]\<rparr>
   = Inr (Some [\<lparr>with_drone = ''d1'', min_distance = 0,
           location_primary = Some [5, 0, 0], location_other = Some [5, 0, 0],
           timestamp_primary = 5, timestamp_other = 5, time_difference = 0,
           spatial_conflict = True, temporal_conflict = True,
           conflict_type = ''SPATIOTEMPORAL'', primary_segment = 0, other_segment = 0\<rparr>])"
proof -
  have "analyze_flight_data (DroneFlightAnalyzer 5 2)
     [\<lparr>drone_id = ''d1'', waypoints = [mk_waypoint 5 (- 5) 0 0, mk_waypoint 5 5 0 10]\<rparr>]
     \<lparr>drone_id = ''p'', waypoints = [mk_waypoint 0 0 0 10, mk_waypoint 10 0 0 0]\<rparr>
   = Inr (Some (concat (map (\<lambda>d. expected_conflicts (spatial_analyzer_of (detector (DroneFlightAnalyzer 5 2)))
         (waypoints \<lparr>drone_id = ''p'', waypoints = [mk_waypoint 0 0 0 10, mk_waypoint 10 0 0 0]\<rparr>)
         (waypoints d) (drone_id d))
       [\<lparr>drone_id = ''d1'', waypoints = [mk_waypoint 5 (- 5) 0 0, mk_waypoint 5 5 0 10]\<rparr>])))"
    by (rule analyze_flight_data_complete) (simp_all add: complete_mk_waypoint)
  then show ?thesis
    by (simp add: DroneFlightAnalyzer_def ConflictDetector_def expected_conflicts_crossing_reversed)
qed


section \<open>Swapping the two segments\<close>

lemma dot_commute: "dot a b = dot b a"
  unfolding dot_def
  by (induction a arbitrary: b) (simp, case_tac b, simp_all add: mult.commute)

lemma sub_swap: "sub a b = map uminus (sub b a)"
  unfolding sub_def
  by (induction a arbitrary: b) (simp, case_tac b, simp_all)

lemma dot_uminus_right: "dot a (map uminus b) = - dot a b"
  unfolding dot_def
  by (induction a arbitrary: b) (simp, case_tac b, simp_all)

lemma dot_sub_swap: "dot (sub a b) (sub a b) = dot (sub b a) (sub b a)"
  unfolding dot_def sub_def
  by (induction a arbitrary: b) (simp, case_tac b, simp_all add: algebra_simps)

lemma vdist_commute: "vdist p q = vdist q p"
  by (simp add: vdist_def dot_sub_swap)

lemma fst_swap_candidate: "fst (swap_candidate c) = fst c"
  by (simp add: swap_candidate_def split: prod.splits)

lemma endpoint_candidates_swap:
  "endpoint_candidates eps Q1 Q2 P1 P2 =
     [swap_candidate (endpoint_candidates eps P1 P2 Q1 Q2 ! 2),
      swap_candidate (endpoint_candidates eps P1 P2 Q1 Q2 ! 3),
      swap_candidate (endpoint_candidates eps P1 P2 Q1 Q2 ! 0),
      swap_candidate (endpoint_candidates eps P1 P2 Q1 Q2 ! 1)]"
  by (simp add: endpoint_candidates_def swap_candidate_def vdist_commute)

lemma result_of_swap:
  "result_of tq1 tq2 tp1 tp2 (swap_candidate c) = swap_result (result_of tp1 tp2 tq1 tq2 c)"
  by (simp add: result_of_def swap_candidate_def swap_result_def time_calculations_def split: prod.splits)

lemma pick4_swap:
  assumes "min (fst A) (fst B) = min (fst C) (fst D) \<Longrightarrow>
      (if fst B < fst A then B else A) = (if fst D < fst C then D else C)"
  shows "pick None [swap_candidate C, swap_candidate D, swap_candidate A, swap_candidate B] =
      map_option swap_candidate (pick None [A, B, C, D])"
proof -
  consider "min (fst A) (fst B) < min (fst C) (fst D)" | "min (fst C) (fst D) < min (fst A) (fst B)"
    | "min (fst A) (fst B) = min (fst C) (fst D)"
    by linarith
  then show ?thesis
  proof cases
    case 1
    then show ?thesis
      by (auto simp: pick_Cons pick_Nil lt_best_simps fst_swap_candidate min_def split: if_splits)
  next
    case 2
    then show ?thesis
      by (auto simp: pick_Cons pick_Nil lt_best_simps fst_swap_candidate min_def split: if_splits)
  next
    case 3
    from assms [OF 3] 3 show ?thesis
      by (auto simp: pick_Cons pick_Nil lt_best_simps fst_swap_candidate min_def split: if_splits)
  qed
qed

lemma line_parameters_swap:
  assumes "0 \<le> eps"
    and "eps < \<bar>- dot (sub P2 P1) (sub P2 P1) * dot (sub Q2 Q1) (sub Q2 Q1)
              + dot (sub P2 P1) (sub Q2 Q1) * dot (sub P2 P1) (sub Q2 Q1)\<bar>"
    and "line_parameters eps P1 P2 Q1 Q2 = Inr (s, t)"
  shows "line_parameters eps Q1 Q2 P1 P2 = Inr (t, s)"
proof -
  let ?u = "sub P2 P1" and ?v = "sub Q2 Q1" and ?w = "sub Q1 P1"
  have w: "sub P1 Q1 = map uminus ?w"
    by (rule sub_swap)
  have D: "- dot ?v ?v * dot ?u ?u + dot ?v ?u * dot ?v ?u = - dot ?u ?u * dot ?v ?v + dot ?u ?v * dot ?u ?v"
    by (simp add: dot_commute [of ?v ?u])
  from assms(1,2) have nz: "- dot ?u ?u * dot ?v ?v + dot ?u ?v * dot ?u ?v \<noteq> 0"
    by auto
  from assms(3) assms(2) nz have st:
    "s = (dot ?u ?v * dot ?v ?w - dot ?v ?v * dot ?u ?w) / (- dot ?u ?u * dot ?v ?v + dot ?u ?v * dot ?u ?v)"
    "t = (dot ?u ?u * dot ?v ?w - dot ?u ?v * dot ?u ?w) / (- dot ?u ?u * dot ?v ?v + dot ?u ?v * dot ?u ?v)"
    by (auto simp: line_parameters_def Let_def py_div_def split: if_splits)
  show ?thesis
    unfolding line_parameters_def Let_def w dot_uminus_right D dot_commute [of ?v ?u]
    using assms(2) nz by (simp add: py_div_def st algebra_simps)
qed

lemma quad1_min:
  fixes \<alpha> \<beta> x :: real
  assumes "0 < \<alpha>" "0 \<le> x" "x \<le> 1"
  shows "\<alpha> * clamp (\<beta> / \<alpha>) * clamp (\<beta> / \<alpha>) - 2 * \<beta> * clamp (\<beta> / \<alpha>) \<le> \<alpha> * x * x - 2 * \<beta> * x"
    and "\<alpha> * clamp (\<beta> / \<alpha>) * clamp (\<beta> / \<alpha>) - 2 * \<beta> * clamp (\<beta> / \<alpha>) = \<alpha> * x * x - 2 * \<beta> * x
          \<Longrightarrow> x = clamp (\<beta> / \<alpha>)"
proof -
  consider "\<beta> / \<alpha> < 0" | "1 < \<beta> / \<alpha>" | "0 \<le> \<beta> / \<alpha>" "\<beta> / \<alpha> \<le> 1"
    by linarith
  then have "\<alpha> * clamp (\<beta> / \<alpha>) * clamp (\<beta> / \<alpha>) - 2 * \<beta> * clamp (\<beta> / \<alpha>) \<le> \<alpha> * x * x - 2 * \<beta> * x \<and>
     (\<alpha> * clamp (\<beta> / \<alpha>) * clamp (\<beta> / \<alpha>) - 2 * \<beta> * clamp (\<beta> / \<alpha>) = \<alpha> * x * x - 2 * \<beta> * x
          \<longrightarrow> x = clamp (\<beta> / \<alpha>))"
  proof cases
    case 1
    then have b: "\<beta> < 0"
      using assms(1) by (simp add: divide_less_0_iff)
    have c0: "clamp (\<beta> / \<alpha>) = 0"
      using 1 by (simp add: clamp_def)
    have f: "\<alpha> * x * x - 2 * \<beta> * x = x * (\<alpha> * x - 2 * \<beta>)"
      by (simp add: algebra_simps)
    have pos: "0 < \<alpha> * x - 2 * \<beta>"
      using b assms(1,2) by (smt (verit) mult_nonneg_nonneg)
    have "0 \<le> x * (\<alpha> * x - 2 * \<beta>)"
      using assms(2) pos by simp
    moreover have "x * (\<alpha> * x - 2 * \<beta>) = 0 \<longrightarrow> x = 0"
      using pos by simp
    ultimately show ?thesis
      unfolding c0 f by simp
  next
    case 2
    then have b: "\<alpha> < \<beta>"
      using assms(1) by (simp add: less_divide_eq)
    have c1: "clamp (\<beta> / \<alpha>) = 1"
      using 2 by (simp add: clamp_def)
    have f: "(\<alpha> * x * x - 2 * \<beta> * x) - (\<alpha> * 1 * 1 - 2 * \<beta> * 1) = (1 - x) * (2 * \<beta> - \<alpha> * (x + 1))"
      by (simp add: algebra_simps)
    have "\<alpha> * (x + 1) \<le> \<alpha> * 2"
      using assms(1,3) by (intro mult_left_mono) simp_all
    then have pos: "0 < 2 * \<beta> - \<alpha> * (x + 1)"
      using b by linarith
    have "0 \<le> (1 - x) * (2 * \<beta> - \<alpha> * (x + 1))"
      using assms(3) pos by simp
    moreover have "(1 - x) * (2 * \<beta> - \<alpha> * (x + 1)) = 0 \<longrightarrow> x = 1"
      using pos by simp
    ultimately show ?thesis
      unfolding c1 using f by (smt (verit))
  next
    case 3
    have cx: "clamp (\<beta> / \<alpha>) = \<beta> / \<alpha>"
      using 3 by (simp add: clamp_id)
    have f: "(\<alpha> * x * x - 2 * \<beta> * x) - (\<alpha> * (\<beta> / \<alpha>) * (\<beta> / \<alpha>) - 2 * \<beta> * (\<beta> / \<alpha>)) = \<alpha> * ((x - \<beta> / \<alpha>) * (x - \<beta> / \<alpha>))"
      using assms(1) by (simp add: field_simps)
    have "0 \<le> \<alpha> * ((x - \<beta> / \<alpha>) * (x - \<beta> / \<alpha>))"
      using assms(1) by simp
    moreover have "\<alpha> * ((x - \<beta> / \<alpha>) * (x - \<beta> / \<alpha>)) = 0 \<longrightarrow> x = \<beta> / \<alpha>"
      using assms(1) by simp
    ultimately show ?thesis
      unfolding cx using f by (smt (verit))
  qed
  then show "\<alpha> * clamp (\<beta> / \<alpha>) * clamp (\<beta> / \<alpha>) - 2 * \<beta> * clamp (\<beta> / \<alpha>) \<le> \<alpha> * x * x - 2 * \<beta> * x"
    and "\<alpha> * clamp (\<beta> / \<alpha>) * clamp (\<beta> / \<alpha>) - 2 * \<beta> * clamp (\<beta> / \<alpha>) = \<alpha> * x * x - 2 * \<beta> * x
          \<Longrightarrow> x = clamp (\<beta> / \<alpha>)"
    by simp_all
qed

lemma exit1:
  fixes x xs :: real
  assumes "0 \<le> x" "x \<le> 1"
  shows "\<exists>l. 0 \<le> l \<and> l \<le> 1 \<and> (\<forall>k. 0 \<le> k \<and> k \<le> l \<longrightarrow> 0 \<le> x + k * (xs - x) \<and> x + k * (xs - x) \<le> 1) \<and>
      (l < 1 \<longrightarrow> x + l * (xs - x) = 0 \<or> x + l * (xs - x) = 1) \<and>
      (\<not> (0 \<le> xs \<and> xs \<le> 1) \<longrightarrow> l < 1)"
proof -
  consider "xs < 0" | "1 < xs" | "0 \<le> xs" "xs \<le> 1"
    by linarith
  then show ?thesis
  proof cases
    case 1
    let ?l = "x / (x - xs)"
    have p: "0 < x - xs"
      using 1 assms by linarith
    have l: "0 \<le> ?l" "?l < 1"
      using p assms 1 by (simp_all add: field_simps)
    have e: "x + ?l * (xs - x) = 0"
      using p by (simp add: field_simps)
    have "0 \<le> x + k * (xs - x) \<and> x + k * (xs - x) \<le> 1" if "0 \<le> k" "k \<le> ?l" for k
    proof -
      have "k * (x - xs) \<le> ?l * (x - xs)"
        using that(2) p by (intro mult_right_mono) simp_all
      also have "\<dots> = x"
        using p by simp
      finally have "k * (x - xs) \<le> x" .
      moreover have "0 \<le> k * (x - xs)"
        using that(1) p by simp
      ultimately show ?thesis
        using assms by (simp add: algebra_simps)
    qed
    then show ?thesis
      using l e by (intro exI [of _ ?l]) auto
  next
    case 2
    let ?l = "(1 - x) / (xs - x)"
    have p: "0 < xs - x"
      using 2 assms by linarith
    have l: "0 \<le> ?l" "?l < 1"
      using p assms 2 by (simp_all add: field_simps)
    have e: "x + ?l * (xs - x) = 1"
      using p by (simp add: field_simps)
    have "0 \<le> x + k * (xs - x) \<and> x + k * (xs - x) \<le> 1" if "0 \<le> k" "k \<le> ?l" for k
    proof -
      have "k * (xs - x) \<le> ?l * (xs - x)"
        using that(2) p by (intro mult_right_mono) simp_all
      also have "\<dots> = 1 - x"
        using p by simp
      finally have "k * (xs - x) \<le> 1 - x" .
      moreover have "0 \<le> k * (xs - x)"
        using that(1) p by simp
      ultimately show ?thesis
        using assms by (simp add: algebra_simps)
    qed
    then show ?thesis
      using l e by (intro exI [of _ ?l]) auto
  next
    case 3
    have "0 \<le> x + k * (xs - x) \<and> x + k * (xs - x) \<le> 1" if "0 \<le> k" "k \<le> 1" for k
    proof -
      have e: "x + k * (xs - x) = x - k * x + k * xs"
        by (simp add: algebra_simps)
      have 1: "k * x \<le> 1 * x"
        using that assms by (intro mult_right_mono) simp_all
      have 2: "0 \<le> k * xs" "k * xs \<le> k * 1"
        using that 3 by (simp, intro mult_left_mono, simp_all)
      have "0 \<le> (1 - k) * (1 - x)"
        using that assms by simp
      then have 4: "x + k - 1 \<le> k * x"
        by (simp add: algebra_simps)
      show ?thesis
        unfolding e using 1 2 4 by simp
    qed
    then show ?thesis
      using 3 by (intro exI [of _ 1]) auto
  qed
qed

lemma exit2:
  fixes s t ss ts :: real
  assumes "0 \<le> s" "s \<le> 1" "0 \<le> t" "t \<le> 1" "\<not> (0 \<le> ss \<and> ss \<le> 1 \<and> 0 \<le> ts \<and> ts \<le> 1)"
  shows "\<exists>l. 0 \<le> l \<and> l \<le> 1 \<and> on_boundary (s + l * (ss - s)) (t + l * (ts - t))"
proof -
  from exit1 [OF assms(1,2), of ss] obtain l1 where l1: "0 \<le> l1" "l1 \<le> 1"
    "\<And>k. 0 \<le> k \<Longrightarrow> k \<le> l1 \<Longrightarrow> 0 \<le> s + k * (ss - s) \<and> s + k * (ss - s) \<le> 1"
    "l1 < 1 \<Longrightarrow> s + l1 * (ss - s) = 0 \<or> s + l1 * (ss - s) = 1"
    "\<not> (0 \<le> ss \<and> ss \<le> 1) \<Longrightarrow> l1 < 1"
    by blast
  from exit1 [OF assms(3,4), of ts] obtain l2 where l2: "0 \<le> l2" "l2 \<le> 1"
    "\<And>k. 0 \<le> k \<Longrightarrow> k \<le> l2 \<Longrightarrow> 0 \<le> t + k * (ts - t) \<and> t + k * (ts - t) \<le> 1"
    "l2 < 1 \<Longrightarrow> t + l2 * (ts - t) = 0 \<or> t + l2 * (ts - t) = 1"
    "\<not> (0 \<le> ts \<and> ts \<le> 1) \<Longrightarrow> l2 < 1"
    by blast
  let ?l = "min l1 l2"
  have lt: "?l < 1"
    using assms(5) l1(5) l2(5) by (auto simp: min_def)
  have "0 \<le> ?l" "?l \<le> l1" "?l \<le> l2"
    using l1(1) l2(1) by simp_all
  then have K: "0 \<le> s + ?l * (ss - s) \<and> s + ?l * (ss - s) \<le> 1"
    "0 \<le> t + ?l * (ts - t) \<and> t + ?l * (ts - t) \<le> 1"
    using l1(3) l2(3) by blast+
  have "s + ?l * (ss - s) = 0 \<or> s + ?l * (ss - s) = 1 \<or> t + ?l * (ts - t) = 0 \<or> t + ?l * (ts - t) = 1"
  proof (cases "l1 \<le> l2")
    case True
    then have "?l = l1" by simp
    then show ?thesis using l1(4) lt by auto
  next
    case False
    then have "?l = l2" by simp
    then show ?thesis using l2(4) lt by auto
  qed
  then show ?thesis
    using K \<open>0 \<le> ?l\<close> lt unfolding on_boundary_def
    by (intro exI [of _ ?l]) auto
qed

lemma quad_centre:
  assumes "a * ss - b * ts = d" "b * ss - c * ts = e"
  shows "quad a b c d e g s t = quad a b c d e g ss ts + qf a b c (s - ss) (t - ts)"
  unfolding quad_def qf_def assms [symmetric] by (simp add: algebra_simps)

lemma qf_pos:
  assumes "0 < a" "b * b < a * c"
  shows "0 \<le> qf a b c x y" "qf a b c x y = 0 \<Longrightarrow> x = 0 \<and> y = 0"
proof -
  have e: "a * qf a b c x y = (a * x - b * y) * (a * x - b * y) + (a * c - b * b) * (y * y)"
    by (simp add: qf_def algebra_simps)
  have n: "0 \<le> (a * x - b * y) * (a * x - b * y)" "0 \<le> (a * c - b * b) * (y * y)"
    using assms(2) by simp_all
  then have "0 \<le> a * qf a b c x y"
    unfolding e by linarith
  then show "0 \<le> qf a b c x y"
    using assms(1) by (simp add: zero_le_mult_iff)
  assume "qf a b c x y = 0"
  then have "(a * x - b * y) * (a * x - b * y) + (a * c - b * b) * (y * y) = 0"
    using e by simp
  with n have z: "(a * x - b * y) * (a * x - b * y) = 0" "(a * c - b * b) * (y * y) = 0"
    by linarith+
  from z(2) assms(2) have y: "y = 0"
    by simp
  with z(1) assms(1) have "x = 0"
    by simp
  with y show "x = 0 \<and> y = 0"
    by simp
qed

lemma qf_scale: "qf a b c (k * x) (k * y) = k * k * qf a b c x y"
  by (simp add: qf_def algebra_simps)

lemma quad_ray:
  assumes "0 < a" "b * b < a * c" "a * ss - b * ts = d" "b * ss - c * ts = e" "0 \<le> l" "l \<le> 1"
  shows "quad a b c d e g (s + l * (ss - s)) (t + l * (ts - t)) \<le> quad a b c d e g s t"
proof -
  have "qf a b c (s + l * (ss - s) - ss) (t + l * (ts - t) - ts) = qf a b c ((1 - l) * (s - ss)) ((1 - l) * (t - ts))"
    by (simp add: algebra_simps)
  also have "\<dots> = (1 - l) * (1 - l) * qf a b c (s - ss) (t - ts)"
    by (rule qf_scale)
  also have "\<dots> \<le> 1 * qf a b c (s - ss) (t - ts)"
  proof (rule mult_right_mono)
    have "(1 - l) * (1 - l) \<le> 1 * 1"
      using assms(5,6) by (intro mult_mono) simp_all
    then show "(1 - l) * (1 - l) \<le> 1" by simp
    show "0 \<le> qf a b c (s - ss) (t - ts)"
      by (rule qf_pos(1) [OF assms(1,2)])
  qed
  finally show ?thesis
    unfolding quad_centre [OF assms(3,4), of g s t]
      quad_centre [OF assms(3,4), of g "s + l * (ss - s)" "t + l * (ts - t)"]
    by simp
qed

lemma quad_mid:
  "quad a b c d e g ((s1 + s2) / 2) ((t1 + t2) / 2) =
     (quad a b c d e g s1 t1 + quad a b c d e g s2 t2) / 2 - qf a b c ((s1 - s2) / 2) ((t1 - t2) / 2)"
  by (simp add: quad_def qf_def field_simps)

lemma boundary_min_unique:
  assumes "0 < a" "b * b < a * c" "a * ss - b * ts = d" "b * ss - c * ts = e"
    and "\<not> (0 \<le> ss \<and> ss \<le> 1 \<and> 0 \<le> ts \<and> ts \<le> 1)"
    and "0 \<le> s1" "s1 \<le> 1" "0 \<le> t1" "t1 \<le> 1" "0 \<le> s2" "s2 \<le> 1" "0 \<le> t2" "t2 \<le> 1"
    and "quad a b c d e g s1 t1 = M" "quad a b c d e g s2 t2 = M"
    and "\<And>s t. on_boundary s t \<Longrightarrow> M \<le> quad a b c d e g s t"
  shows "s1 = s2 \<and> t1 = t2"
proof (rule ccontr)
  assume ne: "\<not> (s1 = s2 \<and> t1 = t2)"
  let ?sm = "(s1 + s2) / 2" and ?tm = "(t1 + t2) / 2"
  have "qf a b c ((s1 - s2) / 2) ((t1 - t2) / 2) \<noteq> 0"
    using qf_pos(2) [OF assms(1,2), of "(s1 - s2) / 2" "(t1 - t2) / 2"] ne by auto
  with qf_pos(1) [OF assms(1,2), of "(s1 - s2) / 2" "(t1 - t2) / 2"]
  have "0 < qf a b c ((s1 - s2) / 2) ((t1 - t2) / 2)"
    by linarith
  then have lt: "quad a b c d e g ?sm ?tm < M"
    unfolding quad_mid assms(14,15) by simp
  have K: "0 \<le> ?sm" "?sm \<le> 1" "0 \<le> ?tm" "?tm \<le> 1"
    using assms(6-13) by simp_all
  from exit2 [OF K assms(5)] obtain l where l: "0 \<le> l" "l \<le> 1"
    "on_boundary (?sm + l * (ss - ?sm)) (?tm + l * (ts - ?tm))"
    by blast
  from quad_ray [OF assms(1-4) l(1,2), of g ?sm ?tm] assms(16) [OF l(3)] lt
  show False
    by linarith
qed

lemma cross_tie:
  fixes a b c d e g eps :: real
  assumes eps: "0 \<le> eps" "eps \<le> 1" and nn: "0 \<le> a" "0 \<le> c" and D: "eps < a * c - b * b"
    and st: "a * ss - b * ts = d" "b * ss - c * ts = e"
    and out: "\<not> (0 \<le> ss \<and> ss \<le> 1 \<and> 0 \<le> ts \<and> ts \<le> 1)"
    and tA: "tA = clamp (if c > eps then (- e) / c else 0)"
    and tB: "tB = clamp (if c > eps then (b - e) / c else 0)"
    and sC: "sC = clamp (if a > eps then d / a else 0)"
    and sD: "sD = clamp (if a > eps then (b + d) / a else 0)"
    and tie: "min (quad a b c d e g 0 tA) (quad a b c d e g 1 tB) =
              min (quad a b c d e g sC 0) (quad a b c d e g sD 1)"
  shows "(if quad a b c d e g 1 tB < quad a b c d e g 0 tA then (1, tB) else (0, tA)) =
         (if quad a b c d e g sD 1 < quad a b c d e g sC 0 then (sD, 1) else (sC, 0))"
proof -
  let ?F = "quad a b c d e g"
  have ac: "eps < a * c"
    using D by (smt (verit) zero_le_square)
  have rng: "0 \<le> tA" "tA \<le> 1" "0 \<le> tB" "tB \<le> 1" "0 \<le> sC" "sC \<le> 1" "0 \<le> sD" "sD \<le> 1"
    unfolding tA tB sC sD by (simp_all add: clamp_range)
  have edge_s0: "?F 0 tA \<le> ?F 0 t \<and> (?F 0 tA = ?F 0 t \<longrightarrow> t = tA)" if "eps < c" "0 \<le> t" "t \<le> 1" for t
  proof -
    have c: "0 < c" using that(1) eps(1) by linarith
    from quad1_min [OF c that(2,3), of "- e"] show ?thesis
      unfolding tA quad_def using that(1) by (simp add: algebra_simps)
  qed
  have edge_s1: "?F 1 tB \<le> ?F 1 t \<and> (?F 1 tB = ?F 1 t \<longrightarrow> t = tB)" if "eps < c" "0 \<le> t" "t \<le> 1" for t
  proof -
    have c: "0 < c" using that(1) eps(1) by linarith
    from quad1_min [OF c that(2,3), of "b - e"] show ?thesis
      unfolding tB quad_def using that(1) by (simp add: algebra_simps)
  qed
  have edge_t0: "?F sC 0 \<le> ?F s 0 \<and> (?F sC 0 = ?F s 0 \<longrightarrow> s = sC)" if "eps < a" "0 \<le> s" "s \<le> 1" for s
  proof -
    have a: "0 < a" using that(1) eps(1) by linarith
    from quad1_min [OF a that(2,3), of d] show ?thesis
      unfolding sC quad_def using that(1) by (simp add: algebra_simps)
  qed
  have edge_t1: "?F sD 1 \<le> ?F s 1 \<and> (?F sD 1 = ?F s 1 \<longrightarrow> s = sD)" if "eps < a" "0 \<le> s" "s \<le> 1" for s
  proof -
    have a: "0 < a" using that(1) eps(1) by linarith
    from quad1_min [OF a that(2,3), of "b + d"] show ?thesis
      unfolding sD quad_def using that(1) by (simp add: algebra_simps)
  qed
  consider "eps < a" "eps < c" | "a \<le> eps" | "c \<le> eps" "eps < a"
    by linarith
  then show ?thesis
  proof cases
    case 1
    define M where "M = min (?F 0 tA) (?F 1 tB)"
    have a: "0 < a" and bb: "b * b < a * c"
      using 1 eps D by linarith+
    have bnd: "M \<le> ?F s t" if "on_boundary s t" for s t
    proof -
      from that have K: "0 \<le> s" "s \<le> 1" "0 \<le> t" "t \<le> 1" and "s = 0 \<or> s = 1 \<or> t = 0 \<or> t = 1"
        by (simp_all add: on_boundary_def)
      then show ?thesis
        using edge_s0 [OF 1(2) K(3,4)] edge_s1 [OF 1(2) K(3,4)] edge_t0 [OF 1(1) K(1,2)]
          edge_t1 [OF 1(1) K(1,2)] tie
        unfolding M_def by (elim disjE) (simp_all add: min_def split: if_splits)
    qed
    obtain s1 t1 :: real where z1: "(s1, t1) = (if ?F 1 tB < ?F 0 tA then (1, tB) else (0, tA))"
      by (metis surj_pair)
    obtain s2 t2 :: real where z2: "(s2, t2) = (if ?F sD 1 < ?F sC 0 then (sD, 1) else (sC, 0))"
      by (metis surj_pair)
    have K1: "0 \<le> s1" "s1 \<le> 1" "0 \<le> t1" "t1 \<le> 1"
      using z1 rng by (auto split: if_splits)
    have K2: "0 \<le> s2" "s2 \<le> 1" "0 \<le> t2" "t2 \<le> 1"
      using z2 rng by (auto split: if_splits)
    have F1: "?F s1 t1 = M"
      using z1 unfolding M_def by (auto simp: min_def split: if_splits)
    have F2: "?F s2 t2 = M"
      using z2 tie unfolding M_def by (auto simp: min_def split: if_splits)
    from boundary_min_unique [OF a bb st out K1 K2 F1 F2 bnd] have "(s1, t1) = (s2, t2)"
      by simp
    then show ?thesis
      unfolding z1 z2 .
  next
    case 2
    have c: "eps < c"
    proof (rule ccontr)
      assume "\<not> eps < c"
      then have "a * c \<le> eps * eps"
        using 2 nn by (intro mult_mono) simp_all
      also have "eps * eps \<le> eps * 1"
        using eps by (intro mult_left_mono) simp_all
      finally show False using ac by simp
    qed
    have s0: "sC = 0" "sD = 0"
      using 2 unfolding sC sD by (simp_all add: clamp_def)
    have e0: "?F 0 tA \<le> ?F 0 0" "?F 0 tA = ?F 0 0 \<Longrightarrow> tA = 0"
      and e1: "?F 0 tA \<le> ?F 0 1" "?F 0 tA = ?F 0 1 \<Longrightarrow> tA = 1"
      using edge_s0 [OF c, of 0] edge_s0 [OF c, of 1] by simp_all
    have tie': "min (?F 0 tA) (?F 1 tB) = min (?F 0 0) (?F 0 1)"
      using tie unfolding s0 .
    have nlt: "\<not> ?F 1 tB < ?F 0 tA"
      using e0(1) e1(1) tie' by linarith
    then have m: "?F 0 tA = min (?F 0 0) (?F 0 1)"
      using tie' by linarith
    show ?thesis
    proof (cases "?F 0 1 < ?F 0 0")
      case True
      then have "tA = 1" using m e1(2) by linarith
      then show ?thesis unfolding s0 using nlt True by simp
    next
      case False
      then have "tA = 0" using m e0(2) by linarith
      then show ?thesis unfolding s0 using nlt False by simp
    qed
  next
    case 3
    have t0: "tA = 0" "tB = 0"
      using 3 unfolding tA tB by (simp_all add: clamp_def)
    have e0: "?F sC 0 \<le> ?F 0 0" "?F sC 0 = ?F 0 0 \<Longrightarrow> sC = 0"
      and e1: "?F sC 0 \<le> ?F 1 0" "?F sC 0 = ?F 1 0 \<Longrightarrow> sC = 1"
      using edge_t0 [OF 3(2), of 0] edge_t0 [OF 3(2), of 1] by simp_all
    have tie': "min (?F 0 0) (?F 1 0) = min (?F sC 0) (?F sD 1)"
      using tie unfolding t0 .
    have nlt: "\<not> ?F sD 1 < ?F sC 0"
      using e0(1) e1(1) tie' by linarith
    then have m: "?F sC 0 = min (?F 0 0) (?F 1 0)"
      using tie' by linarith
    show ?thesis
    proof (cases "?F 1 0 < ?F 0 0")
      case True
      then have "sC = 1" using m e1(2) by linarith
      then show ?thesis unfolding t0 using nlt True by simp
    next
      case False
      then have "sC = 0" using m e0(2) by linarith
      then show ?thesis unfolding t0 using nlt False by simp
    qed
  qed
qed

lemma vec3: "length (v :: vec) = 3 \<Longrightarrow> \<exists>x y z. v = [x, y, z]"
  by (cases v; simp; rename_tac a1 v1; case_tac v1; simp; rename_tac a2 v2; case_tac v2; simp)

lemma cauchy3:
  assumes "length u = 3" "length v = 3"
  shows "dot u v * dot u v \<le> dot u u * dot v v"
proof -
  obtain u1 u2 u3 where u: "u = [u1, u2, u3]" using vec3 [OF assms(1)] by blast
  obtain v1 v2 v3 where v: "v = [v1, v2, v3]" using vec3 [OF assms(2)] by blast
  have "dot u u * dot v v - dot u v * dot u v =
      (u1 * v2 - u2 * v1) * (u1 * v2 - u2 * v1) + (u1 * v3 - u3 * v1) * (u1 * v3 - u3 * v1)
      + (u2 * v3 - u3 * v2) * (u2 * v3 - u3 * v2)"
    unfolding u v by (simp add: dot_def algebra_simps)
  moreover have "0 \<le> (u1 * v2 - u2 * v1) * (u1 * v2 - u2 * v1) + (u1 * v3 - u3 * v1) * (u1 * v3 - u3 * v1)
      + (u2 * v3 - u3 * v2) * (u2 * v3 - u3 * v2)"
    by (intro add_nonneg_nonneg) simp_all
  ultimately show ?thesis by linarith
qed

lemma sqd_params:
  assumes "length P1 = 3" "length P2 = 3" "length Q1 = 3" "length Q2 = 3"
  shows "dot (sub (add P1 (scale (sub P2 P1) s)) (add Q1 (scale (sub Q2 Q1) t)))
             (sub (add P1 (scale (sub P2 P1) s)) (add Q1 (scale (sub Q2 Q1) t))) =
         quad (dot (sub P2 P1) (sub P2 P1)) (dot (sub P2 P1) (sub Q2 Q1)) (dot (sub Q2 Q1) (sub Q2 Q1))
              (dot (sub P2 P1) (sub Q1 P1)) (dot (sub Q2 Q1) (sub Q1 P1)) (dot (sub Q1 P1) (sub Q1 P1)) s t"
proof -
  obtain p1 p2 p3 where P1: "P1 = [p1, p2, p3]" using vec3 [OF assms(1)] by blast
  obtain p4 p5 p6 where P2: "P2 = [p4, p5, p6]" using vec3 [OF assms(2)] by blast
  obtain q1 q2 q3 where Q1: "Q1 = [q1, q2, q3]" using vec3 [OF assms(3)] by blast
  obtain q4 q5 q6 where Q2: "Q2 = [q4, q5, q6]" using vec3 [OF assms(4)] by blast
  show ?thesis
    unfolding P1 P2 Q1 Q2 by (simp add: dot_def sub_def add_def scale_def quad_def algebra_simps)
qed

lemma proj_scalars:
  assumes "length P1 = 3" "length P2 = 3" "length Q1 = 3" "length Q2 = 3"
  shows "dot (sub P1 Q1) (sub Q2 Q1) = - dot (sub Q2 Q1) (sub Q1 P1)"
    and "dot (sub P2 Q1) (sub Q2 Q1) = dot (sub P2 P1) (sub Q2 Q1) - dot (sub Q2 Q1) (sub Q1 P1)"
    and "dot (sub Q1 P1) (sub P2 P1) = dot (sub P2 P1) (sub Q1 P1)"
    and "dot (sub Q2 P1) (sub P2 P1) = dot (sub P2 P1) (sub Q2 Q1) + dot (sub P2 P1) (sub Q1 P1)"
proof -
  obtain p1 p2 p3 where P1: "P1 = [p1, p2, p3]" using vec3 [OF assms(1)] by blast
  obtain p4 p5 p6 where P2: "P2 = [p4, p5, p6]" using vec3 [OF assms(2)] by blast
  obtain q1 q2 q3 where Q1: "Q1 = [q1, q2, q3]" using vec3 [OF assms(3)] by blast
  obtain q4 q5 q6 where Q2: "Q2 = [q4, q5, q6]" using vec3 [OF assms(4)] by blast
  show "dot (sub P1 Q1) (sub Q2 Q1) = - dot (sub Q2 Q1) (sub Q1 P1)"
    and "dot (sub P2 Q1) (sub Q2 Q1) = dot (sub P2 P1) (sub Q2 Q1) - dot (sub Q2 Q1) (sub Q1 P1)"
    and "dot (sub Q1 P1) (sub P2 P1) = dot (sub P2 P1) (sub Q1 P1)"
    and "dot (sub Q2 P1) (sub P2 P1) = dot (sub P2 P1) (sub Q2 Q1) + dot (sub P2 P1) (sub Q1 P1)"
    unfolding P1 P2 Q1 Q2 by (simp_all add: dot_def sub_def algebra_simps)
qed

lemma stationary_scalars:
  fixes a b c d e :: real
  assumes "D = - a * c + b * b" "D \<noteq> 0" "s = (b * e - c * d) / D" "t = (a * e - b * d) / D"
  shows "a * s - b * t = d" "b * s - c * t = e"
proof -
  have sD: "s * D = b * e - c * d" and tD: "t * D = a * e - b * d"
    using assms(2) unfolding assms(3,4) by simp_all
  have "(a * s - b * t) * D = a * (s * D) - b * (t * D)"
    by (simp add: algebra_simps)
  also have "\<dots> = a * (b * e - c * d) - b * (a * e - b * d)"
    by (simp only: sD tD)
  also have "\<dots> = d * D"
    unfolding assms(1) by (simp add: algebra_simps)
  finally show "a * s - b * t = d"
    using assms(2) by simp
  have "(b * s - c * t) * D = b * (s * D) - c * (t * D)"
    by (simp add: algebra_simps)
  also have "\<dots> = b * (b * e - c * d) - c * (a * e - b * d)"
    by (simp only: sD tD)
  also have "\<dots> = e * D"
    unfolding assms(1) by (simp add: algebra_simps)
  finally show "b * s - c * t = e"
    using assms(2) by simp
qed

lemma line_parameters_stationary:
  assumes "0 \<le> eps"
    and "eps < \<bar>- dot (sub P2 P1) (sub P2 P1) * dot (sub Q2 Q1) (sub Q2 Q1)
              + dot (sub P2 P1) (sub Q2 Q1) * dot (sub P2 P1) (sub Q2 Q1)\<bar>"
    and "line_parameters eps P1 P2 Q1 Q2 = Inr (s, t)"
  shows "dot (sub P2 P1) (sub P2 P1) * s - dot (sub P2 P1) (sub Q2 Q1) * t = dot (sub P2 P1) (sub Q1 P1)"
    and "dot (sub P2 P1) (sub Q2 Q1) * s - dot (sub Q2 Q1) (sub Q2 Q1) * t = dot (sub Q2 Q1) (sub Q1 P1)"
proof -
  let ?a = "dot (sub P2 P1) (sub P2 P1)" and ?b = "dot (sub P2 P1) (sub Q2 Q1)"
    and ?c = "dot (sub Q2 Q1) (sub Q2 Q1)" and ?d = "dot (sub P2 P1) (sub Q1 P1)"
    and ?e = "dot (sub Q2 Q1) (sub Q1 P1)"
  from assms(1,2) have nz: "- ?a * ?c + ?b * ?b \<noteq> 0"
    by auto
  from assms(3) assms(2) nz have st:
    "s = (?b * ?e - ?c * ?d) / (- ?a * ?c + ?b * ?b)"
    "t = (?a * ?e - ?b * ?d) / (- ?a * ?c + ?b * ?b)"
    by (auto simp: line_parameters_def Let_def py_div_def split: if_splits)
  show "?a * s - ?b * t = ?d" "?b * s - ?c * t = ?e"
    by (rule stationary_scalars [OF refl nz st])+
qed

lemma vdist_params:
  assumes "length P1 = 3" "length P2 = 3" "length Q1 = 3" "length Q2 = 3"
  shows "vdist (add P1 (scale (sub P2 P1) s)) (add Q1 (scale (sub Q2 Q1) t)) =
         sqrt (quad (dot (sub P2 P1) (sub P2 P1)) (dot (sub P2 P1) (sub Q2 Q1)) (dot (sub Q2 Q1) (sub Q2 Q1))
              (dot (sub P2 P1) (sub Q1 P1)) (dot (sub Q2 Q1) (sub Q1 P1)) (dot (sub Q1 P1) (sub Q1 P1)) s t)"
  unfolding vdist_def sqd_params [OF assms] ..

lemma min_sqrt: "min (sqrt x) (sqrt y) = sqrt (min x y)"
  by (simp add: min_def)

lemma candidates_cross_tie:
  assumes eps: "0 \<le> eps" "eps \<le> 1"
    and len: "length P1 = 3" "length P2 = 3" "length Q1 = 3" "length Q2 = 3"
    and D: "eps < \<bar>- dot (sub P2 P1) (sub P2 P1) * dot (sub Q2 Q1) (sub Q2 Q1)
              + dot (sub P2 P1) (sub Q2 Q1) * dot (sub P2 P1) (sub Q2 Q1)\<bar>"
    and lp: "line_parameters eps P1 P2 Q1 Q2 = Inr (s, t)"
    and out: "\<not> (0 \<le> s \<and> s \<le> 1 \<and> 0 \<le> t \<and> t \<le> 1)"
    and cs: "cs = endpoint_candidates eps P1 P2 Q1 Q2"
    and tie: "min (fst (cs ! 0)) (fst (cs ! 1)) = min (fst (cs ! 2)) (fst (cs ! 3))"
  shows "(if fst (cs ! 1) < fst (cs ! 0) then cs ! 1 else cs ! 0) =
         (if fst (cs ! 3) < fst (cs ! 2) then cs ! 3 else cs ! 2)"
proof -
  define u v w where "u = sub P2 P1" and "v = sub Q2 Q1" and "w = sub Q1 P1"
  define a b c d e g where "a = dot u u" and "b = dot u v" and "c = dot v v"
    and "d = dot u w" and "e = dot v w" and "g = dot w w"
  note defs = a_def b_def c_def d_def e_def g_def u_def v_def w_def
  define tA tB sC sD where "tA = seg_param eps Q1 Q2 P1" and "tB = seg_param eps Q1 Q2 P2"
    and "sC = seg_param eps P1 P2 Q1" and "sD = seg_param eps P1 P2 Q2"
  let ?F = "quad a b c d e g"
  have lu: "length (sub P2 P1) = 3" "length (sub Q2 Q1) = 3"
    using len by (simp_all add: sub_def)
  have nn: "0 \<le> a" "0 \<le> c"
    unfolding defs by (rule dot_self_nonneg)+
  have "b * b \<le> a * c"
    unfolding defs by (rule cauchy3 [OF lu])
  with D have D': "eps < a * c - b * b"
    unfolding defs by linarith
  have st: "a * s - b * t = d" "b * s - c * t = e"
    unfolding defs by (rule line_parameters_stationary [OF eps(1) D lp])+
  have pA: "tA = clamp (if c > eps then (- e) / c else 0)"
    and pB: "tB = clamp (if c > eps then (b - e) / c else 0)"
    and pC: "sC = clamp (if a > eps then d / a else 0)"
    and pD: "sD = clamp (if a > eps then (b + d) / a else 0)"
    unfolding tA_def tB_def sC_def sD_def seg_param_def proj_scalars [OF len] defs by simp_all
  have P0: "add P1 (scale (sub P2 P1) 0) = P1" and P1': "add P1 (scale (sub P2 P1) 1) = P2"
    and Q0: "add Q1 (scale (sub Q2 Q1) 0) = Q1" and Q1': "add Q1 (scale (sub Q2 Q1) 1) = Q2"
    using len by (simp_all add: add_scale_sub_0 add_scale_sub_1)
  have c0: "cs ! 0 = (sqrt (?F 0 tA), (P1, 0, add Q1 (scale (sub Q2 Q1) tA), tA))"
    using vdist_params [OF len, of 0 tA]
    unfolding cs endpoint_candidates_def seg_point_def tA_def defs P0 by simp
  have c1: "cs ! 1 = (sqrt (?F 1 tB), (P2, 1, add Q1 (scale (sub Q2 Q1) tB), tB))"
    using vdist_params [OF len, of 1 tB]
    unfolding cs endpoint_candidates_def seg_point_def tB_def defs P1' by simp
  have c2: "cs ! 2 = (sqrt (?F sC 0), (add P1 (scale (sub P2 P1) sC), sC, Q1, 0))"
    using vdist_params [OF len, of sC 0]
    unfolding cs endpoint_candidates_def seg_point_def sC_def defs Q0 by simp
  have c3: "cs ! 3 = (sqrt (?F sD 1), (add P1 (scale (sub P2 P1) sD), sD, Q2, 1))"
    using vdist_params [OF len, of sD 1]
    unfolding cs endpoint_candidates_def seg_point_def sD_def defs Q1' by simp
  have tie': "min (?F 0 tA) (?F 1 tB) = min (?F sC 0) (?F sD 1)"
    using tie unfolding c0 c1 c2 c3 by (simp add: min_sqrt)
  from cross_tie [OF eps nn D' st out pA pB pC pD tie']
  have E: "(if ?F 1 tB < ?F 0 tA then (1, tB) else (0, tA)) =
           (if ?F sD 1 < ?F sC 0 then (sD, 1) else (sC, 0))" .
  show ?thesis
  proof (cases "?F 1 tB < ?F 0 tA")
    case B: True
    show ?thesis
    proof (cases "?F sD 1 < ?F sC 0")
      case True
      with E B have "sD = 1" "tB = 1" by simp_all
      then show ?thesis
        unfolding c0 c1 c2 c3 using B True tie' by (simp add: P1' Q1')
    next
      case False
      with E B have "sC = 1" "tB = 0" by simp_all
      then show ?thesis
        unfolding c0 c1 c2 c3 using B False tie' by (simp add: P1' Q0)
    qed
  next
    case A: False
    show ?thesis
    proof (cases "?F sD 1 < ?F sC 0")
      case True
      with E A have "sD = 0" "tA = 1" by simp_all
      then show ?thesis
        unfolding c0 c1 c2 c3 using A True tie' by (simp add: P0 Q1')
    next
      case False
      with E A have "sC = 0" "tA = 0" by simp_all
      then show ?thesis
        unfolding c0 c1 c2 c3 using A False tie' by (simp add: P0 Q0)
    qed
  qed
qed

lemma endpoint_candidates_nths:
  "endpoint_candidates eps P1 P2 Q1 Q2 =
     [endpoint_candidates eps P1 P2 Q1 Q2 ! 0, endpoint_candidates eps P1 P2 Q1 Q2 ! 1,
      endpoint_candidates eps P1 P2 Q1 Q2 ! 2, endpoint_candidates eps P1 P2 Q1 Q2 ! 3]"
  by (simp add: endpoint_candidates_def)

text \<open>
  C7, amended: when the directions of the two segments are not near-parallel, that is
  \<open>|D| > eps\<close> for \<open>D = b * b - a * c\<close>, with a tolerance between 0 and 1 such as the
  default, the call with the two segments swapped returns the same distance, with the two
  closest points and the two mapped times exchanged.
\<close>

theorem swapped_segments_well_conditioned:
  assumes "0 \<le> eps" "eps \<le> 1"
    and "4 \<le> length A1" "4 \<le> length A2" "4 \<le> length B1" "4 \<le> length B2"
    and "eps < \<bar>- dot (sub (take 3 A2) (take 3 A1)) (sub (take 3 A2) (take 3 A1))
                  * dot (sub (take 3 B2) (take 3 B1)) (sub (take 3 B2) (take 3 B1))
                + dot (sub (take 3 A2) (take 3 A1)) (sub (take 3 B2) (take 3 B1))
                  * dot (sub (take 3 A2) (take 3 A1)) (sub (take 3 B2) (take 3 B1))\<bar>"
    and "closest_points_on_segments_in_3D eps A1 A2 B1 B2 = Inr (Pc, Qc, dmin, (t1, t2))"
  shows "closest_points_on_segments_in_3D eps B1 B2 A1 A2 = Inr (Qc, Pc, dmin, (t2, t1))"
proof -
  let ?P1 = "take 3 A1" and ?P2 = "take 3 A2" and ?Q1 = "take 3 B1" and ?Q2 = "take 3 B2"
  let ?cs = "endpoint_candidates eps ?P1 ?P2 ?Q1 ?Q2"
  have len: "length ?P1 = 3" "length ?P2 = 3" "length ?Q1 = 3" "length ?Q2 = 3"
    using assms(3-6) by simp_all
  obtain s t where lp: "line_parameters eps ?P1 ?P2 ?Q1 ?Q2 = Inr (s, t)"
    using line_parameters_total [OF assms(1)] by blast
  have lp': "line_parameters eps ?Q1 ?Q2 ?P1 ?P2 = Inr (t, s)"
    by (rule line_parameters_swap [OF assms(1,7) lp])
  note eq = closest_points_eq [OF assms(1) assms(3-6) lp]
  note eq' = closest_points_eq [OF assms(1) assms(5,6) assms(3,4) lp']
  show ?thesis
  proof (cases "0 \<le> s \<and> s \<le> 1 \<and> 0 \<le> t \<and> t \<le> 1")
    case True
    then have T': "0 \<le> t \<and> t \<le> 1 \<and> 0 \<le> s \<and> s \<le> 1" by blast
    from assms(8) show ?thesis
      unfolding eq eq' if_P [OF True] if_P [OF T']
      by (auto simp: time_calculations_def vdist_commute)
  next
    case False
    then have F': "\<not> (0 \<le> t \<and> t \<le> 1 \<and> 0 \<le> s \<and> s \<le> 1)" by blast
    have H: "min (fst (?cs ! 0)) (fst (?cs ! 1)) = min (fst (?cs ! 2)) (fst (?cs ! 3)) \<Longrightarrow>
        (if fst (?cs ! 1) < fst (?cs ! 0) then ?cs ! 1 else ?cs ! 0) =
        (if fst (?cs ! 3) < fst (?cs ! 2) then ?cs ! 3 else ?cs ! 2)"
      by (rule candidates_cross_tie [OF assms(1,2) len assms(7) lp False refl])
    have sw: "pick None (endpoint_candidates eps ?Q1 ?Q2 ?P1 ?P2) = map_option swap_candidate (pick None ?cs)"
      unfolding endpoint_candidates_swap [of eps ?Q1 ?Q2 ?P1 ?P2]
      by (subst (5) endpoint_candidates_nths) (rule pick4_swap [OF H])
    from assms(8) show ?thesis
      unfolding eq eq' if_not_P [OF False] if_not_P [OF F'] sw
      by (auto simp: result_of_swap swap_result_def split: option.splits)
  qed
qed

lemma solve_perpendicular:
  "closest_points_on_segments_in_3D default_eps [0, 0, 0, 0] [1, 0, 0, 4] [2, 1, 0, 0] [2, - 1, 0, 4]
     = Inr ([1, 0, 0], [2, 0, 0], 1, (4, 2))"
  by (simp add: closest_points_on_segments_in_3D_def py_index_def line_parameters_def default_eps_def
      endpoint_fallback_def point_to_seg_closest_def lt_best_def
      sub_def dot_def add_def scale_def py_div_def clamp_def norm_vec_def py_sqrt_def
      time_calculations_def Let_def)

theorem swapped_segments_well_conditioned_witness:
  "closest_points_on_segments_in_3D default_eps [2, 1, 0, 0] [2, - 1, 0, 4] [0, 0, 0, 0] [1, 0, 0, 4]
     = Inr ([2, 0, 0], [1, 0, 0], 1, (2, 4))"
  by (rule swapped_segments_well_conditioned [OF default_eps_nonneg _ _ _ _ _ _ solve_perpendicular])
     (simp_all add: default_eps_def dot_def sub_def)

text \<open>
  C7, as stated, fails on the parallel segments from (0,0,0) to (2,0,0) and from (3,1,0) to
  (1,1,0): the closest pair is not unique, two endpoint candidates tie at distance 1, and
  each call keeps the one its own loops find first. The call on (A, B) returns the points
  (2,0,0) and (2,1,0); the call on (B, A) returns (1,1,0) and (1,0,0), not (2,1,0) and
  (2,0,0).
\<close>

theorem swapped_segments_counterexample:
  "closest_points_on_segments_in_3D default_eps [0, 0, 0, 0] [2, 0, 0, 2] [3, 1, 0, 0] [1, 1, 0, 2]
     = Inr ([2, 0, 0], [2, 1, 0], 1, (2, 1)) \<and>
   closest_points_on_segments_in_3D default_eps [3, 1, 0, 0] [1, 1, 0, 2] [0, 0, 0, 0] [2, 0, 0, 2]
     = Inr ([1, 1, 0], [1, 0, 0], 1, (2, 1)) \<and>
   closest_points_on_segments_in_3D default_eps [3, 1, 0, 0] [1, 1, 0, 2] [0, 0, 0, 0] [2, 0, 0, 2]
     \<noteq> Inr ([2, 1, 0], [2, 0, 0], 1, (1, 2))"
  by (simp add: closest_points_on_segments_in_3D_def py_index_def line_parameters_def default_eps_def
      endpoint_fallback_def point_to_seg_closest_def lt_best_def
      sub_def dot_def add_def scale_def py_div_def clamp_def norm_vec_def py_sqrt_def
      time_calculations_def Let_def)

section \<open>The endpoint fallback\<close>

lemma sqd_point_seg:
  assumes "length A = 3" "length B = 3" "length X = 3"
  shows "dot (sub X (add A (scale (sub B A) t))) (sub X (add A (scale (sub B A) t))) =
         dot (sub B A) (sub B A) * t * t - 2 * dot (sub X A) (sub B A) * t + dot (sub X A) (sub X A)"
proof -
  obtain a1 a2 a3 where A: "A = [a1, a2, a3]" using vec3 [OF assms(1)] by blast
  obtain b1 b2 b3 where B: "B = [b1, b2, b3]" using vec3 [OF assms(2)] by blast
  obtain x1 x2 x3 where X: "X = [x1, x2, x3]" using vec3 [OF assms(3)] by blast
  show ?thesis
    unfolding A B X by (simp add: dot_def sub_def add_def scale_def algebra_simps)
qed

lemma seg_point_closest:
  assumes "0 \<le> eps" "length A = 3" "length B = 3" "length X = 3"
    and "eps < dot (sub B A) (sub B A)" "0 \<le> t" "t \<le> 1"
  shows "vdist X (seg_point eps A B X) \<le> vdist X (add A (scale (sub B A) t))"
proof -
  let ?c = "dot (sub B A) (sub B A)" and ?b = "dot (sub X A) (sub B A)"
  have c: "0 < ?c"
    using assms(1,5) by linarith
  have p: "seg_param eps A B X = clamp (?b / ?c)"
    using assms(5) by (simp add: seg_param_def)
  have "?c * clamp (?b / ?c) * clamp (?b / ?c) - 2 * ?b * clamp (?b / ?c) \<le> ?c * t * t - 2 * ?b * t"
    by (rule quad1_min(1) [OF c assms(6,7)])
  then show ?thesis
    unfolding vdist_def seg_point_def p sqd_point_seg [OF assms(2-4)] by simp
qed

text \<open>
  C6: when the unclamped line parameters are not both in [0,1], the result is one of the
  four endpoint candidates, in the order P1 against segment Q, P2 against segment Q, Q1
  against segment P, Q2 against segment P. The candidate of an endpoint X against a
  segment from A to B is the point A + t (B - A) with t the projection parameter
  (X - A).(B - A) / (B - A).(B - A) clamped to [0,1] (t = 0 when the squared length is
  not above eps); on a segment longer than that it is the point of the segment nearest
  to X. The distance of the result is minimal among the four, and strictly below that of
  every candidate evaluated before it, so a tie goes to the candidate found first.
\<close>

theorem endpoint_fallback_first_min:
  assumes "0 \<le> eps" "4 \<le> length A1" "4 \<le> length A2" "4 \<le> length B1" "4 \<le> length B2"
    and "P1 = take 3 A1" "P2 = take 3 A2" "Q1 = take 3 B1" "Q2 = take 3 B2"
    and "line_parameters eps P1 P2 Q1 Q2 = Inr (s, t)"
    and "\<not> (0 \<le> s \<and> s \<le> 1 \<and> 0 \<le> t \<and> t \<le> 1)"
    and "u = sub P2 P1" "v = sub Q2 Q1"
    and "ta = clamp (if dot v v > eps then dot (sub P1 Q1) v / dot v v else 0)"
    and "tb = clamp (if dot v v > eps then dot (sub P2 Q1) v / dot v v else 0)"
    and "sa = clamp (if dot u u > eps then dot (sub Q1 P1) u / dot u u else 0)"
    and "sb = clamp (if dot u u > eps then dot (sub Q2 P1) u / dot u u else 0)"
    and "cs = [(vdist P1 (add Q1 (scale v ta)), (P1, 0, add Q1 (scale v ta), ta)),
               (vdist P2 (add Q1 (scale v tb)), (P2, 1, add Q1 (scale v tb), tb)),
               (vdist (add P1 (scale u sa)) Q1, (add P1 (scale u sa), sa, Q1, 0)),
               (vdist (add P1 (scale u sb)) Q2, (add P1 (scale u sb), sb, Q2, 1))]"
  shows "point_to_seg_closest eps Q1 Q2 P1 = Inr (add Q1 (scale v ta), ta) \<and>
    point_to_seg_closest eps Q1 Q2 P2 = Inr (add Q1 (scale v tb), tb) \<and>
    point_to_seg_closest eps P1 P2 Q1 = Inr (add P1 (scale u sa), sa) \<and>
    point_to_seg_closest eps P1 P2 Q2 = Inr (add P1 (scale u sb), sb) \<and>
    0 \<le> ta \<and> ta \<le> 1 \<and> 0 \<le> tb \<and> tb \<le> 1 \<and> 0 \<le> sa \<and> sa \<le> 1 \<and> 0 \<le> sb \<and> sb \<le> 1 \<and>
    (eps < dot v v \<longrightarrow> (\<forall>r. 0 \<le> r \<and> r \<le> 1 \<longrightarrow>
        vdist P1 (add Q1 (scale v ta)) \<le> vdist P1 (add Q1 (scale v r)) \<and>
        vdist P2 (add Q1 (scale v tb)) \<le> vdist P2 (add Q1 (scale v r)))) \<and>
    (eps < dot u u \<longrightarrow> (\<forall>r. 0 \<le> r \<and> r \<le> 1 \<longrightarrow>
        vdist (add P1 (scale u sa)) Q1 \<le> vdist (add P1 (scale u r)) Q1 \<and>
        vdist (add P1 (scale u sb)) Q2 \<le> vdist (add P1 (scale u r)) Q2)) \<and>
    (\<exists>i<4.
      closest_points_on_segments_in_3D eps A1 A2 B1 B2 =
        Inr (result_of (A1 ! 3) (A2 ! 3) (B1 ! 3) (B2 ! 3) (cs ! i)) \<and>
      (\<forall>j<4. fst (cs ! i) \<le> fst (cs ! j)) \<and> (\<forall>j<i. fst (cs ! i) < fst (cs ! j)))"
proof -
  have len: "length P1 = 3" "length P2 = 3" "length Q1 = 3" "length Q2 = 3"
    using assms(2-5) unfolding assms(6-9) by simp_all
  have par: "ta = seg_param eps Q1 Q2 P1" "tb = seg_param eps Q1 Q2 P2"
    "sa = seg_param eps P1 P2 Q1" "sb = seg_param eps P1 P2 Q2"
    unfolding assms(12-17) seg_param_def by simp_all
  have pt: "add Q1 (scale v ta) = seg_point eps Q1 Q2 P1" "add Q1 (scale v tb) = seg_point eps Q1 Q2 P2"
    "add P1 (scale u sa) = seg_point eps P1 P2 Q1" "add P1 (scale u sb) = seg_point eps P1 P2 Q2"
    unfolding par seg_point_def assms(12,13) by simp_all
  have c: "cs = endpoint_candidates eps P1 P2 Q1 Q2"
    unfolding assms(18) pt unfolding par endpoint_candidates_def ..
  have code: "point_to_seg_closest eps Q1 Q2 P1 = Inr (add Q1 (scale v ta), ta)"
    "point_to_seg_closest eps Q1 Q2 P2 = Inr (add Q1 (scale v tb), tb)"
    "point_to_seg_closest eps P1 P2 Q1 = Inr (add P1 (scale u sa), sa)"
    "point_to_seg_closest eps P1 P2 Q2 = Inr (add P1 (scale u sb), sb)"
    unfolding pt unfolding par by (simp_all add: point_to_seg_closest_eq [OF assms(1)])
  have r: "0 \<le> ta \<and> ta \<le> 1 \<and> 0 \<le> tb \<and> tb \<le> 1 \<and> 0 \<le> sa \<and> sa \<le> 1 \<and> 0 \<le> sb \<and> sb \<le> 1"
    unfolding par by (simp add: seg_param_range)
  have mQ: "vdist P1 (add Q1 (scale v ta)) \<le> vdist P1 (add Q1 (scale v r)) \<and>
        vdist P2 (add Q1 (scale v tb)) \<le> vdist P2 (add Q1 (scale v r))"
    if "eps < dot v v" "0 \<le> r \<and> r \<le> 1" for r
    using seg_point_closest [OF assms(1) len(3,4) len(1), of r]
      seg_point_closest [OF assms(1) len(3,4) len(2), of r] that pt(1,2)
    unfolding assms(13) by simp
  have mP: "vdist (add P1 (scale u sa)) Q1 \<le> vdist (add P1 (scale u r)) Q1 \<and>
        vdist (add P1 (scale u sb)) Q2 \<le> vdist (add P1 (scale u r)) Q2"
    if "eps < dot u u" "0 \<le> r \<and> r \<le> 1" for r
    using seg_point_closest [OF assms(1) len(1,2) len(3), of r]
      seg_point_closest [OF assms(1) len(1,2) len(4), of r] that pt(3,4)
    unfolding assms(12) by (simp add: vdist_commute)
  obtain i where i: "i < 4" "pick None cs = Some (cs ! i)"
    "\<forall>j<4. fst (cs ! i) \<le> fst (cs ! j)" "\<forall>j<i. fst (cs ! i) < fst (cs ! j)"
    unfolding c using pick_endpoint_candidates by blast
  have sel: "closest_points_on_segments_in_3D eps A1 A2 B1 B2 =
      Inr (result_of (A1 ! 3) (A2 ! 3) (B1 ! 3) (B2 ! 3) (cs ! i))"
    using closest_points_eq [OF assms(1-5) assms(10) [unfolded assms(6-9)]] assms(11) i(2)
    unfolding c assms(6-9) by simp
  show ?thesis
    using code r mQ mP sel i(1,3,4) by blast
qed

theorem endpoint_fallback_first_min_witness:
  "let cs = [(vdist [0, 0, 0] [2, 0, 0], ([0, 0, 0], 0, [2, 0, 0], 1 / 2)),
             (vdist [1, 0, 0] [2, 0, 0], ([1, 0, 0], 1, [2, 0, 0], 1 / 2)),
             (vdist [1, 0, 0] [2, 1, 0], ([1, 0, 0], 1, [2, 1, 0], 0)),
             (vdist [1, 0, 0] [2, - 1, 0], ([1, 0, 0], 1, [2, - 1, 0], 1))]
              :: (real \<times> (vec \<times> real \<times> vec \<times> real)) list
   in point_to_seg_closest default_eps [2, 1, 0] [2, - 1, 0] [0, 0, 0] = Inr ([2, 0, 0], 1 / 2) \<and>
      point_to_seg_closest default_eps [2, 1, 0] [2, - 1, 0] [1, 0, 0] = Inr ([2, 0, 0], 1 / 2) \<and>
      point_to_seg_closest default_eps [0, 0, 0] [1, 0, 0] [2, 1, 0] = Inr ([1, 0, 0], 1) \<and>
      point_to_seg_closest default_eps [0, 0, 0] [1, 0, 0] [2, - 1, 0] = Inr ([1, 0, 0], 1) \<and>
      vdist [0, 0, 0] [2, 0, 0] \<le> vdist [0, 0, 0] (add [2, 1, 0] (scale [0, - 2, 0] (1 / 4))) \<and>
      vdist [1, 0, 0] [2, 1, 0] \<le> vdist (add [0, 0, 0] (scale [1, 0, 0] (1 / 4))) [2, 1, 0] \<and>
      (\<exists>i<4.
         closest_points_on_segments_in_3D default_eps [0, 0, 0, 0] [1, 0, 0, 4] [2, 1, 0, 0] [2, - 1, 0, 4] =
           Inr (result_of ([0, 0, 0, 0] ! 3) ([1, 0, 0, 4] ! 3) ([2, 1, 0, 0] ! 3) ([2, - 1, 0, 4] ! 3) (cs ! i)) \<and>
         (\<forall>j<4. fst (cs ! i) \<le> fst (cs ! j)) \<and> (\<forall>j<i. fst (cs ! i) < fst (cs ! j)))"
proof -
  have len: "4 \<le> length [0, 0, 0, 0 :: real]" "4 \<le> length [1, 0, 0, 4 :: real]"
    "4 \<le> length [2, 1, 0, 0 :: real]" "4 \<le> length [2, - 1, 0, 4 :: real]"
    by simp_all
  have tk: "[0, 0, 0] = take 3 [0, 0, 0, 0 :: real]" "[1, 0, 0] = take 3 [1, 0, 0, 4 :: real]"
    "[2, 1, 0] = take 3 [2, 1, 0, 0 :: real]" "[2, - 1, 0] = take 3 [2, - 1, 0, 4 :: real]"
    by simp_all
  have lp: "line_parameters default_eps [0, 0, 0] [1, 0, 0] [2, 1, 0] [2, - 1, 0] = Inr (2, 1 / 2)"
    by (simp add: line_parameters_def default_eps_def sub_def dot_def py_div_def)
  have out: "\<not> (0 \<le> (2 :: real) \<and> (2 :: real) \<le> 1 \<and> 0 \<le> (1 / 2 :: real) \<and> (1 / 2 :: real) \<le> 1)"
    by simp
  have uv: "[1, 0, 0] = sub [1, 0, 0] [0, 0, 0 :: real]" "[0, - 2, 0] = sub [2, - 1, 0] [2, 1, 0 :: real]"
    by (simp_all add: sub_def)
  have par: "1 / 2 = clamp (if dot [0, - 2, 0] [0, - 2, 0] > default_eps
        then dot (sub [0, 0, 0] [2, 1, 0]) [0, - 2, 0] / dot [0, - 2, 0] [0, - 2, 0] else 0)"
    "1 / 2 = clamp (if dot [0, - 2, 0] [0, - 2, 0] > default_eps
        then dot (sub [1, 0, 0] [2, 1, 0]) [0, - 2, 0] / dot [0, - 2, 0] [0, - 2, 0] else 0)"
    "1 = clamp (if dot [1, 0, 0] [1, 0, 0] > default_eps
        then dot (sub [2, 1, 0] [0, 0, 0]) [1, 0, 0] / dot [1, 0, 0] [1, 0, 0] else 0)"
    "1 = clamp (if dot [1, 0, 0] [1, 0, 0] > default_eps
        then dot (sub [2, - 1, 0] [0, 0, 0]) [1, 0, 0] / dot [1, 0, 0] [1, 0, 0] else 0)"
    by (simp_all add: default_eps_def sub_def dot_def clamp_def)
  have pts: "add [2, 1, 0] (scale [0, - 2, 0] (1 / 2)) = [2, 0, 0 :: real]"
    "add [0, 0, 0] (scale [1, 0, 0] 1) = [1, 0, 0 :: real]"
    by (simp_all add: add_def scale_def)
  have long: "default_eps < dot [0, - 2, 0] [0, - 2, 0]" "default_eps < dot [1, 0, 0] [1, 0, 0]"
    by (simp_all add: default_eps_def dot_def)
  have r: "0 \<le> (1 / 4 :: real) \<and> (1 / 4 :: real) \<le> 1"
    by simp
  note inst = endpoint_fallback_first_min [OF default_eps_nonneg len tk lp out uv par refl, unfolded pts]
  show ?thesis
    unfolding Let_def using inst long r by blast
qed

section \<open>Minimality of the returned distance\<close>

text \<open>
  Where the solver is exact: when \<open>|D| > eps\<close> and both segments have squared length
  above \<open>eps\<close>, the returned distance is the distance of the two returned points and is
  at most the distance of any two points of the two segments. In the direct branch the
  parameters are the stationary point of a positive definite quadratic form; in the fallback
  the stationary point lies outside the unit square, so the minimum over the square is taken
  on its boundary, where each candidate is the minimum over one edge.
\<close>

lemma boundary_above_edge_minima:
  fixes a b c d e g eps :: real
  assumes eps: "0 \<le> eps" and ac: "eps < a" "eps < c"
    and tA: "tA = clamp (if c > eps then (- e) / c else 0)"
    and tB: "tB = clamp (if c > eps then (b - e) / c else 0)"
    and sC: "sC = clamp (if a > eps then d / a else 0)"
    and sD: "sD = clamp (if a > eps then (b + d) / a else 0)"
    and M: "M \<le> quad a b c d e g 0 tA" "M \<le> quad a b c d e g 1 tB"
           "M \<le> quad a b c d e g sC 0" "M \<le> quad a b c d e g sD 1"
    and bd: "on_boundary s t"
  shows "M \<le> quad a b c d e g s t"
proof -
  have a: "0 < a" and c: "0 < c"
    using eps ac by linarith+
  from bd have K: "0 \<le> s" "s \<le> 1" "0 \<le> t" "t \<le> 1" and edge: "s = 0 \<or> s = 1 \<or> t = 0 \<or> t = 1"
    by (simp_all add: on_boundary_def)
  have "quad a b c d e g 0 tA \<le> quad a b c d e g 0 t"
    using quad1_min(1) [OF c K(3,4), of "- e"] ac unfolding tA quad_def by (simp add: algebra_simps)
  moreover have "quad a b c d e g 1 tB \<le> quad a b c d e g 1 t"
    using quad1_min(1) [OF c K(3,4), of "b - e"] ac unfolding tB quad_def by (simp add: algebra_simps)
  moreover have "quad a b c d e g sC 0 \<le> quad a b c d e g s 0"
    using quad1_min(1) [OF a K(1,2), of d] ac unfolding sC quad_def by (simp add: algebra_simps)
  moreover have "quad a b c d e g sD 1 \<le> quad a b c d e g s 1"
    using quad1_min(1) [OF a K(1,2), of "b + d"] ac unfolding sD quad_def by (simp add: algebra_simps)
  ultimately show ?thesis
    using edge M by (elim disjE) simp_all
qed

lemma square_above_edge_minima:
  fixes a b c d e g eps :: real
  assumes eps: "0 \<le> eps" and ac: "eps < a" "eps < c" and D: "b * b < a * c"
    and st: "a * ss - b * ts = d" "b * ss - c * ts = e"
    and out: "\<not> (0 \<le> ss \<and> ss \<le> 1 \<and> 0 \<le> ts \<and> ts \<le> 1)"
    and tA: "tA = clamp (if c > eps then (- e) / c else 0)"
    and tB: "tB = clamp (if c > eps then (b - e) / c else 0)"
    and sC: "sC = clamp (if a > eps then d / a else 0)"
    and sD: "sD = clamp (if a > eps then (b + d) / a else 0)"
    and M: "M \<le> quad a b c d e g 0 tA" "M \<le> quad a b c d e g 1 tB"
           "M \<le> quad a b c d e g sC 0" "M \<le> quad a b c d e g sD 1"
    and K: "0 \<le> s" "s \<le> 1" "0 \<le> t" "t \<le> 1"
  shows "M \<le> quad a b c d e g s t"
proof -
  have a: "0 < a"
    using eps ac by linarith
  from exit2 [OF K out] obtain l where l: "0 \<le> l" "l \<le> 1"
    "on_boundary (s + l * (ss - s)) (t + l * (ts - t))"
    by blast
  from boundary_above_edge_minima [OF eps ac tA tB sC sD M l(3)]
    quad_ray [OF a D st l(1,2), of g s t]
  show ?thesis
    by linarith
qed

lemma stationary_below:
  assumes "0 < a" "b * b < a * c" "a * ss - b * ts = d" "b * ss - c * ts = e"
  shows "quad a b c d e g ss ts \<le> quad a b c d e g s t"
  unfolding quad_centre [OF assms(3,4), of g s t]
  using qf_pos(1) [OF assms(1,2), of "s - ss" "t - ts"] by simp

lemma well_conditioned_minimum:
  assumes eps: "0 \<le> eps"
    and lens: "4 \<le> length A1" "4 \<le> length A2" "4 \<le> length B1" "4 \<le> length B2"
    and PQ: "P1 = take 3 A1" "P2 = take 3 A2" "Q1 = take 3 B1" "Q2 = take 3 B2"
    and D: "eps < \<bar>- dot (sub P2 P1) (sub P2 P1) * dot (sub Q2 Q1) (sub Q2 Q1)
              + dot (sub P2 P1) (sub Q2 Q1) * dot (sub P2 P1) (sub Q2 Q1)\<bar>"
    and long: "eps < dot (sub P2 P1) (sub P2 P1)" "eps < dot (sub Q2 Q1) (sub Q2 Q1)"
    and res: "closest_points_on_segments_in_3D eps A1 A2 B1 B2 = Inr (Pc, Qc, dmin, ts)"
    and K: "0 \<le> s'" "s' \<le> 1" "0 \<le> t'" "t' \<le> 1"
  shows "dmin = vdist Pc Qc \<and> dmin \<le> vdist (add P1 (scale (sub P2 P1) s')) (add Q1 (scale (sub Q2 Q1) t'))"
proof -
  define u v w where "u = sub P2 P1" and "v = sub Q2 Q1" and "w = sub Q1 P1"
  define a b c d e g where "a = dot u u" and "b = dot u v" and "c = dot v v"
    and "d = dot u w" and "e = dot v w" and "g = dot w w"
  note defs = a_def b_def c_def d_def e_def g_def u_def v_def w_def
  define tA tB sC sD where "tA = seg_param eps Q1 Q2 P1" and "tB = seg_param eps Q1 Q2 P2"
    and "sC = seg_param eps P1 P2 Q1" and "sD = seg_param eps P1 P2 Q2"
  let ?F = "quad a b c d e g"
  let ?cs = "endpoint_candidates eps P1 P2 Q1 Q2"
  have len: "length P1 = 3" "length P2 = 3" "length Q1 = 3" "length Q2 = 3"
    using lens unfolding PQ by simp_all
  have lu: "length (sub P2 P1) = 3" "length (sub Q2 Q1) = 3"
    using len by (simp_all add: sub_def)
  have "b * b \<le> a * c"
    unfolding defs by (rule cauchy3 [OF lu])
  with D eps have bb: "b * b < a * c"
    unfolding defs by linarith
  have a: "0 < a" and ac: "eps < a" "eps < c"
    using long eps unfolding defs by linarith+
  obtain s t where lp: "line_parameters eps P1 P2 Q1 Q2 = Inr (s, t)"
    using line_parameters_total [OF eps] by blast
  have st: "a * s - b * t = d" "b * s - c * t = e"
    unfolding defs by (rule line_parameters_stationary [OF eps D lp])+
  note eq = closest_points_eq [OF eps lens lp [unfolded PQ], folded PQ]
  have target: "vdist (add P1 (scale (sub P2 P1) s')) (add Q1 (scale (sub Q2 Q1) t')) = sqrt (?F s' t')"
    unfolding defs by (rule vdist_params [OF len])
  have dist: "dmin = vdist Pc Qc"
    by (rule closest_points_distance [OF eps res])
  show ?thesis
  proof (cases "0 \<le> s \<and> s \<le> 1 \<and> 0 \<le> t \<and> t \<le> 1")
    case True
    from res have "dmin = vdist (add P1 (scale (sub P2 P1) s)) (add Q1 (scale (sub Q2 Q1) t))"
      unfolding eq if_P [OF True] by auto
    also have "\<dots> = sqrt (?F s t)"
      unfolding defs by (rule vdist_params [OF len])
    also have "\<dots> \<le> sqrt (?F s' t')"
      using stationary_below [OF a bb st, of g s' t'] by simp
    finally have "dmin \<le> vdist (add P1 (scale (sub P2 P1) s')) (add Q1 (scale (sub Q2 Q1) t'))"
      unfolding target .
    with dist show ?thesis
      by blast
  next
    case False
    have pA: "tA = clamp (if c > eps then (- e) / c else 0)"
      and pB: "tB = clamp (if c > eps then (b - e) / c else 0)"
      and pC: "sC = clamp (if a > eps then d / a else 0)"
      and pD: "sD = clamp (if a > eps then (b + d) / a else 0)"
      unfolding tA_def tB_def sC_def sD_def seg_param_def proj_scalars [OF len] defs by simp_all
    have P0: "add P1 (scale (sub P2 P1) 0) = P1" and P1': "add P1 (scale (sub P2 P1) 1) = P2"
      and Q0: "add Q1 (scale (sub Q2 Q1) 0) = Q1" and Q1': "add Q1 (scale (sub Q2 Q1) 1) = Q2"
      using len by (simp_all add: add_scale_sub_0 add_scale_sub_1)
    have f0: "fst (?cs ! 0) = sqrt (?F 0 tA)"
      using vdist_params [OF len, of 0 tA]
      unfolding endpoint_candidates_def seg_point_def tA_def defs P0 by simp
    have f1: "fst (?cs ! 1) = sqrt (?F 1 tB)"
      using vdist_params [OF len, of 1 tB]
      unfolding endpoint_candidates_def seg_point_def tB_def defs P1' by simp
    have f2: "fst (?cs ! 2) = sqrt (?F sC 0)"
      using vdist_params [OF len, of sC 0]
      unfolding endpoint_candidates_def seg_point_def sC_def defs Q0 by simp
    have f3: "fst (?cs ! 3) = sqrt (?F sD 1)"
      using vdist_params [OF len, of sD 1]
      unfolding endpoint_candidates_def seg_point_def sD_def defs Q1' by simp
    obtain i where i: "i < 4" "pick None ?cs = Some (?cs ! i)" "\<forall>j<4. fst (?cs ! i) \<le> fst (?cs ! j)"
      using pick_endpoint_candidates by blast
    from res have dm: "dmin = fst (?cs ! i)"
      unfolding eq if_not_P [OF False] i(2) by (auto simp: result_of_def split: prod.splits)
    from i(1) consider "i = 0" | "i = 1" | "i = 2" | "i = 3"
      by linarith
    then obtain M where M: "dmin = sqrt M"
      unfolding dm using f0 f1 f2 f3 by cases auto
    have "sqrt M \<le> sqrt (?F 0 tA)" "sqrt M \<le> sqrt (?F 1 tB)" "sqrt M \<le> sqrt (?F sC 0)"
      "sqrt M \<le> sqrt (?F sD 1)"
      using i(3) unfolding M [symmetric] dm f0 [symmetric] f1 [symmetric] f2 [symmetric] f3 [symmetric]
      by simp_all
    then have le: "M \<le> ?F 0 tA" "M \<le> ?F 1 tB" "M \<le> ?F sC 0" "M \<le> ?F sD 1"
      by simp_all
    from square_above_edge_minima [OF eps ac bb st False pA pB pC pD le K]
    have "sqrt M \<le> sqrt (?F s' t')"
      by simp
    then have "dmin \<le> vdist (add P1 (scale (sub P2 P1) s')) (add Q1 (scale (sub Q2 Q1) t'))"
      unfolding M target .
    with dist show ?thesis
      by blast
  qed
qed

text \<open>
  C1 at the parallel segments from (0,0,0) to (1,0,0) and from (1,1,0) to (3,1,0): the
  solver returns the points (0,0,0) and (2,1,0) at distance \<open>sqrt 5\<close>, while the end
  (1,0,0) of the first segment and the start (1,1,0) of the second are at distance 1. With
  \<open>w = Q1 - P1\<close> the parallel branch would need \<open>t = - e / c\<close>; the code takes \<open>e / c\<close>.
\<close>

theorem parallel_segments_not_minimal:
  "closest_points_on_segments_in_3D default_eps [0, 0, 0, 0] [1, 0, 0, 1] [1, 1, 0, 0] [3, 1, 0, 1]
     = Inr ([0, 0, 0], [2, 1, 0], sqrt 5, (0, 1 / 2)) \<and>
   vdist (add [0, 0, 0] (scale (sub [1, 0, 0] [0, 0, 0]) 1))
         (add [1, 1, 0] (scale (sub [3, 1, 0] [1, 1, 0]) 0)) = 1 \<and>
   1 < sqrt 5"
  by (simp add: closest_points_on_segments_in_3D_def py_index_def line_parameters_def default_eps_def
      sub_def dot_def add_def scale_def py_div_def clamp_def norm_vec_def py_sqrt_def vdist_def
      time_calculations_def Let_def)

end
